(* ===== verification/Go_Prelude.thy ===== *)
theory Go_Prelude
  imports Main "HOL-Library.Finite_Map" "HOL-Library.List_Lexorder" "HOL-Library.Char_ord"
    "HOL-Library.Word" "HOL-Library.Code_Target_Nat"
begin

text \<open>
  The vocabulary every component shares: Go maps with string keys, the traversal of a map or
  a slice that stops at the first error, counting over a map, and sets of strings used as
  \<^verbatim>\<open>map[string]struct{}\<close>.

  A Go map is a finite map \<^typ>\<open>(string, 'v) fmap\<close>. Go leaves the traversal order of
  \<^verbatim>\<open>range m\<close> open; the model visits the keys in ascending order. The order
  only decides which of several applicable errors is reported, never whether one is.
  Strings are byte strings, as in Go, and their order is the bytewise lexicographic one.
\<close>

type_synonym 'v gomap = "(string, 'v) fmap"

definition gm_entries :: "'v gomap \<Rightarrow> (string \<times> 'v) list" where
  "gm_entries m = sorted_list_of_fmap m"

definition gm_keys :: "'v gomap \<Rightarrow> string list" where
  "gm_keys m = map fst (gm_entries m)"

definition gm_vals :: "'v gomap \<Rightarrow> 'v list" where
  "gm_vals m = map snd (gm_entries m)"

definition gm_len :: "'v gomap \<Rightarrow> int" where
  "gm_len m = int (length (gm_entries m))"

text \<open>Reading a missing key yields the zero value, here of a string or of an integer.\<close>

definition gm_str :: "string gomap \<Rightarrow> string \<Rightarrow> string" where
  "gm_str m k = (case fmlookup m k of Some v \<Rightarrow> v | None \<Rightarrow> '''')"

definition gm_int :: "int gomap \<Rightarrow> string \<Rightarrow> int" where
  "gm_int m k = (case fmlookup m k of Some v \<Rightarrow> v | None \<Rightarrow> 0)"

definition gm_count :: "('v \<Rightarrow> bool) \<Rightarrow> 'v gomap \<Rightarrow> int" where
  "gm_count P m = int (length (filter P (gm_vals m)))"

text \<open>A loop whose body returns early with an error: the first error, if any.\<close>

fun first_err :: "('a \<Rightarrow> 'e option) \<Rightarrow> 'a list \<Rightarrow> 'e option" where
  "first_err f [] = None"
| "first_err f (x # xs) = (case f x of Some e \<Rightarrow> Some e | None \<Rightarrow> first_err f xs)"

text \<open>A loop that threads a state and stops at the first error.\<close>

fun fold_err :: "('a \<Rightarrow> 's \<Rightarrow> 'e + 's) \<Rightarrow> 'a list \<Rightarrow> 's \<Rightarrow> 'e + 's" where
  "fold_err f [] s = Inr s"
| "fold_err f (x # xs) s = (case f x s of Inl e \<Rightarrow> Inl e | Inr s' \<Rightarrow> fold_err f xs s')"

text \<open>Sequential early returns: the first check that fails decides.\<close>

definition or_err :: "'e option \<Rightarrow> 'e option \<Rightarrow> 'e option" where
  "or_err a b = (case a of Some e \<Rightarrow> Some e | None \<Rightarrow> b)"

definition err_if :: "bool \<Rightarrow> 'e \<Rightarrow> 'e option" where
  "err_if b e = (if b then Some e else None)"

text \<open>Slices without a repeated element, as a \<^verbatim>\<open>seen\<close> map detects it.\<close>

fun seen_twice :: "string list \<Rightarrow> string list \<Rightarrow> bool" where
  "seen_twice seen [] = False"
| "seen_twice seen (x # xs) = (x \<in> set seen \<or> seen_twice (x # seen) xs)"

section \<open>Lemmas\<close>

named_theorems gomap_simps "traversals, counts and lookups of Go maps"

lemma gm_entries_map_of: "map_of (gm_entries m) = fmlookup m"
  by (simp add: gm_entries_def)

lemma distinct_gm_entries: "distinct (map fst (gm_entries m))"
  by (simp add: gm_entries_def sorted_list_of_fmap_def comp_def sorted_list_of_fset.rep_eq)

lemma set_gm_entries [gomap_simps]: "set (gm_entries m) = {(k, v). fmlookup m k = Some v}"
  using map_of_eq_Some_iff [OF distinct_gm_entries [of m]]
  by (auto simp: gm_entries_map_of)

lemma gm_entries_empty [simp]: "gm_entries fmempty = []"
  using set_gm_entries [of fmempty] by simp

lemma in_gm_entries_iff: "(k, v) \<in> set (gm_entries m) \<longleftrightarrow> fmlookup m k = Some v"
  by (simp add: set_gm_entries)

lemma set_gm_vals [gomap_simps]: "set (gm_vals m) = {v. \<exists>k. fmlookup m k = Some v}"
  by (force simp: gm_vals_def set_gm_entries)

lemma set_gm_keys [gomap_simps]: "set (gm_keys m) = fmdom' m"
  by (force simp: gm_keys_def set_gm_entries fmlookup_dom'_iff)

lemma distinct_gm_keys: "distinct (gm_keys m)"
  by (simp add: gm_keys_def distinct_gm_entries)

lemma sorted_gm_keys: "sorted (gm_keys m)"
  by (simp add: gm_keys_def gm_entries_def sorted_list_of_fmap_def comp_def sorted_list_of_fset.rep_eq)

lemma distinct_entries: "distinct (gm_entries m)"
  using distinct_gm_entries distinct_map by blast

lemma gm_len_card [gomap_simps]: "gm_len m = int (card (fmdom' m))"
proof -
  have "length (gm_entries m) = card (set (gm_keys m))"
    using distinct_card [OF distinct_gm_keys [of m]] by (simp add: gm_keys_def)
  then show ?thesis by (simp add: gm_len_def set_gm_keys)
qed

lemma gm_count_card: "gm_count P m = int (card {k. \<exists>v. fmlookup m k = Some v \<and> P v})"
proof -
  have "length (filter P (gm_vals m)) = length (filter (P \<circ> snd) (gm_entries m))"
    by (simp add: gm_vals_def filter_map)
  also have "\<dots> = card (set (map fst (filter (P \<circ> snd) (gm_entries m))))"
    using distinct_gm_entries [of m]
    by (simp add: distinct_card distinct_map_filter del: set_map)
  also have "set (map fst (filter (P \<circ> snd) (gm_entries m)))
      = {k. \<exists>v. fmlookup m k = Some v \<and> P v}"
    by (force simp: set_gm_entries)
  finally show ?thesis by (simp add: gm_count_def)
qed

lemma finite_lookup_keys [simp]: "finite {k. \<exists>v. fmlookup m k = Some v \<and> P v}"
  by (rule finite_subset [of _ "fmdom' m"]) (auto simp: fmlookup_dom'_iff)

lemma gm_count_upd_new:
  assumes "fmlookup m k = None"
  shows "gm_count P (fmupd k v m) = gm_count P m + (if P v then 1 else 0)"
proof -
  let ?S = "{k. \<exists>v. fmlookup m k = Some v \<and> P v}"
  have "{k'. \<exists>v'. fmlookup (fmupd k v m) k' = Some v' \<and> P v'} = (if P v then insert k ?S else ?S)"
    using assms by (auto split: if_splits)
  then show ?thesis using assms by (simp add: gm_count_card)
qed

lemma gm_len_upd_new:
  "fmlookup m k = None \<Longrightarrow> gm_len (fmupd k v m) = gm_len m + 1"
  by (simp add: gm_len_card fmlookup_dom'_iff card_insert_disjoint)

lemma gm_len_upd_old:
  "fmlookup m k = Some v' \<Longrightarrow> gm_len (fmupd k v m) = gm_len m"
  by (simp add: gm_len_card fmlookup_dom'_iff insert_absorb)

lemma gm_len_drop_le: "gm_len (fmdrop k m) \<le> gm_len m"
  by (simp add: gm_len_card card_mono)

lemma gm_len_nonneg [simp]: "0 \<le> gm_len m"
  by (simp add: gm_len_card)

lemma gm_count_le_len: "gm_count P m \<le> gm_len m"
  by (simp add: gm_count_def gm_len_def gm_vals_def length_filter_le [THEN order_trans])

lemma fmdrop_upd_new: "fmlookup m k = None \<Longrightarrow> fmdrop k (fmupd k v m) = m"
  by (simp add: fmdrop_fmupd_same fmdrop_idle' fmlookup_dom'_iff)

lemma first_err_None [simp]: "first_err f xs = None \<longleftrightarrow> (\<forall>x \<in> set xs. f x = None)"
  by (induction xs) (auto split: option.splits)

lemma first_err_Some: "first_err f xs = Some e \<Longrightarrow> \<exists>x \<in> set xs. f x = Some e"
  by (induction xs) (auto split: option.splits)

lemma first_err_cong [fundef_cong]:
  "xs = ys \<Longrightarrow> (\<And>x. x \<in> set ys \<Longrightarrow> f x = g x) \<Longrightarrow> first_err f xs = first_err g ys"
  by (induction ys arbitrary: xs) (auto split: option.splits)

lemma or_err_None [simp]: "or_err a b = None \<longleftrightarrow> a = None \<and> b = None"
  by (simp add: or_err_def split: option.splits)

lemma err_if_None [simp]: "err_if b e = None \<longleftrightarrow> \<not> b"
  by (simp add: err_if_def)

lemma seen_twice_iff: "seen_twice seen xs \<longleftrightarrow> \<not> distinct xs \<or> set xs \<inter> set seen \<noteq> {}"
  by (induction seen xs rule: seen_twice.induct) auto

lemma seen_twice_Nil [simp]: "seen_twice [] xs \<longleftrightarrow> \<not> distinct xs"
  by (simp add: seen_twice_iff)

lemma fold_err_append:
  "fold_err f (xs @ ys) s = (case fold_err f xs s of Inl e \<Rightarrow> Inl e | Inr s' \<Rightarrow> fold_err f ys s')"
  by (induction xs arbitrary: s) (auto split: sum.split)

lemma fold_err_invariant:
  assumes step: "\<And>x s s'. f x s = Inr s' \<Longrightarrow> I s \<Longrightarrow> I s'"
  shows "fold_err f xs s = Inr s' \<Longrightarrow> I s \<Longrightarrow> I s'"
  by (induction xs arbitrary: s) (auto split: sum.splits dest: step)

end
