(* ===== verification/Go_Text.thy ===== *)
theory Go_Text
  imports Go_Prelude
begin

text \<open>
  The functions of Go's \<^verbatim>\<open>strings\<close>, \<^verbatim>\<open>strconv\<close> and
  \<^verbatim>\<open>encoding/hex\<close> that the components call, on byte strings.
\<close>

abbreviation byte_of :: "char \<Rightarrow> nat" where
  "byte_of c \<equiv> of_char c"

subsection \<open>strings.HasPrefix, TrimPrefix, TrimSpace, ToLower\<close>

definition HasPrefix :: "string \<Rightarrow> string \<Rightarrow> bool" where
  "HasPrefix s p \<longleftrightarrow> take (length p) s = p"

definition TrimPrefix :: "string \<Rightarrow> string \<Rightarrow> string" where
  "TrimPrefix s p = (if HasPrefix s p then drop (length p) s else s)"

text \<open>The UTF-8 encodings of the code points \<^verbatim>\<open>unicode.IsSpace\<close> accepts.\<close>

definition space_encodings :: "string list" where
  "space_encodings =
     [[CHR 0x09], [CHR 0x0A], [CHR 0x0B], [CHR 0x0C], [CHR 0x0D], [CHR 0x20],
      [CHR 0xC2, CHR 0x85], [CHR 0xC2, CHR 0xA0], [CHR 0xE1, CHR 0x9A, CHR 0x80],
      [CHR 0xE2, CHR 0x80, CHR 0x80], [CHR 0xE2, CHR 0x80, CHR 0x81],
      [CHR 0xE2, CHR 0x80, CHR 0x82], [CHR 0xE2, CHR 0x80, CHR 0x83],
      [CHR 0xE2, CHR 0x80, CHR 0x84], [CHR 0xE2, CHR 0x80, CHR 0x85],
      [CHR 0xE2, CHR 0x80, CHR 0x86], [CHR 0xE2, CHR 0x80, CHR 0x87],
      [CHR 0xE2, CHR 0x80, CHR 0x88], [CHR 0xE2, CHR 0x80, CHR 0x89],
      [CHR 0xE2, CHR 0x80, CHR 0x8A], [CHR 0xE2, CHR 0x80, CHR 0xA8],
      [CHR 0xE2, CHR 0x80, CHR 0xA9], [CHR 0xE2, CHR 0x80, CHR 0xAF],
      [CHR 0xE2, CHR 0x81, CHR 0x9F], [CHR 0xE3, CHR 0x80, CHR 0x80]]"

function trim_with :: "string list \<Rightarrow> string \<Rightarrow> string" where
  "trim_with ws s =
     (case find (\<lambda>w. w \<noteq> [] \<and> take (length w) s = w) ws of
        None \<Rightarrow> s
      | Some w \<Rightarrow> trim_with ws (drop (length w) s))"
  by pat_completeness auto
termination
proof (relation "measure (\<lambda>(ws, s). length s)", simp, clarsimp)
  fix ws :: "string list" and s w
  assume "find (\<lambda>w. w \<noteq> [] \<and> take (length w) s = w) ws = Some w"
  then have w: "w \<noteq> []" "take (length w) s = w"
    by (auto simp: find_Some_iff)
  then have "0 < length w" "length w \<le> length s"
    by (auto simp: min_def dest!: arg_cong [where f = length] split: if_splits)
  then show "length s - length w < length s" by (metis diff_less order_less_le_trans)
qed

declare trim_with.simps [simp del]

definition TrimSpace :: "string \<Rightarrow> string" where
  "TrimSpace s = rev (trim_with (map rev space_encodings) (rev (trim_with space_encodings s)))"

text \<open>
  Lower-casing of the ASCII letters. The callers compare a string with its lower-cased form
  and then require hexadecimal digits, so the mapping of other letters cannot be observed.
\<close>

definition lower_char :: "char \<Rightarrow> char" where
  "lower_char c = (if 0x41 \<le> byte_of c \<and> byte_of c \<le> 0x5A then char_of (byte_of c + 0x20) else c)"

definition ToLower :: "string \<Rightarrow> string" where
  "ToLower s = map lower_char s"

definition EqualFold :: "string \<Rightarrow> string \<Rightarrow> bool" where
  "EqualFold s t \<longleftrightarrow> ToLower s = ToLower t"

definition is_graphic :: "char \<Rightarrow> bool" where
  "is_graphic c \<longleftrightarrow> 0x21 \<le> byte_of c \<and> byte_of c \<le> 0x7E"

subsection \<open>encoding/hex\<close>

definition is_digit :: "char \<Rightarrow> bool" where
  "is_digit c \<longleftrightarrow> 0x30 \<le> byte_of c \<and> byte_of c \<le> 0x39"

definition is_lower_hex :: "char \<Rightarrow> bool" where
  "is_lower_hex c \<longleftrightarrow> is_digit c \<or> 0x61 \<le> byte_of c \<and> byte_of c \<le> 0x66"

definition is_hex :: "char \<Rightarrow> bool" where
  "is_hex c \<longleftrightarrow> is_lower_hex c \<or> 0x41 \<le> byte_of c \<and> byte_of c \<le> 0x46"

text \<open>\<^verbatim>\<open>hex.DecodeString\<close>, as the number of decoded bytes or an error.\<close>

definition hex_decoded_len :: "string \<Rightarrow> nat option" where
  "hex_decoded_len s =
     (if even (length s) \<and> list_all is_hex s then Some (length s div 2) else None)"

definition hex_digit :: "nat \<Rightarrow> char" where
  "hex_digit n = (if n < 10 then char_of (0x30 + n) else char_of (0x57 + n))"

definition hex_encode :: "8 word list \<Rightarrow> string" where
  "hex_encode bs =
     concat (map (\<lambda>b. [hex_digit (unat b div 16), hex_digit (unat b mod 16)]) bs)"

subsection \<open>Decimal numerals\<close>

definition digit_char :: "nat \<Rightarrow> char" where
  "digit_char n = char_of (0x30 + n)"

definition digit_val :: "char \<Rightarrow> nat" where
  "digit_val c = byte_of c - 0x30"

fun show_nat :: "nat \<Rightarrow> string" where
  "show_nat n = (if n < 10 then [digit_char n] else show_nat (n div 10) @ [digit_char (n mod 10)])"

declare show_nat.simps [simp del]

definition show_int :: "int \<Rightarrow> string" where
  "show_int i = (if i < 0 then CHR ''-'' # show_nat (nat (- i)) else show_nat (nat i))"

definition digits_val :: "string \<Rightarrow> nat" where
  "digits_val s = foldl (\<lambda>n c. 10 * n + digit_val c) 0 s"

definition read_nat :: "string \<Rightarrow> nat option" where
  "read_nat s = (if s \<noteq> [] \<and> list_all is_digit s then Some (digits_val s) else None)"

text \<open>Zero padding to a minimum width, as the verb \<^verbatim>\<open>%04d\<close> asks for it.\<close>

definition pad_left :: "nat \<Rightarrow> string \<Rightarrow> string" where
  "pad_left w s = replicate (w - length s) CHR ''0'' @ s"

section \<open>Lemmas\<close>

lemma byte_of_char_of [simp]: "n < 256 \<Longrightarrow> byte_of (char_of n) = n"
  by (simp add: of_char_of)

lemma trim_with_id:
  assumes "\<And>w. w \<in> set ws \<Longrightarrow> w = [] \<or> take (length w) s \<noteq> w"
  shows "trim_with ws s = s"
proof -
  have "find (\<lambda>w. w \<noteq> [] \<and> take (length w) s = w) ws = None"
    using assms by (auto simp: find_None_iff)
  then show ?thesis by (simp add: trim_with.simps [of ws s])
qed

lemma space_encodings_not_graphic:
  "w \<in> set space_encodings \<Longrightarrow> w \<noteq> [] \<and> \<not> is_graphic (hd w) \<and> \<not> is_graphic (last w)"
  by (auto simp: space_encodings_def is_graphic_def)

lemma TrimSpace_ends:
  assumes "s \<noteq> [] \<Longrightarrow> is_graphic (hd s) \<and> is_graphic (last s)"
  shows "TrimSpace s = s"
proof -
  have left: "trim_with space_encodings s = s"
  proof (rule trim_with_id)
    fix w assume "w \<in> set space_encodings"
    then have "w \<noteq> []" "\<not> is_graphic (hd w)" by (auto dest: space_encodings_not_graphic)
    with assms show "w = [] \<or> take (length w) s \<noteq> w"
      by (cases s; cases w) auto
  qed
  have "trim_with (map rev space_encodings) (rev s) = rev s"
  proof (rule trim_with_id)
    fix w assume "w \<in> set (map rev space_encodings)"
    then obtain v where v: "w = rev v" "v \<in> set space_encodings" by auto
    then have "w \<noteq> []" "\<not> is_graphic (hd w)"
      by (auto dest: space_encodings_not_graphic simp: hd_rev)
    moreover have "rev s \<noteq> [] \<Longrightarrow> is_graphic (hd (rev s))" using assms by (simp add: hd_rev)
    ultimately show "w = [] \<or> take (length w) (rev s) \<noteq> w"
      by (cases "rev s"; cases w) auto
  qed
  then show ?thesis by (simp add: TrimSpace_def left)
qed

lemma TrimSpace_graphic: "list_all is_graphic s \<Longrightarrow> TrimSpace s = s"
  by (rule TrimSpace_ends) (simp add: list_all_iff)

lemma length_trim_with: "length (trim_with ws s) \<le> length s"
proof (induction ws s rule: trim_with.induct)
  case (1 ws s)
  then show ?case by (subst trim_with.simps) (fastforce split: option.split dest: order_trans)
qed

lemma length_TrimSpace: "length (TrimSpace s) \<le> length s"
  using length_trim_with [of space_encodings s] length_trim_with [of "map rev space_encodings" "rev (trim_with space_encodings s)"]
  by (simp add: TrimSpace_def)

lemma trim_with_suffix: "\<exists>u. s = u @ trim_with ws s"
proof (induction ws s rule: trim_with.induct)
  case (1 ws s)
  show ?case
  proof (cases "find (\<lambda>w. w \<noteq> [] \<and> take (length w) s = w) ws")
    case None
    then show ?thesis by (simp add: trim_with.simps [of ws s])
  next
    case (Some w)
    from 1 [OF this] obtain u where "drop (length w) s = u @ trim_with ws (drop (length w) s)" by blast
    then have "s = take (length w) s @ u @ trim_with ws s"
      using Some append_take_drop_id [of "length w" s] by (simp add: trim_with.simps [of ws s])
    then show ?thesis by (metis append.assoc)
  qed
qed

lemma trim_with_done: "w \<in> set ws \<Longrightarrow> w \<noteq> [] \<Longrightarrow> take (length w) (trim_with ws s) \<noteq> w"
proof (induction ws s rule: trim_with.induct)
  case (1 ws s)
  then show ?case
    by (subst trim_with.simps) (auto split: option.split simp: find_None_iff)
qed

lemma set_TrimSpace: "set (TrimSpace s) \<subseteq> set s"
proof -
  have "set (trim_with ws t) \<subseteq> set t" for ws t
    using trim_with_suffix [of t ws] by (metis set_append sup_ge2)
  from this [of "map rev space_encodings" "rev (trim_with space_encodings s)"] this [of space_encodings s]
  show ?thesis by (auto simp: TrimSpace_def)
qed

lemma TrimSpace_idem [simp]: "TrimSpace (TrimSpace s) = TrimSpace s"
proof -
  define t where "t = trim_with space_encodings s"
  define r where "r = trim_with (map rev space_encodings) (rev t)"
  have s: "TrimSpace s = rev r" by (simp add: TrimSpace_def r_def t_def)
  obtain u where u: "rev t = u @ r" using trim_with_suffix r_def by blast
  then have t: "t = rev r @ rev u" by (metis rev_append rev_rev_ident)
  have left: "trim_with space_encodings (rev r) = rev r"
  proof (rule trim_with_id)
    fix w assume w: "w \<in> set space_encodings"
    show "w = [] \<or> take (length w) (rev r) \<noteq> w"
    proof (rule disjCI)
      assume "\<not> take (length w) (rev r) \<noteq> w"
      then have "take (length w) (rev r) = w" by simp
      moreover from this have "length w \<le> length (rev r)" by (metis length_take min_def nat_le_linear)
      ultimately have "take (length w) t = w" by (simp add: t)
      with trim_with_done [OF w, of s] show "w = []" by (auto simp: t_def)
    qed
  qed
  have "trim_with (map rev space_encodings) r = r"
    by (rule trim_with_id) (use trim_with_done [of _ "map rev space_encodings" "rev t"] r_def in blast)
  then show ?thesis by (simp add: s) (simp add: TrimSpace_def left)
qed

lemma TrimSpace_middle: "\<exists>u v. s = u @ TrimSpace s @ v"
proof -
  obtain u where u: "s = u @ trim_with space_encodings s" using trim_with_suffix by blast
  obtain v where v: "rev (trim_with space_encodings s) = v @ trim_with (map rev space_encodings) (rev (trim_with space_encodings s))"
    using trim_with_suffix by blast
  then have "trim_with space_encodings s = TrimSpace s @ rev v"
    by (metis TrimSpace_def rev_append rev_rev_ident)
  with u show ?thesis by metis
qed

lemma TrimSpace_Nil [simp]: "TrimSpace [] = []"
  by (simp add: TrimSpace_graphic)

lemma lower_char_lower_hex: "is_lower_hex c \<Longrightarrow> lower_char c = c"
  by (auto simp: is_lower_hex_def is_digit_def lower_char_def)

lemma lower_char_upper: "is_hex c \<Longrightarrow> lower_char c = c \<Longrightarrow> is_lower_hex c"
proof (rule ccontr)
  assume *: "is_hex c" "lower_char c = c" "\<not> is_lower_hex c"
  then have "0x41 \<le> byte_of c" "byte_of c \<le> 0x46" by (auto simp: is_hex_def)
  then have "byte_of (lower_char c) = byte_of c + 0x20" by (simp add: lower_char_def)
  with * show False by simp
qed

lemma ToLower_id_hex: "list_all is_hex s \<Longrightarrow> s = ToLower s \<longleftrightarrow> list_all is_lower_hex s"
proof (induction s)
  case (Cons c s)
  then have "c = lower_char c \<longleftrightarrow> is_lower_hex c"
    using lower_char_lower_hex [of c] lower_char_upper [of c] by auto
  with Cons show ?case by (simp add: ToLower_def)
qed (simp add: ToLower_def)

lemma list_all_lower_hex_hex: "list_all is_lower_hex s \<Longrightarrow> list_all is_hex s"
  by (auto simp: list_all_iff is_hex_def)

lemma lower_hex_graphic: "is_lower_hex c \<Longrightarrow> is_graphic c"
  by (auto simp: is_lower_hex_def is_digit_def is_graphic_def)

lemma digit_char_props [simp]:
  "n < 10 \<Longrightarrow> is_digit (digit_char n)"
  "n < 10 \<Longrightarrow> digit_val (digit_char n) = n"
  by (simp_all add: is_digit_def digit_char_def digit_val_def)

lemma digits_val_append1: "digits_val (s @ [c]) = 10 * digits_val s + digit_val c"
  by (simp add: digits_val_def)

lemma show_nat_digits: "list_all is_digit (show_nat n) \<and> show_nat n \<noteq> []"
proof (induction n rule: show_nat.induct)
  case (1 n)
  then show ?case by (subst (1 2) show_nat.simps) auto
qed

lemma digits_val_show_nat: "digits_val (show_nat n) = n"
proof (induction n rule: show_nat.induct)
  case (1 n)
  show ?case
  proof (cases "n < 10")
    case True
    then show ?thesis by (subst show_nat.simps) (simp add: digits_val_def)
  next
    case False
    with 1 have "digits_val (show_nat (n div 10)) = n div 10" by simp
    with False show ?thesis
      by (subst show_nat.simps) (simp add: digits_val_append1)
  qed
qed

lemma read_show_nat [simp]: "read_nat (show_nat n) = Some n"
  using show_nat_digits [of n] by (simp add: read_nat_def digits_val_show_nat)

lemma length_show_nat_le: "n < 10 ^ k \<Longrightarrow> 0 < k \<Longrightarrow> length (show_nat n) \<le> k"
proof (induction n arbitrary: k rule: show_nat.induct)
  case (1 n k)
  show ?case
  proof (cases "n < 10")
    case True
    with 1 show ?thesis by (subst show_nat.simps) simp
  next
    case False
    with 1 obtain j where k: "k = Suc j" and j: "0 < j" by (cases k; cases "k - 1") auto
    have "n div 10 < 10 ^ j" using "1.prems" k by (simp add: div_less_iff_less_mult mult.commute)
    with 1(1) False j have "length (show_nat (n div 10)) \<le> j" by simp
    with False k show ?thesis by (subst show_nat.simps) simp
  qed
qed

lemma digits_val_zeros: "digits_val (replicate n CHR ''0'' @ s) = digits_val s"
proof (induction n)
  case (Suc n)
  have "digits_val (CHR ''0'' # t) = digits_val t" for t
    by (simp add: digits_val_def digit_val_def)
  with Suc show ?case by simp
qed simp

lemma is_digit_zero [simp]: "is_digit CHR ''0''"
  by (simp add: is_digit_def)

lemma read_pad_left [simp]: "read_nat (pad_left w (show_nat n)) = Some n"
  using show_nat_digits [of n]
  by (auto simp: read_nat_def pad_left_def digits_val_zeros digits_val_show_nat list_all_iff)

lemma length_pad_left:
  "n < 10 ^ w \<Longrightarrow> 0 < w \<Longrightarrow> length (pad_left w (show_nat n)) = w"
  using length_show_nat_le [of n w] by (simp add: pad_left_def)

end
