(* ===== verification/Go_Time.thy ===== *)
theory Go_Time
  imports Go_Text "HOL-Library.Monad_Syntax"
begin

text \<open>
  Go's \<^verbatim>\<open>time.Time\<close> and \<^verbatim>\<open>time.Duration\<close>. An instant is the
  number of nanoseconds since \<^verbatim>\<open>0001-01-01T00:00:00Z\<close>, which is Go's zero
  time; a duration is a number of nanoseconds. Locations and the monotonic clock reading do not
  matter to any modelled caller, which compares instants or formats them in UTC.
\<close>

type_synonym time = int
type_synonym duration = int

definition IsZero :: "time \<Rightarrow> bool" where
  "IsZero t \<longleftrightarrow> t = 0"

abbreviation second :: duration where "second \<equiv> 1000000000"
abbreviation minute :: duration where "minute \<equiv> 60 * second"
abbreviation hour :: duration where "hour \<equiv> 60 * minute"

text \<open>\<^verbatim>\<open>t.Sub(u)\<close> saturates at the bounds of a 64-bit duration.\<close>

definition max_duration :: duration where "max_duration = 2 ^ 63 - 1"
definition min_duration :: duration where "min_duration = - (2 ^ 63)"

definition time_sub :: "time \<Rightarrow> time \<Rightarrow> duration" where
  "time_sub t u = max min_duration (min max_duration (t - u))"

text \<open>Integer division of Go truncates towards zero.\<close>

definition go_div :: "int \<Rightarrow> int \<Rightarrow> int" where
  "go_div a b = sgn a * sgn b * (\<bar>a\<bar> div \<bar>b\<bar>)"

subsection \<open>The civil calendar\<close>

definition is_leap :: "int \<Rightarrow> bool" where
  "is_leap y \<longleftrightarrow> y mod 4 = 0 \<and> (y mod 100 \<noteq> 0 \<or> y mod 400 = 0)"

definition days_before_year :: "int \<Rightarrow> int" where
  "days_before_year y = 365 * (y - 1) + (y - 1) div 4 - (y - 1) div 100 + (y - 1) div 400"

definition month_lengths :: "int \<Rightarrow> int list" where
  "month_lengths y = [31, if is_leap y then 29 else 28, 31, 30, 31, 30, 31, 31, 30, 31, 30, 31]"

lemma int_div_pred:
  fixes y c :: int
  assumes "1 < c"
  shows "y div c = (y - 1) div c + (if y mod c = 0 then 1 else 0)"
proof -
  have y: "y = c * (y div c) + y mod c" by simp
  have r: "0 \<le> y mod c" "y mod c < c" using assms by simp_all
  show ?thesis
  proof (cases "y mod c = 0")
    case True
    then have "y - 1 = c * (y div c - 1) + (c - 1)" using y by (simp add: right_diff_distrib)
    then have "(y - 1) div c = y div c - 1"
      by (rule int_div_pos_eq) (use assms in simp_all)
    with True show ?thesis by simp
  next
    case False
    have "y - 1 = c * (y div c) + (y mod c - 1)" using y by linarith
    then have "(y - 1) div c = y div c"
      by (rule int_div_pos_eq) (use r False in simp_all)
    with False show ?thesis by simp
  qed
qed

lemma days_before_year_Suc:
  "days_before_year (y + 1) = days_before_year y + (if is_leap y then 366 else 365)"
proof -
  have "y mod 400 mod 100 = y mod 100" "y mod 100 mod 4 = y mod 4"
    by (rule mod_mod_cancel, simp)+
  then have imp: "y mod 100 = 0 \<Longrightarrow> y mod 4 = 0" "y mod 400 = 0 \<Longrightarrow> y mod 100 = 0" by auto
  have "365 * y + a - b + c
      = 365 * (y - 1) + a' - b' + c' + (if p \<and> (\<not> q \<or> r) then 366 else 365)"
    if "a = a' + (if p then 1 else 0)" "b = b' + (if q then 1 else 0)" "c = c' + (if r then 1 else 0)"
      "q \<Longrightarrow> p" "r \<Longrightarrow> q" for a a' b b' c c' :: int and p q r
    using that by (cases p; cases q; cases r) simp_all
  from this [OF int_div_pred int_div_pred int_div_pred imp] show ?thesis
    unfolding days_before_year_def is_leap_def add_diff_cancel_right' by simp
qed

function year_from :: "int \<Rightarrow> int \<Rightarrow> int" where
  "year_from y n = (if days_before_year (y + 1) \<le> n then year_from (y + 1) n else y)"
  by pat_completeness auto
termination
  by (relation "measure (\<lambda>(y, n). nat (n - days_before_year y))")
     (auto simp: days_before_year_Suc split: if_splits)

declare year_from.simps [simp del]

definition year_of_day :: "int \<Rightarrow> int" where
  "year_of_day n = year_from ((if 0 \<le> n then n div 366 else n div 365) + 1) n"

fun split_month :: "int \<Rightarrow> int list \<Rightarrow> int \<Rightarrow> int \<times> int" where
  "split_month m [] d = (m, d)"
| "split_month m (l # ls) d = (if d < l then (m, d) else split_month (m + 1) ls (d - l))"

definition days_before_month :: "int \<Rightarrow> int \<Rightarrow> int" where
  "days_before_month y m = sum_list (take (nat (m - 1)) (month_lengths y))"

subsection \<open>time.RFC3339Nano in UTC\<close>

definition show_width :: "nat \<Rightarrow> int \<Rightarrow> string" where
  "show_width w i = (if i < 0 then CHR ''-'' # pad_left w (show_nat (nat (- i)))
                     else pad_left w (show_nat (nat i)))"

definition strip_zeros :: "string \<Rightarrow> string" where
  "strip_zeros s = rev (dropWhile (\<lambda>c. c = CHR ''0'') (rev s))"

definition format_fraction :: "int \<Rightarrow> string" where
  "format_fraction ns = (if ns = 0 then [] else CHR ''.'' # strip_zeros (show_width 9 ns))"

definition format_rfc3339nano :: "time \<Rightarrow> string" where
  "format_rfc3339nano t =
     (let day = t div (24 * hour); rest = t mod (24 * hour);
          y = year_of_day day; (m, d) = split_month 1 (month_lengths y) (day - days_before_year y)
      in show_width 4 y @ ''-'' @ show_width 2 m @ ''-'' @ show_width 2 (d + 1) @ ''T'' @
         show_width 2 (rest div hour) @ '':'' @ show_width 2 (rest mod hour div minute) @ '':'' @
         show_width 2 (rest mod minute div second) @ format_fraction (rest mod second) @ ''Z'')"

definition take_digits :: "nat \<Rightarrow> string \<Rightarrow> (int \<times> string) option" where
  "take_digits n s =
     (if n \<le> length s \<and> list_all is_digit (take n s)
      then Some (int (digits_val (take n s)), drop n s) else None)"

fun expect_char :: "char \<Rightarrow> string \<Rightarrow> string option" where
  "expect_char c [] = None"
| "expect_char c (x # xs) = (if x = c then Some xs else None)"

definition parse_fraction :: "string \<Rightarrow> (int \<times> string) option" where
  "parse_fraction s =
     (case s of
        CHR ''.'' # r \<Rightarrow>
          (let ds = takeWhile is_digit r
           in if ds = [] \<or> 9 < length ds then None
              else Some (int (digits_val ds * 10 ^ (9 - length ds)), drop (length ds) r))
      | _ \<Rightarrow> Some (0, s))"

text \<open>
  The part of \<^verbatim>\<open>time.Parse(time.RFC3339Nano, s)\<close> that can return a canonical UTC
  text. Go also accepts numeric offsets, more than nine fraction digits and a few lenient
  spellings; none of these texts is the RFC3339Nano form of the parsed instant in UTC, so the
  only caller, which compares the text with that form, rejects all of them.
\<close>

definition parse_rfc3339nano :: "string \<Rightarrow> time option" where
  "parse_rfc3339nano s0 = do {
     (y, s1) \<leftarrow> take_digits 4 s0;
     s2 \<leftarrow> expect_char CHR ''-'' s1;
     (m, s3) \<leftarrow> take_digits 2 s2;
     s4 \<leftarrow> expect_char CHR ''-'' s3;
     (d, s5) \<leftarrow> take_digits 2 s4;
     s6 \<leftarrow> expect_char CHR ''T'' s5;
     (hh, s7) \<leftarrow> take_digits 2 s6;
     s8 \<leftarrow> expect_char CHR '':'' s7;
     (mm, s9) \<leftarrow> take_digits 2 s8;
     s10 \<leftarrow> expect_char CHR '':'' s9;
     (ss, s11) \<leftarrow> take_digits 2 s10;
     (ns, s12) \<leftarrow> parse_fraction s11;
     s13 \<leftarrow> expect_char CHR ''Z'' s12;
     if s13 = [] \<and> 1 \<le> m \<and> m \<le> 12 \<and> 1 \<le> d \<and> d \<le> month_lengths y ! nat (m - 1) \<and>
        hh < 24 \<and> mm < 60 \<and> ss < 60
     then Some ((days_before_year y + days_before_month y m + (d - 1)) * (24 * hour)
                + hh * hour + mm * minute + ss * second + ns)
     else None }"

section \<open>Formatting and parsing are inverse\<close>

lemma year_from_bounds:
  "days_before_year y \<le> n \<Longrightarrow>
   days_before_year (year_from y n) \<le> n \<and> n < days_before_year (year_from y n + 1) \<and>
   y \<le> year_from y n"
proof (induction y n rule: year_from.induct)
  case (1 y n)
  then show ?case
    by (cases "days_before_year (y + 1) \<le> n") (auto simp: year_from.simps [of y n])
qed

lemma days_before_year_low:
  "0 \<le> k \<Longrightarrow> days_before_year (k + 1) \<le> 366 * k"
  "k \<le> 0 \<Longrightarrow> days_before_year (k + 1) \<le> 365 * k"
proof -
  have eq: "days_before_year (k + 1) = 365 * k + k div 4 - k div 100 + k div 400"
    by (simp add: days_before_year_def)
  show "0 \<le> k \<Longrightarrow> days_before_year (k + 1) \<le> 366 * k"
    unfolding eq using zdiv_mono2 [of k 100 400] zdiv_mono2 [of k 1 4] by linarith
  show "k \<le> 0 \<Longrightarrow> days_before_year (k + 1) \<le> 365 * k"
    unfolding eq using zdiv_mono2_neg [of k 4 100] div_nonpos_pos_le0 [of k 400]
    by (cases "k = 0") (simp, linarith)
qed

lemma year_of_day_bounds:
  "days_before_year (year_of_day n) \<le> n \<and> n < days_before_year (year_of_day n + 1)"
proof -
  let ?k = "if 0 \<le> n then n div 366 else n div 365"
  have "days_before_year (?k + 1) \<le> n"
  proof (cases "0 \<le> n")
    case True
    then have "days_before_year (n div 366 + 1) \<le> 366 * (n div 366)"
      by (intro days_before_year_low) simp
    with True show ?thesis by simp
  next
    case False
    then have "days_before_year (n div 365 + 1) \<le> 365 * (n div 365)"
      by (intro days_before_year_low) presburger
    with False show ?thesis by simp
  qed
  from year_from_bounds [OF this] show ?thesis by (simp add: year_of_day_def)
qed

lemma days_before_year_mono: "a \<le> b \<Longrightarrow> days_before_year a \<le> days_before_year b"
proof (induction "nat (b - a)" arbitrary: b)
  case (Suc k)
  then have "days_before_year a \<le> days_before_year (b - 1)" by simp
  also have "\<dots> \<le> days_before_year b"
    using days_before_year_Suc [of "b - 1"] by (simp split: if_splits)
  finally show ?case .
qed simp

lemma split_month_props:
  assumes "split_month m ls d = (m', d')" and "0 \<le> d" and "d < sum_list ls"
    and "list_all (\<lambda>l. 0 < l) ls"
  shows "m \<le> m' \<and> m' < m + int (length ls) \<and> 0 \<le> d' \<and> d' < ls ! nat (m' - m) \<and>
    sum_list (take (nat (m' - m)) ls) + d' = d"
  using assms
proof (induction m ls d rule: split_month.induct)
  case (2 m l ls d)
  show ?case
  proof (cases "d < l")
    case True
    with 2 show ?thesis by simp
  next
    case False
    with 2 have IH: "m + 1 \<le> m' \<and> m' < m + 1 + int (length ls) \<and> 0 \<le> d' \<and>
        d' < ls ! nat (m' - (m + 1)) \<and> sum_list (take (nat (m' - (m + 1))) ls) + d' = d - l"
      by simp
    then have "nat (m' - m) = Suc (nat (m' - (m + 1)))" by arith
    with IH show ?thesis by simp
  qed
qed simp

lemma sum_month_lengths: "sum_list (month_lengths y) = (if is_leap y then 366 else 365)"
  by (simp add: month_lengths_def)

lemma length_month_lengths [simp]: "length (month_lengths y) = 12"
  by (simp add: month_lengths_def)

lemma month_lengths_bounds: "i < 12 \<Longrightarrow> 28 \<le> month_lengths y ! i \<and> month_lengths y ! i \<le> 31"
  by (auto simp: month_lengths_def nth_Cons' less_Suc_eq numeral_eq_Suc)

lemma take_digits_width:
  assumes "0 \<le> i" and "nat i < 10 ^ n" and "0 < n"
  shows "take_digits n (show_width n i @ s) = Some (i, s)"
proof -
  have len: "length (show_width n i) = n"
    using assms by (simp add: show_width_def length_pad_left)
  have "read_nat (show_width n i) = Some (nat i)"
    using assms by (simp add: show_width_def)
  then have "list_all is_digit (show_width n i)" "digits_val (show_width n i) = nat i"
    by (auto simp: read_nat_def split: if_splits)
  with len assms show ?thesis by (simp add: take_digits_def)
qed

lemma digits_val_append_zeros: "digits_val (s @ replicate k CHR ''0'') = digits_val s * 10 ^ k"
proof (induction k)
  case (Suc k)
  have "digits_val (s @ replicate (Suc k) CHR ''0'')
      = digits_val ((s @ replicate k CHR ''0'') @ [CHR ''0''])"
    by (metis append.assoc replicate_append_same replicate_Suc)
  also have "\<dots> = 10 * digits_val (s @ replicate k CHR ''0'')"
    by (simp only: digits_val_append1) (simp add: digit_val_def)
  finally show ?case by (simp add: Suc)
qed simp

lemma takeWhile_eq_replicate:
  "takeWhile (\<lambda>c. c = x) s = replicate (length (takeWhile (\<lambda>c. c = x) s)) x"
  by (induction s) auto

lemma strip_zeros_split: "\<exists>k. s = strip_zeros s @ replicate k CHR ''0''"
proof -
  let ?P = "\<lambda>c. c = CHR ''0''"
  have "rev s = takeWhile ?P (rev s) @ dropWhile ?P (rev s)" by simp
  then have "s = rev (dropWhile ?P (rev s)) @ rev (takeWhile ?P (rev s))"
    by (metis rev_append rev_rev_ident)
  also have "rev (takeWhile ?P (rev s)) = replicate (length (takeWhile ?P (rev s))) CHR ''0''"
    by (metis rev_replicate takeWhile_eq_replicate)
  finally show ?thesis unfolding strip_zeros_def by blast
qed

lemma parse_format_fraction:
  assumes "0 \<le> ns" and "ns < second"
  shows "parse_fraction (format_fraction ns @ ''Z'') = Some (ns, ''Z'')"
proof (cases "ns = 0")
  case True
  then show ?thesis by (simp add: format_fraction_def parse_fraction_def)
next
  case False
  let ?w = "show_width 9 ns"
  let ?z = "strip_zeros ?w"
  have rd: "read_nat ?w = Some (nat ns)" and len: "length ?w = 9"
    using assms by (simp_all add: show_width_def length_pad_left)
  then have dig: "list_all is_digit ?w" and val: "digits_val ?w = nat ns"
    by (auto simp: read_nat_def split: if_splits)
  obtain k where k: "?w = ?z @ replicate k CHR ''0''"
    using strip_zeros_split by blast
  then have zd: "list_all is_digit ?z" and kl: "k = 9 - length ?z" and zl: "length ?z \<le> 9"
    using dig len by (metis list_all_append, metis length_append length_replicate add_diff_cancel_left',
      metis length_append le_add1)
  have v: "digits_val ?z * 10 ^ (9 - length ?z) = nat ns"
    using val k kl by (metis digits_val_append_zeros)
  have "?z \<noteq> []"
  proof
    assume "?z = []"
    with v False assms show False by (simp add: digits_val_def)
  qed
  moreover have "takeWhile is_digit (?z @ ''Z'') = ?z"
    using zd by (subst takeWhile_append2) (auto simp: list_all_iff is_digit_def)
  moreover have "int (digits_val ?z * 10 ^ (9 - length ?z)) = ns"
    using v assms by simp
  ultimately show ?thesis
    using False zl by (simp add: format_fraction_def parse_fraction_def Let_def)
qed

lemma time_fields_sum:
  fixes r :: int
  shows "r div hour * hour + r mod hour div minute * minute + r mod minute div second * second
    + r mod second = r"
proof -
  have "r mod hour mod minute = r mod minute" "r mod minute mod second = r mod second"
    by (rule mod_mod_cancel, simp)+
  then have "r mod hour = r mod hour div minute * minute + r mod minute"
    and "r mod minute = r mod minute div second * second + r mod second"
    by (metis div_mult_mod_eq)+
  moreover have "r div hour * hour + r mod hour = r" by (rule div_mult_mod_eq)
  ultimately show ?thesis by linarith
qed

lemma int_div_bounds:
  fixes a c n :: int
  assumes "0 \<le> a" and "a < n * c" and "0 < c"
  shows "0 \<le> a div c \<and> a div c < n"
proof -
  have "a div c * c \<le> a" 
    using div_mult_mod_eq [of a c] pos_mod_sign [OF assms(3), of a] by linarith
  then have "a div c * c < n * c" using assms(2) by linarith
  then have "a div c < n" using assms(3) by simp
  then show ?thesis using assms by (simp add: pos_imp_zdiv_nonneg_iff)
qed

lemma time_fields_bounds:
  fixes r :: int
  assumes "0 \<le> r" and "r < 24 * hour"
  shows "0 \<le> r div hour" "r div hour < 24" "0 \<le> r mod hour div minute" "r mod hour div minute < 60"
    "0 \<le> r mod minute div second" "r mod minute div second < 60" "0 \<le> r mod second" "r mod second < second"
proof -
  show "0 \<le> r div hour" "r div hour < 24"
    using int_div_bounds [of r 24 hour] assms by simp_all
  have "0 \<le> r mod hour" "r mod hour < 60 * minute" by simp_all
  from int_div_bounds [OF this]
  show "0 \<le> r mod hour div minute" "r mod hour div minute < 60" by simp_all
  have "0 \<le> r mod minute" "r mod minute < 60 * second" by simp_all
  from int_div_bounds [OF this]
  show "0 \<le> r mod minute div second" "r mod minute div second < 60" by simp_all
  show "0 \<le> r mod second" "r mod second < second" by simp_all
qed

definition in_format_range :: "time \<Rightarrow> bool" where
  "in_format_range t \<longleftrightarrow> 0 \<le> t \<and> t < days_before_year 10000 * (24 * hour)"

lemma parse_format_rfc3339nano:
  assumes "in_format_range t"
  shows "parse_rfc3339nano (format_rfc3339nano t) = Some t"
proof -
  define day where "day = t div (24 * hour)"
  define rest where "rest = t mod (24 * hour)"
  define y where "y = year_of_day day"
  obtain m d where md: "split_month 1 (month_lengths y) (day - days_before_year y) = (m, d)"
    by fastforce
  have t: "t = day * (24 * hour) + rest" and rest: "0 \<le> rest" "rest < 24 * hour"
    by (simp_all add: day_def rest_def)
  have yb: "days_before_year y \<le> day" "day < days_before_year (y + 1)"
    using year_of_day_bounds by (simp_all add: y_def)
  have "0 \<le> day" "day < days_before_year 10000"
    using assms t rest unfolding in_format_range_def by linarith+
  have y: "0 \<le> y" "y < 10000"
  proof -
    show "0 \<le> y"
    proof (rule ccontr)
      assume "\<not> 0 \<le> y"
      then have "days_before_year (y + 1) \<le> days_before_year 0" by (intro days_before_year_mono) simp
      moreover have "days_before_year 0 = -366" by (simp add: days_before_year_def)
      ultimately show False using yb \<open>0 \<le> day\<close> by linarith
    qed
    show "y < 10000"
    proof (rule ccontr)
      assume "\<not> y < 10000"
      then have "days_before_year 10000 \<le> days_before_year y" by (intro days_before_year_mono) simp
      with yb \<open>day < days_before_year 10000\<close> show False by linarith
    qed
  qed
  have "m \<ge> 1 \<and> m < 1 + int 12 \<and> 0 \<le> d \<and> d < month_lengths y ! nat (m - 1) \<and>
      sum_list (take (nat (m - 1)) (month_lengths y)) + d = day - days_before_year y"
    using split_month_props [OF md] yb
    by (simp add: sum_month_lengths days_before_year_Suc month_lengths_def split: if_splits)
  then have m: "1 \<le> m" "m \<le> 12" and d: "0 \<le> d" "d + 1 \<le> month_lengths y ! nat (m - 1)"
    and days: "days_before_year y + days_before_month y m + d = day"
    by (auto simp: days_before_month_def)
  have "nat (m - 1) < 12" using m by simp
  then have d31: "d + 1 \<le> 31" using d(2) month_lengths_bounds [of "nat (m - 1)" y] by simp
  define hh where "hh = rest div hour"
  define mm where "mm = rest mod hour div minute"
  define ss where "ss = rest mod minute div second"
  define ns where "ns = rest mod second"
  note b = time_fields_bounds [OF rest, folded hh_def mm_def ss_def ns_def]
  have sum: "hh * hour + mm * minute + ss * second + ns = rest"
    unfolding hh_def mm_def ss_def ns_def by (rule time_fields_sum)
  have fmt: "format_rfc3339nano t = show_width 4 y @ ''-'' @ show_width 2 m @ ''-'' @ show_width 2 (d + 1) @
      ''T'' @ show_width 2 hh @ '':'' @ show_width 2 mm @ '':'' @ show_width 2 ss @ format_fraction ns @ ''Z''"
    unfolding format_rfc3339nano_def Let_def
    by (fold day_def rest_def y_def hh_def mm_def ss_def ns_def) (simp only: md prod.case mm_def)
  have two: "take_digits 2 (show_width 2 i @ r) = Some (i, r)" if "0 \<le> i" "i < 100" for i r
    using that by (intro take_digits_width) simp_all
  have four: "take_digits 4 (show_width 4 y @ r) = Some (y, r)" for r
    using y by (intro take_digits_width) simp_all
  have steps: "take_digits 2 (show_width 2 m @ r) = Some (m, r)"
      "take_digits 2 (show_width 2 (d + 1) @ r) = Some (d + 1, r)"
      "take_digits 2 (show_width 2 hh @ r) = Some (hh, r)"
      "take_digits 2 (show_width 2 mm @ r) = Some (mm, r)"
      "take_digits 2 (show_width 2 ss @ r) = Some (ss, r)" for r
    using m d d31 b by (intro two; linarith)+
  have val: "(days_before_year y + days_before_month y m + (d + 1 - 1)) * (24 * hour)
      + hh * hour + mm * minute + ss * second + ns = t"
    by (simp only: add_diff_cancel_right' days) (simp only: add.assoc t flip: sum)
  have ok: "1 \<le> d + 1" using d by simp
  show ?thesis
    unfolding parse_rfc3339nano_def fmt
    by (simp only: four steps parse_format_fraction [OF b(7,8)] append_Cons append_Nil
        expect_char.simps bind.bind_lunit prod.case val m d ok b simp_thms if_True)
qed

end
