(* ===== verification/Go_External.thy ===== *)
theory Go_External
  imports Go_Time
begin

text \<open>
  Code the repository calls but does not contain: the UUID parser of
  \<^verbatim>\<open>github.com/google/uuid\<close> and the name validators and label selectors of
  \<^verbatim>\<open>k8s.io/apimachinery\<close>. They are the fields of one record that every
  definition using them takes as an argument, so each theorem holds for every implementation,
  and what a theorem relies on is a named hypothesis on this record.
\<close>

text \<open>\<^verbatim>\<open>metav1.LabelSelectorRequirement\<close> and \<^verbatim>\<open>metav1.LabelSelector\<close>.\<close>

record requirement =
  req_Key :: string
  req_Operator :: string
  req_Values :: "string list"

record label_selector =
  MatchLabels :: "string gomap"
  MatchExpressions :: "requirement list"

text \<open>
  \<^item> \<open>uuid_parse s\<close>: \<^verbatim>\<open>uuid.Parse\<close>, the version number and the canonical text of
    the parsed value.
  \<^item> \<open>IsDNS1123Label s\<close> and the three other validators: no problem is reported for \<open>s\<close>.
  \<^item> \<open>LabelSelectorAsSelector s\<close>: the predicate on label sets the selector denotes, or nothing
    when the selector is malformed.
\<close>

record ext =
  uuid_parse :: "string \<Rightarrow> (nat \<times> string) option"
  IsDNS1123Label :: "string \<Rightarrow> bool"
  IsDNS1123Subdomain :: "string \<Rightarrow> bool"
  IsQualifiedName :: "string \<Rightarrow> bool"
  IsValidLabelValue :: "string \<Rightarrow> bool"
  LabelSelectorAsSelector :: "label_selector \<Rightarrow> (string gomap \<Rightarrow> bool) option"

text \<open>Documented behaviour: the empty text is not a UUID.\<close>

definition uuid_rejects_empty :: "ext \<Rightarrow> bool" where
  "uuid_rejects_empty E \<longleftrightarrow> uuid_parse E [] = None"

text \<open>
  A concrete instance for evaluating examples: UUIDs are recognised in the canonical
  8-4-4-4-12 layout, names are non-empty words of the lower-case alphabet with dots, slashes
  and dashes, and a selector is the conjunction of its labels.
\<close>

definition canonical_uuid :: "string \<Rightarrow> bool" where
  "canonical_uuid s \<longleftrightarrow> length s = 36 \<and>
     (\<forall>i \<in> set [0..<36]. if i \<in> {8, 13, 18, 23} then s ! i = CHR ''-'' else is_lower_hex (s ! i))"

definition name_char :: "char \<Rightarrow> bool" where
  "name_char c \<longleftrightarrow> is_digit c \<or> 0x61 \<le> byte_of c \<and> byte_of c \<le> 0x7A \<or> c = CHR ''-'' \<or> c = CHR ''.''"

definition simple_name :: "string \<Rightarrow> bool" where
  "simple_name s \<longleftrightarrow> s \<noteq> [] \<and> list_all name_char s"

definition matches_labels :: "label_selector \<Rightarrow> string gomap \<Rightarrow> bool" where
  "matches_labels sel ls \<longleftrightarrow> list_all (\<lambda>(k, v). fmlookup ls k = Some v) (gm_entries (MatchLabels sel))"

definition simple_selector :: "label_selector \<Rightarrow> bool" where
  "simple_selector sel \<longleftrightarrow> MatchExpressions sel = [] \<and>
     list_all (\<lambda>(k, v). list_all (\<lambda>c. name_char c \<or> c = CHR ''/'') k \<and> list_all name_char v) (gm_entries (MatchLabels sel))"

definition example_ext :: ext where
  "example_ext =
     \<lparr> uuid_parse = (\<lambda>s. if canonical_uuid s then Some (digit_val (s ! 14), s) else None),
       IsDNS1123Label = simple_name, IsDNS1123Subdomain = simple_name,
       IsQualifiedName = (\<lambda>s. s \<noteq> [] \<and> list_all (\<lambda>c. name_char c \<or> c = CHR ''/'') s),
       IsValidLabelValue = list_all name_char,
       LabelSelectorAsSelector = (\<lambda>sel. if simple_selector sel then Some (matches_labels sel) else None) \<rparr>"

lemma example_ext_uuid [simp]: "uuid_rejects_empty example_ext"
  by (simp add: uuid_rejects_empty_def example_ext_def canonical_uuid_def)

end
