(* ===== verification/Ledger_Model.thy ===== *)
theory Ledger_Model
  imports Go_External
begin

text \<open>
  The data of \<^verbatim>\<open>internal/topologyrollout/ledger.go\<close> and the validation of a
  persisted ledger: policies, fleet members, reservation requests, reservations, the release
  fence and the ledger. A pointer to a ledger is the ledger itself (a nil ledger is no value of
  the model), and the error texts are reduced to their constant part.
\<close>

subsection \<open>Errors\<close>

datatype sentinel =
    ErrLedgerIdentity
  | ErrLedgerFull
  | ErrAlreadyReserved
  | ErrBudgetExceeded
  | ErrTargetUnavailable
  | ErrInvalidTransition
  | ErrStaleControlRevision

text \<open>An error that wraps a sentinel of the package, or a plain \<^verbatim>\<open>fmt.Errorf\<close> error.\<close>

datatype rollout_err = Wrapped sentinel string | Plain string

subsection \<open>Data\<close>

datatype reservation_state =
    ReservationReserved
  | ReservationBound
  | ReservationDraining
  | ReservationGranted
  | ReservationRevoked
  | ReservationOther string

abbreviation LedgerVersion :: string where "LedgerVersion \<equiv> ''v1''"
abbreviation DefaultMaxActiveRecords :: int where "DefaultMaxActiveRecords \<equiv> 256"
abbreviation MaxInt64 :: "64 word" where "MaxInt64 \<equiv> 9223372036854775807"
abbreviation DefaultMaxSerializedBytes :: int where "DefaultMaxSerializedBytes \<equiv> 262144"

record risk_group_budget =
  b_MaxConcurrentTransfers :: int
  b_MaxUnavailable :: int

record policy =
  p_UID :: string
  p_Version :: string
  p_Epoch :: int
  p_GlobalMaxConcurrentTransfers :: int
  p_GlobalMaxUnavailable :: int
  p_DomainTransferBudgets :: "int gomap"
  p_DomainBudgets :: "int gomap"
  p_RiskGroupBudgets :: "risk_group_budget gomap"
  p_MaxActiveRecords :: int
  p_MaxSerializedBytes :: int
  p_RequiredHealthFreshBy :: time

record member =
  m_PhysicalID :: string
  m_DeviceUID :: string
  m_NodeUID :: string
  m_Domains :: "string gomap"
  m_RiskGroups :: "string list"
  m_HealthKnown :: bool
  m_Healthy :: bool
  m_Maintenance :: bool
  m_HealthObserved :: time

definition member_unavailable :: "member \<Rightarrow> policy \<Rightarrow> bool" where
  "member_unavailable m policy \<longleftrightarrow>
     \<not> m_HealthKnown m \<or> \<not> m_Healthy m \<or> m_Maintenance m \<or>
     (\<not> IsZero (p_RequiredHealthFreshBy policy) \<and> m_HealthObserved m < p_RequiredHealthFreshBy policy)"

record reservation_request =
  rq_ID :: string
  rq_CampaignUID :: string
  rq_PlanHash :: string
  rq_PolicyUID :: string
  rq_PolicyVersion :: string
  rq_PolicyEpoch :: int
  rq_TopologyLockID :: string
  rq_PhysicalID :: string
  rq_DeviceUID :: string
  rq_NodeUID :: string
  rq_ChildNamespace :: string
  rq_ChildName :: string
  rq_Domains :: "string gomap"
  rq_RiskGroups :: "string list"
  rq_CampaignMaxConcurrentTransfers :: int
  rq_CampaignMaxUnavailable :: int
  rq_CampaignTransferLimits :: "int gomap"
  rq_CampaignLimits :: "int gomap"
  rq_ControlRevision :: "64 word"

text \<open>\<^verbatim>\<open>Reservation\<close> embeds the request, so its record extends the request's.\<close>

record reservation = reservation_request +
  r_ChildUID :: string
  r_State :: reservation_state
  r_DrainSessionToken :: string
  r_DrainStartedAt :: string
  r_DrainCompletedAt :: string

record release_fence =
  f_ReservationID :: string
  f_PolicyEpoch :: int
  f_TopologyLockID :: string
  f_DrainSessionToken :: string
  f_DrainChildUID :: string

record ledger =
  l_Version :: string
  l_UID :: string
  l_Reservations :: "reservation gomap"
  l_LastReleaseFence :: "release_fence option"

definition NewLedger :: "string \<Rightarrow> rollout_err + ledger" where
  "NewLedger uid =
     (if TrimSpace uid = [] then Inl (Wrapped ErrLedgerIdentity ''empty UID'')
      else Inr \<lparr> l_Version = LedgerVersion, l_UID = uid, l_Reservations = fmempty, l_LastReleaseFence = None \<rparr>)"

subsection \<open>Identities\<close>

definition validBoundedIdentity :: "string \<Rightarrow> int \<Rightarrow> bool" where
  "validBoundedIdentity value maxLength =
     (if value = [] \<or> int (length value) > maxLength \<or> TrimSpace value \<noteq> value then False
      else list_all is_graphic value)"

definition validSHA256PlanHash :: "string \<Rightarrow> bool" where
  "validSHA256PlanHash value =
     (if length value \<noteq> length ''sha256:'' + 32 * 2 \<or> \<not> HasPrefix value ''sha256:'' then False
      else let encoded = TrimPrefix value ''sha256:''
           in if encoded \<noteq> ToLower encoded then False else hex_decoded_len encoded \<noteq> None)"

definition validTopologyLockID :: "string \<Rightarrow> bool" where
  "validTopologyLockID value =
     (if length value \<noteq> 32 \<or> value \<noteq> ToLower value then False
      else hex_decoded_len value = Some 16)"

definition validDrainSessionToken :: "ext \<Rightarrow> string \<Rightarrow> bool" where
  "validDrainSessionToken E value =
     (case uuid_parse E value of
        None \<Rightarrow> False
      | Some (version, text) \<Rightarrow> version = 4 \<and> text = value)"

definition canonicalLedgerTime :: "time \<Rightarrow> rollout_err + string" where
  "canonicalLedgerTime value =
     (if IsZero value then Inl (Plain ''time is zero'') else Inr (format_rfc3339nano value))"

definition parseCanonicalLedgerTime :: "string \<Rightarrow> rollout_err + time" where
  "parseCanonicalLedgerTime value =
     (case parse_rfc3339nano value of
        None \<Rightarrow> Inl (Plain ''parsing time'')
      | Some parsed \<Rightarrow>
          (case canonicalLedgerTime parsed of
             Inr canonical \<Rightarrow>
               if value \<noteq> canonical then Inl (Plain ''time is not canonical UTC RFC3339Nano'')
               else Inr parsed
           | Inl _ \<Rightarrow> \<comment> \<open>the canonical text of the zero time is empty\<close>
               if value \<noteq> [] then Inl (Plain ''time is not canonical UTC RFC3339Nano'')
               else Inr parsed))"

subsection \<open>Risk-group names\<close>

fun risk_group_loop :: "ext \<Rightarrow> string option \<Rightarrow> string list \<Rightarrow> rollout_err option" where
  "risk_group_loop E previous [] = None"
| "risk_group_loop E previous (g # groups) =
     (if \<not> IsDNS1123Label E g then Some (Plain ''risk group is invalid'')
      else if (case previous of Some p \<Rightarrow> p \<ge> g | None \<Rightarrow> False)
      then Some (Plain ''risk groups must be strictly sorted and unique'')
      else risk_group_loop E (Some g) groups)"

definition validateRiskGroupNames :: "ext \<Rightarrow> string list \<Rightarrow> rollout_err option" where
  "validateRiskGroupNames E groups =
     (if length groups > 16 then Some (Plain ''risk groups may contain at most 16 entries'')
      else risk_group_loop E None groups)"

subsection \<open>A persisted reservation\<close>

definition bounded_fields :: "reservation \<Rightarrow> (string \<times> int) list" where
  "bounded_fields r =
     [(rq_ID r, 64), (rq_CampaignUID r, 128), (rq_PlanHash r, 71), (rq_PolicyUID r, 128),
      (rq_PolicyVersion r, 128), (rq_TopologyLockID r, 64), (rq_PhysicalID r, 128),
      (rq_DeviceUID r, 128), (rq_NodeUID r, 128), (rq_ChildNamespace r, 63), (rq_ChildName r, 253)]"

definition domain_err :: "ext \<Rightarrow> string \<times> string \<Rightarrow> rollout_err option" where
  "domain_err E kv =
     (let key = fst kv; value = snd kv
      in if length key > 96 \<or> length value > 63 \<or> TrimSpace value = []
         then Some (Plain ''domain key/value exceeds the 96/63 character limit'')
         else if \<not> IsQualifiedName E key then Some (Plain ''domain key is invalid'')
         else if \<not> IsValidLabelValue E value then Some (Plain ''domain value is invalid'')
         else None)"

definition hasDrainProvenance :: "reservation \<Rightarrow> bool" where
  "hasDrainProvenance r \<longleftrightarrow>
     r_DrainSessionToken r \<noteq> [] \<or> r_DrainStartedAt r \<noteq> [] \<or> r_DrainCompletedAt r \<noteq> []"

definition drain_provenance_err :: "ext \<Rightarrow> reservation \<Rightarrow> rollout_err option" where
  "drain_provenance_err E r =
     (if \<not> hasDrainProvenance r then None
      else if \<not> validDrainSessionToken E (r_DrainSessionToken r)
      then Some (Plain ''drain session token must be a canonical UUIDv4'')
      else case parseCanonicalLedgerTime (r_DrainStartedAt r) of
        Inl _ \<Rightarrow> Some (Plain ''drain start time is invalid'')
      | Inr startedAt \<Rightarrow>
          if r_DrainCompletedAt r = [] then None
          else case parseCanonicalLedgerTime (r_DrainCompletedAt r) of
            Inl _ \<Rightarrow> Some (Plain ''drain completion time is invalid'')
          | Inr completedAt \<Rightarrow>
              if completedAt < startedAt then Some (Plain ''drain completion time precedes its start'')
              else None)"

definition state_err :: "reservation \<Rightarrow> rollout_err option" where
  "state_err r =
     (case r_State r of
        ReservationReserved \<Rightarrow>
          err_if (r_ChildUID r \<noteq> [] \<or> hasDrainProvenance r)
            (Plain ''Reserved state must not have a child UID or drain provenance'')
      | ReservationBound \<Rightarrow>
          if \<not> validBoundedIdentity (r_ChildUID r) 128
          then Some (Plain ''state requires a bounded child UID'')
          else err_if (hasDrainProvenance r) (Plain ''Bound state must not have drain provenance'')
      | ReservationDraining \<Rightarrow>
          err_if (\<not> validBoundedIdentity (r_ChildUID r) 128 \<or> \<not> hasDrainProvenance r \<or> r_DrainCompletedAt r \<noteq> [])
            (Plain ''Draining state requires a child UID and incomplete drain provenance'')
      | ReservationGranted \<Rightarrow>
          if \<not> validBoundedIdentity (r_ChildUID r) 128
          then Some (Plain ''state requires a bounded child UID'')
          else err_if (hasDrainProvenance r \<and> r_DrainCompletedAt r = [])
            (Plain ''drain-provenance Granted state requires completion evidence'')
      | ReservationRevoked \<Rightarrow>
          err_if (\<not> validBoundedIdentity (r_ChildUID r) 128) (Plain ''state requires a bounded child UID'')
      | ReservationOther s \<Rightarrow> Some (Plain ''unknown state''))"

definition validatePersistedReservation :: "ext \<Rightarrow> reservation \<Rightarrow> rollout_err option" where
  "validatePersistedReservation E r =
     or_err (first_err (\<lambda>(value, max). err_if (\<not> validBoundedIdentity value max)
                          (Plain ''field must contain a bounded number of characters'')) (bounded_fields r))
    (or_err (err_if (\<not> validSHA256PlanHash (rq_PlanHash r)) (Plain ''plan hash is not a canonical SHA-256 value''))
    (or_err (err_if (rq_PolicyEpoch r < 1) (Plain ''policy epoch must be positive''))
    (or_err (err_if (\<not> validTopologyLockID (rq_TopologyLockID r))
               (Plain ''topology lock acquisition ID must be a 128-bit lowercase hexadecimal value''))
    (or_err (err_if (\<not> IsDNS1123Label E (rq_ChildNamespace r)) (Plain ''child namespace is invalid''))
    (or_err (err_if (\<not> IsDNS1123Subdomain E (rq_ChildName r)) (Plain ''child name is invalid''))
    (or_err (err_if (gm_len (rq_Domains r) = 0 \<or> gm_len (rq_Domains r) > 16)
               (Plain ''domains must contain 1-16 entries''))
    (or_err (first_err (domain_err E) (gm_entries (rq_Domains r)))
    (or_err (validateRiskGroupNames E (rq_RiskGroups r))
    (or_err (drain_provenance_err E r)
    (or_err (state_err r)
            (err_if (rq_ControlRevision r > MaxInt64)
               (Plain ''control revision exceeds the signed campaign revision range''))))))))))))"

subsection \<open>A persisted ledger\<close>

definition fence_err :: "ext \<Rightarrow> release_fence \<Rightarrow> rollout_err option" where
  "fence_err E fence =
     (if \<not> validBoundedIdentity (f_ReservationID fence) 64 \<or> f_PolicyEpoch fence < 1 \<or>
         \<not> validTopologyLockID (f_TopologyLockID fence)
      then Some (Wrapped ErrLedgerIdentity ''last release fence is invalid'')
      else if (f_DrainSessionToken fence = []) \<noteq> (f_DrainChildUID fence = []) \<or>
         (f_DrainSessionToken fence \<noteq> [] \<and>
           (\<not> validDrainSessionToken E (f_DrainSessionToken fence) \<or>
            \<not> validBoundedIdentity (f_DrainChildUID fence) 128))
      then Some (Wrapped ErrLedgerIdentity ''last release fence has invalid drain provenance'')
      else None)"

definition reused :: "string gomap \<Rightarrow> string \<Rightarrow> string \<Rightarrow> bool" where
  "reused seen value key \<longleftrightarrow>
     (case fmlookup seen value of Some prior \<Rightarrow> prior \<noteq> key | None \<Rightarrow> False)"

definition childKey :: "reservation \<Rightarrow> string" where
  "childKey r = rq_ChildNamespace r @ ''/'' @ rq_ChildName r"

record seen_identities =
  seen_physical :: "string gomap"
  seen_device :: "string gomap"
  seen_node :: "string gomap"
  seen_child :: "string gomap"
  seen_childUID :: "string gomap"

definition no_identities :: seen_identities where
  "no_identities = \<lparr> seen_physical = fmempty, seen_device = fmempty, seen_node = fmempty,
     seen_child = fmempty, seen_childUID = fmempty \<rparr>"

definition see_reservation :: "string \<Rightarrow> reservation \<Rightarrow> seen_identities \<Rightarrow> seen_identities" where
  "see_reservation key r s =
     \<lparr> seen_physical = fmupd (rq_PhysicalID r) key (seen_physical s),
       seen_device = fmupd (rq_DeviceUID r) key (seen_device s),
       seen_node = fmupd (rq_NodeUID r) key (seen_node s),
       seen_child = fmupd (childKey r) key (seen_child s),
       seen_childUID = (if r_ChildUID r \<noteq> [] then fmupd (r_ChildUID r) key (seen_childUID s)
                        else seen_childUID s) \<rparr>"

fun reservations_err :: "ext \<Rightarrow> seen_identities \<Rightarrow> (string \<times> reservation) list \<Rightarrow> rollout_err option" where
  "reservations_err E s [] = None"
| "reservations_err E s ((key, r) # rest) =
     (if key = [] \<or> key \<noteq> rq_ID r
      then Some (Wrapped ErrLedgerIdentity ''reservation map key does not match id'')
      else if validatePersistedReservation E r \<noteq> None
      then Some (Wrapped ErrLedgerIdentity ''reservation is invalid'')
      else if reused (seen_physical s) (rq_PhysicalID r) key \<or> reused (seen_device s) (rq_DeviceUID r) key \<or>
              reused (seen_node s) (rq_NodeUID r) key
      then Some (Wrapped ErrLedgerIdentity ''reservations reuse a physical identity, device UID or node UID'')
      else if reused (seen_child s) (childKey r) key
      then Some (Wrapped ErrLedgerIdentity ''reservations reuse child'')
      else if r_ChildUID r \<noteq> [] \<and> reused (seen_childUID s) (r_ChildUID r) key
      then Some (Wrapped ErrLedgerIdentity ''reservations reuse child UID'')
      else reservations_err E (see_reservation key r s) rest)"

definition validatePersistedLedger :: "ext \<Rightarrow> ledger \<Rightarrow> rollout_err option" where
  "validatePersistedLedger E l =
     (if l_Version l \<noteq> LedgerVersion \<or> \<not> validBoundedIdentity (l_UID l) 128
      then Some (Wrapped ErrLedgerIdentity ''ledger version or UID is invalid'')
      else if gm_len (l_Reservations l) > DefaultMaxActiveRecords
      then Some (Wrapped ErrLedgerIdentity ''reservations exceed the absolute limit'')
      else case (case l_LastReleaseFence l of None \<Rightarrow> None | Some fence \<Rightarrow> fence_err E fence) of
        Some e \<Rightarrow> Some e
      | None \<Rightarrow> reservations_err E no_identities (gm_entries (l_Reservations l)))"

end
