(* ===== verification/Ledger_Wf.thy ===== *)
theory Ledger_Wf
  imports Ledger_Model
begin

text \<open>
  What a ledger accepted by \<^verbatim>\<open>validatePersistedLedger\<close> looks like, stated without
  the traversal and its bookkeeping maps, and the proof that the two agree.
\<close>

definition physical_of :: "reservation \<Rightarrow> string option" where
  "physical_of r = Some (rq_PhysicalID r)"

definition device_of :: "reservation \<Rightarrow> string option" where
  "device_of r = Some (rq_DeviceUID r)"

definition node_of :: "reservation \<Rightarrow> string option" where
  "node_of r = Some (rq_NodeUID r)"

definition child_of :: "reservation \<Rightarrow> string option" where
  "child_of r = Some (childKey r)"

definition childUID_of :: "reservation \<Rightarrow> string option" where
  "childUID_of r = (if r_ChildUID r = [] then None else Some (r_ChildUID r))"

definition unique_identity :: "(reservation \<Rightarrow> string option) \<Rightarrow> reservation gomap \<Rightarrow> bool" where
  "unique_identity f m \<longleftrightarrow>
     (\<forall>k1 r1 k2 r2 v. fmlookup m k1 = Some r1 \<and> fmlookup m k2 = Some r2 \<and> f r1 = Some v \<and> f r2 = Some v
        \<longrightarrow> k1 = k2)"

definition entry_wf :: "ext \<Rightarrow> string \<Rightarrow> reservation \<Rightarrow> bool" where
  "entry_wf E k r \<longleftrightarrow> k \<noteq> [] \<and> rq_ID r = k \<and> validatePersistedReservation E r = None"

definition reservations_wf :: "ext \<Rightarrow> reservation gomap \<Rightarrow> bool" where
  "reservations_wf E m \<longleftrightarrow>
     (\<forall>k r. fmlookup m k = Some r \<longrightarrow> entry_wf E k r) \<and>
     (\<forall>f \<in> {physical_of, device_of, node_of, child_of, childUID_of}. unique_identity f m)"

definition fence_wf :: "ext \<Rightarrow> release_fence option \<Rightarrow> bool" where
  "fence_wf E f \<longleftrightarrow> (\<forall>fence. f = Some fence \<longrightarrow> fence_err E fence = None)"

definition ledger_wf :: "ext \<Rightarrow> ledger \<Rightarrow> bool" where
  "ledger_wf E l \<longleftrightarrow>
     l_Version l = LedgerVersion \<and> validBoundedIdentity (l_UID l) 128 \<and>
     gm_len (l_Reservations l) \<le> DefaultMaxActiveRecords \<and>
     fence_wf E (l_LastReleaseFence l) \<and> reservations_wf E (l_Reservations l)"

section \<open>Validators without their control flow\<close>

named_theorems validator_iff "what a validator accepts"

lemma validBoundedIdentity_iff [validator_iff]:
  "validBoundedIdentity v n \<longleftrightarrow> v \<noteq> [] \<and> int (length v) \<le> n \<and> list_all is_graphic v"
  by (auto simp: validBoundedIdentity_def TrimSpace_graphic)

lemma validTopologyLockID_iff [validator_iff]:
  "validTopologyLockID v \<longleftrightarrow> length v = 32 \<and> list_all is_lower_hex v"
proof -
  have "list_all is_hex v \<Longrightarrow> v = ToLower v \<longleftrightarrow> list_all is_lower_hex v"
    by (rule ToLower_id_hex)
  then show ?thesis
    by (auto simp: validTopologyLockID_def hex_decoded_len_def list_all_lower_hex_hex)
qed

lemma length_sha256_prefix: "length ''sha256:'' = 7"
  by simp

lemma validSHA256PlanHash_iff [validator_iff]:
  "validSHA256PlanHash v \<longleftrightarrow> length v = 71 \<and> take 7 v = ''sha256:'' \<and> list_all is_lower_hex (drop 7 v)"
proof -
  have "list_all is_hex (drop 7 v) \<Longrightarrow> drop 7 v = ToLower (drop 7 v) \<longleftrightarrow> list_all is_lower_hex (drop 7 v)"
    by (rule ToLower_id_hex)
  then show ?thesis
    unfolding validSHA256PlanHash_def HasPrefix_def TrimPrefix_def hex_decoded_len_def Let_def
      length_sha256_prefix
    by (auto simp: list_all_lower_hex_hex)
qed

lemma risk_group_loop_None:
  "risk_group_loop E p gs = None \<longleftrightarrow>
     list_all (IsDNS1123Label E) gs \<and> sorted_wrt (<) gs \<and> (\<forall>x g. p = Some x \<and> g \<in> set gs \<longrightarrow> x < g)"
proof (induction gs arbitrary: p)
  case (Cons g gs)
  have "risk_group_loop E p (g # gs) = None \<longleftrightarrow>
      IsDNS1123Label E g \<and> (\<forall>x. p = Some x \<longrightarrow> x < g) \<and> risk_group_loop E (Some g) gs = None"
    by (auto split: option.splits)
  with Cons show ?case by (auto dest: less_trans)
qed simp

lemma validateRiskGroupNames_iff [validator_iff]:
  "validateRiskGroupNames E gs = None \<longleftrightarrow>
     length gs \<le> 16 \<and> list_all (IsDNS1123Label E) gs \<and> sorted_wrt (<) gs"
  by (simp add: validateRiskGroupNames_def risk_group_loop_None)

lemma parseCanonicalLedgerTime_canonical:
  assumes "canonicalLedgerTime t = Inr s" and "in_format_range t"
  shows "parseCanonicalLedgerTime s = Inr t"
  using assms
  by (auto simp: parseCanonicalLedgerTime_def canonicalLedgerTime_def parse_format_rfc3339nano
      split: if_splits)

lemma format_rfc3339nano_nonempty [simp]: "format_rfc3339nano t \<noteq> []"
  by (simp add: format_rfc3339nano_def Let_def split: prod.splits)

lemma canonicalLedgerTime_nonempty: "canonicalLedgerTime t = Inr s \<Longrightarrow> s \<noteq> []"
  by (auto simp: canonicalLedgerTime_def split: if_splits)

lemma validDrainSessionToken_nonempty:
  "uuid_rejects_empty E \<Longrightarrow> validDrainSessionToken E v \<Longrightarrow> v \<noteq> []"
  by (auto simp: validDrainSessionToken_def uuid_rejects_empty_def)

lemma validatePersistedReservation_iff [validator_iff]:
  "validatePersistedReservation E r = None \<longleftrightarrow>
     list_all (\<lambda>(v, n). validBoundedIdentity v n) (bounded_fields r) \<and>
     validSHA256PlanHash (rq_PlanHash r) \<and> 1 \<le> rq_PolicyEpoch r \<and> validTopologyLockID (rq_TopologyLockID r) \<and>
     IsDNS1123Label E (rq_ChildNamespace r) \<and> IsDNS1123Subdomain E (rq_ChildName r) \<and>
     gm_len (rq_Domains r) \<noteq> 0 \<and> gm_len (rq_Domains r) \<le> 16 \<and>
     (\<forall>kv \<in> set (gm_entries (rq_Domains r)). domain_err E kv = None) \<and>
     validateRiskGroupNames E (rq_RiskGroups r) = None \<and> drain_provenance_err E r = None \<and>
     state_err r = None \<and> rq_ControlRevision r \<le> MaxInt64"
  unfolding validatePersistedReservation_def or_err_None first_err_None err_if_None list_all_iff
  by (simp add: case_prod_unfold not_less)

section \<open>The traversal finds exactly the violations\<close>

definition fresh_identities :: "(reservation \<Rightarrow> string option) \<Rightarrow> string gomap \<Rightarrow> (string \<times> reservation) list \<Rightarrow> bool" where
  "fresh_identities f s xs \<longleftrightarrow>
     (\<forall>kr \<in> set xs. \<forall>v. f (snd kr) = Some v \<longrightarrow> fmlookup s v = None) \<and>
     distinct (List.map_filter f (map snd xs))"

lemma fresh_identities_Nil [simp]: "fresh_identities f s []"
  by (simp add: fresh_identities_def)

lemma fresh_identities_None:
  "f r = None \<Longrightarrow> fresh_identities f s ((k, r) # xs) \<longleftrightarrow> fresh_identities f s xs"
  by (auto simp: fresh_identities_def)

lemma set_map_filter_iff: "v \<in> set (List.map_filter f xs) \<longleftrightarrow> (\<exists>x \<in> set xs. f x = Some v)"
  by (induction xs) (auto simp: List.map_filter_simps split: option.splits)

lemma fresh_identities_Some:
  assumes "f r = Some v"
  shows "fresh_identities f s ((k, r) # xs) \<longleftrightarrow>
    fmlookup s v = None \<and> fresh_identities f (fmupd v k s) xs"
proof -
  have "List.map_filter f (map snd ((k, r) # xs)) = v # List.map_filter f (map snd xs)"
    using assms by (simp add: List.map_filter_simps)
  moreover have "v \<notin> set (List.map_filter f (map snd xs)) \<longleftrightarrow> (\<forall>kr \<in> set xs. f (snd kr) \<noteq> Some v)"
    by (auto simp: set_map_filter_iff)
  ultimately show ?thesis
    unfolding fresh_identities_def using assms by (simp only: distinct.simps) fastforce
qed

lemma reused_iff:
  "k \<notin> set (gm_vals s) \<Longrightarrow> reused s v k \<longleftrightarrow> fmlookup s v \<noteq> None"
  by (auto simp: reused_def set_gm_vals split: option.splits)

definition all_fresh :: "seen_identities \<Rightarrow> (string \<times> reservation) list \<Rightarrow> bool" where
  "all_fresh s xs \<longleftrightarrow>
     fresh_identities physical_of (seen_physical s) xs \<and> fresh_identities device_of (seen_device s) xs \<and>
     fresh_identities node_of (seen_node s) xs \<and> fresh_identities child_of (seen_child s) xs \<and>
     fresh_identities childUID_of (seen_childUID s) xs"

definition seen_keys :: "seen_identities \<Rightarrow> string set" where
  "seen_keys s = set (gm_vals (seen_physical s)) \<union> set (gm_vals (seen_device s)) \<union>
     set (gm_vals (seen_node s)) \<union> set (gm_vals (seen_child s)) \<union> set (gm_vals (seen_childUID s))"

lemmas identity_defs = physical_of_def device_of_def node_of_def child_of_def

lemma all_fresh_Cons:
  "all_fresh s ((k, r) # xs) \<longleftrightarrow>
     fmlookup (seen_physical s) (rq_PhysicalID r) = None \<and> fmlookup (seen_device s) (rq_DeviceUID r) = None \<and>
     fmlookup (seen_node s) (rq_NodeUID r) = None \<and> fmlookup (seen_child s) (childKey r) = None \<and>
     (r_ChildUID r \<noteq> [] \<longrightarrow> fmlookup (seen_childUID s) (r_ChildUID r) = None) \<and>
     all_fresh (see_reservation k r s) xs"
proof (cases "r_ChildUID r = []")
  case True
  then have "childUID_of r = None" by (simp add: childUID_of_def)
  with True show ?thesis
    by (auto simp: all_fresh_def see_reservation_def fresh_identities_None
        fresh_identities_Some [OF physical_of_def] fresh_identities_Some [OF device_of_def]
        fresh_identities_Some [OF node_of_def] fresh_identities_Some [OF child_of_def])
next
  case False
  then have "childUID_of r = Some (r_ChildUID r)" by (simp add: childUID_of_def)
  with False show ?thesis
    by (auto simp: all_fresh_def see_reservation_def fresh_identities_Some [of childUID_of]
        fresh_identities_Some [OF physical_of_def] fresh_identities_Some [OF device_of_def]
        fresh_identities_Some [OF node_of_def] fresh_identities_Some [OF child_of_def])
qed

lemma gm_vals_upd_subset: "set (gm_vals (fmupd v k s)) \<subseteq> insert k (set (gm_vals s))"
  by (auto simp: set_gm_vals split: if_splits)

lemma seen_keys_see: "seen_keys (see_reservation k r s) \<subseteq> insert k (seen_keys s)"
  by (cases "r_ChildUID r = []")
     (auto simp: seen_keys_def see_reservation_def dest!: subsetD [OF gm_vals_upd_subset])

lemma if_err_None: "(if c then Some e else x) = None \<longleftrightarrow> \<not> c \<and> x = None"
  by simp

lemma reservations_err_Cons:
  "reservations_err E s ((k, r) # xs) = None \<longleftrightarrow>
     entry_wf E k r \<and> \<not> reused (seen_physical s) (rq_PhysicalID r) k \<and>
     \<not> reused (seen_device s) (rq_DeviceUID r) k \<and> \<not> reused (seen_node s) (rq_NodeUID r) k \<and>
     \<not> reused (seen_child s) (childKey r) k \<and>
     (r_ChildUID r \<noteq> [] \<longrightarrow> \<not> reused (seen_childUID s) (r_ChildUID r) k) \<and>
     reservations_err E (see_reservation k r s) xs = None"
  unfolding reservations_err.simps if_err_None entry_wf_def by (auto simp del: not_None_eq)

lemma reservations_err_None:
  assumes "distinct (map fst xs)" and "fst ` set xs \<inter> seen_keys s = {}"
  shows "reservations_err E s xs = None \<longleftrightarrow> (\<forall>kr \<in> set xs. entry_wf E (fst kr) (snd kr)) \<and> all_fresh s xs"
  using assms
proof (induction xs arbitrary: s)
  case Nil
  then show ?case by (simp add: all_fresh_def)
next
  case (Cons kr xs)
  obtain k r where kr: "kr = (k, r)" by fastforce
  have k: "k \<notin> seen_keys s" using Cons.prems kr by auto
  then have reused: "reused (seen_physical s) v k \<longleftrightarrow> fmlookup (seen_physical s) v \<noteq> None"
    "reused (seen_device s) v k \<longleftrightarrow> fmlookup (seen_device s) v \<noteq> None"
    "reused (seen_node s) v k \<longleftrightarrow> fmlookup (seen_node s) v \<noteq> None"
    "reused (seen_child s) v k \<longleftrightarrow> fmlookup (seen_child s) v \<noteq> None"
    "reused (seen_childUID s) v k \<longleftrightarrow> fmlookup (seen_childUID s) v \<noteq> None" for v
    by (simp_all add: seen_keys_def reused_iff)
  have "reservations_err E (see_reservation k r s) xs = None \<longleftrightarrow>
      (\<forall>kr \<in> set xs. entry_wf E (fst kr) (snd kr)) \<and> all_fresh (see_reservation k r s) xs"
  proof (rule Cons.IH)
    show "fst ` set xs \<inter> seen_keys (see_reservation k r s) = {}"
      using Cons.prems kr seen_keys_see [of k r s] by auto
  qed (use Cons.prems in simp)
  then show ?case
    unfolding kr reservations_err_Cons all_fresh_Cons reused by auto
qed

definition unique_in :: "(reservation \<Rightarrow> string option) \<Rightarrow> (string \<times> reservation) list \<Rightarrow> bool" where
  "unique_in f xs \<longleftrightarrow>
     (\<forall>x \<in> set xs. \<forall>y \<in> set xs. f (snd x) \<noteq> None \<and> f (snd x) = f (snd y) \<longrightarrow> fst x = fst y)"

lemma unique_in_Cons:
  assumes "fst x \<notin> fst ` set xs"
  shows "unique_in f (x # xs) \<longleftrightarrow> unique_in f xs \<and> (f (snd x) \<noteq> None \<longrightarrow> (\<forall>y \<in> set xs. f (snd x) \<noteq> f (snd y)))"
proof
  assume U: "unique_in f (x # xs)"
  have "f (snd x) \<noteq> f (snd y)" if "f (snd x) \<noteq> None" "y \<in> set xs" for y
  proof
    assume "f (snd x) = f (snd y)"
    with U that have "fst x = fst y" unfolding unique_in_def by (meson list.set_intros)
    with assms that show False by (metis imageI)
  qed
  moreover have "unique_in f xs"
    using U unfolding unique_in_def by (meson list.set_intros(2))
  ultimately show "unique_in f xs \<and> (f (snd x) \<noteq> None \<longrightarrow> (\<forall>y \<in> set xs. f (snd x) \<noteq> f (snd y)))"
    by blast
next
  assume R: "unique_in f xs \<and> (f (snd x) \<noteq> None \<longrightarrow> (\<forall>y \<in> set xs. f (snd x) \<noteq> f (snd y)))"
  show "unique_in f (x # xs)"
    unfolding unique_in_def
  proof (intro ballI impI)
    fix a b
    assume ab: "a \<in> set (x # xs)" "b \<in> set (x # xs)" and f: "f (snd a) \<noteq> None \<and> f (snd a) = f (snd b)"
    show "fst a = fst b"
    proof (cases "a = x \<or> b = x")
      case True
      with R ab f have "a = b" by (metis set_ConsD)
      then show ?thesis by simp
    next
      case False
      with ab have "a \<in> set xs" "b \<in> set xs" by auto
      with R f show ?thesis unfolding unique_in_def by blast
    qed
  qed
qed

lemma distinct_map_filter_unique_in:
  "distinct (map fst xs) \<Longrightarrow> distinct (List.map_filter f (map snd xs)) \<longleftrightarrow> unique_in f xs"
proof (induction xs)
  case (Cons x xs)
  then have *: "distinct (List.map_filter f (map snd xs)) \<longleftrightarrow> unique_in f xs" "fst x \<notin> fst ` set xs"
    by auto
  show ?case
  proof (cases "f (snd x)")
    case None
    then have "unique_in f (x # xs) \<longleftrightarrow> unique_in f xs" by (simp add: unique_in_Cons [OF *(2)])
    with None * show ?thesis by (simp add: List.map_filter_simps)
  next
    case (Some v)
    then have "unique_in f (x # xs) \<longleftrightarrow> unique_in f xs \<and> v \<notin> set (List.map_filter f (map snd xs))"
      by (auto simp: unique_in_Cons [OF *(2)] set_map_filter_iff)
    with Some * show ?thesis by (auto simp: List.map_filter_simps)
  qed
qed (simp add: unique_in_def)

lemma unique_identity_distinct:
  "distinct (List.map_filter f (map snd (gm_entries m))) \<longleftrightarrow> unique_identity f m"
  unfolding distinct_map_filter_unique_in [OF distinct_gm_entries] unique_in_def unique_identity_def
  by (force simp: set_gm_entries)

lemma reservations_wf_iff:
  "reservations_err E no_identities (gm_entries m) = None \<longleftrightarrow> reservations_wf E m"
proof -
  have "seen_keys no_identities = {}"
    by (simp add: seen_keys_def no_identities_def set_gm_vals)
  then have "reservations_err E no_identities (gm_entries m) = None \<longleftrightarrow>
      (\<forall>kr \<in> set (gm_entries m). entry_wf E (fst kr) (snd kr)) \<and> all_fresh no_identities (gm_entries m)"
    by (intro reservations_err_None distinct_gm_entries) simp
  moreover have "all_fresh no_identities (gm_entries m) \<longleftrightarrow>
      (\<forall>f \<in> {physical_of, device_of, node_of, child_of, childUID_of}. unique_identity f m)"
    by (simp add: all_fresh_def fresh_identities_def no_identities_def unique_identity_distinct)
  ultimately show ?thesis
    by (auto simp: reservations_wf_def set_gm_entries)
qed

lemma validatePersistedLedger_iff: "validatePersistedLedger E l = None \<longleftrightarrow> ledger_wf E l"
  by (auto simp: validatePersistedLedger_def ledger_wf_def fence_wf_def reservations_wf_iff
      split: option.splits)

end
