(* ===== verification/Ledger_Transitions.thy ===== *)
theory Ledger_Transitions
  imports Ledger_Wf
begin

text \<open>
  The transitions of \<^verbatim>\<open>internal/topologyrollout/ledger.go\<close> after admission: binding a
  child, draining, granting, revoking, settling and the release fences. A Go function that
  mutates the ledger behind its pointer and returns an error is a function from the ledger to
  an outcome: the error, if any, and the ledger it leaves behind.
\<close>

type_synonym outcome = "rollout_err option \<times> ledger"

abbreviation fails :: "rollout_err \<Rightarrow> ledger \<Rightarrow> outcome" where
  "fails e l \<equiv> (Some e, l)"

abbreviation succeeds :: "ledger \<Rightarrow> outcome" where
  "succeeds l \<equiv> (None, l)"

abbreviation invalid :: "string \<Rightarrow> rollout_err" where
  "invalid \<equiv> Wrapped ErrInvalidTransition"

abbreviation stale :: rollout_err where
  "stale \<equiv> Wrapped ErrStaleControlRevision ''''"

abbreviation wrong_ledger :: rollout_err where
  "wrong_ledger \<equiv> Wrapped ErrLedgerIdentity ''''"

abbreviation reservation_at :: "ledger \<Rightarrow> string \<Rightarrow> reservation option" where
  "reservation_at l rid \<equiv> fmlookup (l_Reservations l) rid"

definition put_reservation :: "string \<Rightarrow> reservation \<Rightarrow> ledger \<Rightarrow> ledger" where
  "put_reservation rid r l = l\<lparr> l_Reservations := fmupd rid r (l_Reservations l) \<rparr>"

definition delete_reservation :: "string \<Rightarrow> ledger \<Rightarrow> ledger" where
  "delete_reservation rid l = l\<lparr> l_Reservations := fmdrop rid (l_Reservations l) \<rparr>"

subsection \<open>Release fences\<close>

definition releaseFenceMatches :: "release_fence option \<Rightarrow> string \<Rightarrow> int \<Rightarrow> string \<Rightarrow> bool" where
  "releaseFenceMatches fence reservationID policyEpoch topologyLockID =
     (case fence of
        None \<Rightarrow> False
      | Some f \<Rightarrow> f_ReservationID f = reservationID \<and> f_PolicyEpoch f = policyEpoch \<and>
                 f_TopologyLockID f = topologyLockID)"

definition HasReleaseFence :: "ledger \<Rightarrow> string \<Rightarrow> int \<Rightarrow> string \<Rightarrow> bool" where
  "HasReleaseFence l reservationID policyEpoch topologyLockID =
     releaseFenceMatches (l_LastReleaseFence l) reservationID policyEpoch topologyLockID"

text \<open>The drain token of the last fence, empty when there is no fence.\<close>

definition fence_token :: "ledger \<Rightarrow> string" where
  "fence_token l = (case l_LastReleaseFence l of None \<Rightarrow> [] | Some f \<Rightarrow> f_DrainSessionToken f)"

definition fence_child :: "ledger \<Rightarrow> string" where
  "fence_child l = (case l_LastReleaseFence l of None \<Rightarrow> [] | Some f \<Rightarrow> f_DrainChildUID f)"

definition recordReleaseFence :: "ledger \<Rightarrow> string \<Rightarrow> int \<Rightarrow> string \<Rightarrow> outcome" where
  "recordReleaseFence l reservationID policyEpoch topologyLockID =
     (if \<not> validBoundedIdentity reservationID 64 \<or> policyEpoch < 1 \<or> \<not> validTopologyLockID topologyLockID
      then fails (Wrapped ErrLedgerIdentity ''release-fence identity is invalid'') l
      else if releaseFenceMatches (l_LastReleaseFence l) reservationID policyEpoch topologyLockID \<and>
              fence_token l \<noteq> []
      then fails (invalid ''drain release fence cannot be replaced by generic cleanup'') l
      else succeeds (l\<lparr> l_LastReleaseFence := Some
             \<lparr> f_ReservationID = reservationID, f_PolicyEpoch = policyEpoch, f_TopologyLockID = topologyLockID,
               f_DrainSessionToken = [], f_DrainChildUID = [] \<rparr> \<rparr>))"

definition recordDrainReleaseFence ::
  "ext \<Rightarrow> ledger \<Rightarrow> string \<Rightarrow> int \<Rightarrow> string \<Rightarrow> string \<Rightarrow> string \<Rightarrow> outcome" where
  "recordDrainReleaseFence E l reservationID policyEpoch topologyLockID childUID sessionToken =
     (if \<not> validBoundedIdentity reservationID 64 \<or> policyEpoch < 1 \<or> \<not> validTopologyLockID topologyLockID \<or>
         \<not> validBoundedIdentity childUID 128 \<or> \<not> validDrainSessionToken E sessionToken
      then fails (Wrapped ErrLedgerIdentity ''drain release-fence identity is invalid'') l
      else if releaseFenceMatches (l_LastReleaseFence l) reservationID policyEpoch topologyLockID
      then if fence_token l = sessionToken \<and> fence_child l = childUID then succeeds l
           else fails (invalid ''release fence belongs to a different settlement protocol'') l
      else succeeds (l\<lparr> l_LastReleaseFence := Some
             \<lparr> f_ReservationID = reservationID, f_PolicyEpoch = policyEpoch, f_TopologyLockID = topologyLockID,
               f_DrainSessionToken = sessionToken, f_DrainChildUID = childUID \<rparr> \<rparr>))"

text \<open>\<^verbatim>\<open>if err := record(...); err != nil { return err }; delete(ledger.Reservations, id)\<close>\<close>

definition then_delete :: "outcome \<Rightarrow> string \<Rightarrow> outcome" where
  "then_delete out reservationID =
     (case out of
        (Some e, l) \<Rightarrow> (Some e, l)
      | (None, l) \<Rightarrow> succeeds (delete_reservation reservationID l))"

subsection \<open>Binding and draining\<close>

definition BindChild :: "ledger \<Rightarrow> string \<Rightarrow> string \<Rightarrow> outcome" where
  "BindChild l reservationID childUID =
     (case reservation_at l reservationID of
        None \<Rightarrow> fails (invalid ''reservation or child UID missing'') l
      | Some r \<Rightarrow>
          if TrimSpace childUID = [] then fails (invalid ''reservation or child UID missing'') l
          else if r_ChildUID r = childUID \<and>
                  r_State r \<in> {ReservationBound, ReservationDraining, ReservationGranted, ReservationRevoked}
          then succeeds l
          else if r_State r \<noteq> ReservationReserved \<or> r_ChildUID r \<noteq> []
          then fails (invalid ''cannot bind child in state'') l
          else succeeds (put_reservation reservationID
                 (r\<lparr> r_ChildUID := childUID, r_State := ReservationBound \<rparr>) l))"

definition BeginDrain ::
  "ext \<Rightarrow> ledger \<Rightarrow> string \<Rightarrow> string \<Rightarrow> string \<Rightarrow> string \<Rightarrow> 64 word \<Rightarrow> time \<Rightarrow> outcome" where
  "BeginDrain E l reservationID ledgerUID childUID sessionToken controlRevision startedAt =
     (if l_UID l \<noteq> ledgerUID then fails wrong_ledger l
      else if \<not> validDrainSessionToken E sessionToken
      then fails (invalid ''drain session token is not a canonical UUIDv4'') l
      else case canonicalLedgerTime startedAt of
        Inl _ \<Rightarrow> fails (invalid ''drain start time is invalid'') l
      | Inr canonicalStart \<Rightarrow>
          (case reservation_at l reservationID of
             None \<Rightarrow> fails (invalid ''reservation is not bound to child'') l
           | Some r \<Rightarrow>
               if r_ChildUID r = [] \<or> r_ChildUID r \<noteq> childUID
               then fails (invalid ''reservation is not bound to child'') l
               else if r_State r = ReservationDraining \<and> r_DrainSessionToken r = sessionToken \<and>
                       r_DrainStartedAt r = canonicalStart \<and> r_DrainCompletedAt r = []
               then if controlRevision < rq_ControlRevision r then fails stale l
                    else succeeds (put_reservation reservationID
                           (r\<lparr> rq_ControlRevision := controlRevision \<rparr>) l)
               else if r_State r \<noteq> ReservationBound \<or> r_DrainSessionToken r \<noteq> [] \<or>
                       r_DrainStartedAt r \<noteq> [] \<or> r_DrainCompletedAt r \<noteq> []
               then fails (invalid ''reservation is not an unclaimed bound drain candidate'') l
               else if controlRevision < rq_ControlRevision r then fails stale l
               else succeeds (put_reservation reservationID
                      (r\<lparr> rq_ControlRevision := controlRevision, r_State := ReservationDraining,
                         r_DrainSessionToken := sessionToken, r_DrainStartedAt := canonicalStart \<rparr>) l)))"

definition PromoteDrain ::
  "ext \<Rightarrow> ledger \<Rightarrow> string \<Rightarrow> string \<Rightarrow> string \<Rightarrow> string \<Rightarrow> 64 word \<Rightarrow> time \<Rightarrow> outcome" where
  "PromoteDrain E l reservationID ledgerUID childUID sessionToken controlRevision completedAt =
     (if l_UID l \<noteq> ledgerUID then fails wrong_ledger l
      else if \<not> validDrainSessionToken E sessionToken
      then fails (invalid ''drain session token is not a canonical UUIDv4'') l
      else case canonicalLedgerTime completedAt of
        Inl _ \<Rightarrow> fails (invalid ''drain completion time is invalid'') l
      | Inr canonicalCompletion \<Rightarrow>
          (case reservation_at l reservationID of
             None \<Rightarrow> fails (invalid ''reservation is not bound to the drain session'') l
           | Some r \<Rightarrow>
               if r_ChildUID r = [] \<or> r_ChildUID r \<noteq> childUID \<or> r_DrainSessionToken r \<noteq> sessionToken
               then fails (invalid ''reservation is not bound to the drain session'') l
               else if r_State r = ReservationGranted \<and> r_DrainCompletedAt r = canonicalCompletion
               then if controlRevision < rq_ControlRevision r then fails stale l
                    else succeeds (put_reservation reservationID
                           (r\<lparr> rq_ControlRevision := controlRevision \<rparr>) l)
               else if r_State r \<noteq> ReservationDraining \<or> r_DrainCompletedAt r \<noteq> []
               then fails (invalid ''reservation is not draining'') l
               else case parseCanonicalLedgerTime (r_DrainStartedAt r) of
                 Inl _ \<Rightarrow> fails (invalid ''drain completion precedes its start'') l
               | Inr startedAt \<Rightarrow>
                   if completedAt < startedAt then fails (invalid ''drain completion precedes its start'') l
                   else if controlRevision < rq_ControlRevision r then fails stale l
                   else succeeds (put_reservation reservationID
                          (r\<lparr> rq_ControlRevision := controlRevision, r_State := ReservationGranted,
                             r_DrainCompletedAt := canonicalCompletion \<rparr>) l)))"

subsection \<open>Granting and revoking\<close>

text \<open>The guard \<^verbatim>\<open>Grant\<close> and \<^verbatim>\<open>Revoke\<close> share: the reservation takes part in a drain.\<close>

definition in_drain :: "reservation \<Rightarrow> bool" where
  "in_drain r \<longleftrightarrow> r_DrainSessionToken r \<noteq> [] \<or> r_DrainStartedAt r \<noteq> [] \<or> r_DrainCompletedAt r \<noteq> [] \<or>
     r_State r = ReservationDraining"

definition Grant :: "ledger \<Rightarrow> string \<Rightarrow> string \<Rightarrow> string \<Rightarrow> 64 word \<Rightarrow> outcome" where
  "Grant l reservationID ledgerUID childUID controlRevision =
     (if l_UID l \<noteq> ledgerUID then fails wrong_ledger l
      else case reservation_at l reservationID of
        None \<Rightarrow> fails (invalid ''reservation is not bound to child'') l
      | Some r \<Rightarrow>
          if in_drain r then fails (invalid ''drain reservation requires session-bound promotion'') l
          else if r_State r = ReservationGranted \<and> r_ChildUID r = childUID
          then if controlRevision < rq_ControlRevision r then fails stale l
               else succeeds (put_reservation reservationID (r\<lparr> rq_ControlRevision := controlRevision \<rparr>) l)
          else if r_ChildUID r = [] \<or> r_ChildUID r \<noteq> childUID \<or> r_State r \<noteq> ReservationBound
          then fails (invalid ''reservation is not bound to child'') l
          else if controlRevision < rq_ControlRevision r then fails stale l
          else succeeds (put_reservation reservationID
                 (r\<lparr> rq_ControlRevision := controlRevision, r_State := ReservationGranted \<rparr>) l))"

definition revoked :: "64 word \<Rightarrow> reservation \<Rightarrow> reservation" where
  "revoked controlRevision r = r\<lparr> rq_ControlRevision := controlRevision, r_State := ReservationRevoked \<rparr>"

definition Revoke :: "ledger \<Rightarrow> string \<Rightarrow> 64 word \<Rightarrow> outcome" where
  "Revoke l reservationID controlRevision =
     (case reservation_at l reservationID of
        None \<Rightarrow> fails (invalid ''reservation missing'') l
      | Some r \<Rightarrow>
          if in_drain r then fails (invalid ''drain reservation requires session-bound revocation'') l
          else if r_State r = ReservationRevoked \<and> controlRevision = rq_ControlRevision r then succeeds l
          else if controlRevision \<le> rq_ControlRevision r then fails stale l
          else if r_State r \<in> {ReservationReserved, ReservationBound, ReservationGranted, ReservationRevoked}
          then succeeds (put_reservation reservationID (revoked controlRevision r) l)
          else fails (invalid ''cannot revoke state'') l)"

definition RevokeDrain :: "ext \<Rightarrow> ledger \<Rightarrow> string \<Rightarrow> string \<Rightarrow> string \<Rightarrow> string \<Rightarrow> 64 word \<Rightarrow> outcome" where
  "RevokeDrain E l reservationID ledgerUID childUID sessionToken controlRevision =
     (if l_UID l \<noteq> ledgerUID then fails wrong_ledger l
      else if \<not> validDrainSessionToken E sessionToken
      then fails (invalid ''drain session token is not a canonical UUIDv4'') l
      else case reservation_at l reservationID of
        None \<Rightarrow> fails (invalid ''reservation is not bound to the drain session'') l
      | Some r \<Rightarrow>
          if r_ChildUID r \<noteq> childUID \<or> r_DrainSessionToken r \<noteq> sessionToken \<or> r_DrainStartedAt r = []
          then fails (invalid ''reservation is not bound to the drain session'') l
          else if r_State r = ReservationRevoked \<and> controlRevision = rq_ControlRevision r then succeeds l
          else if controlRevision < rq_ControlRevision r then fails stale l
          else if r_State r \<in> {ReservationDraining, ReservationGranted, ReservationRevoked}
          then succeeds (put_reservation reservationID (revoked controlRevision r) l)
          else fails (invalid ''cannot revoke drain state'') l)"

definition RevokeUnclaimedAtEpoch ::
  "ledger \<Rightarrow> string \<Rightarrow> string \<Rightarrow> string \<Rightarrow> 64 word \<Rightarrow> int \<Rightarrow> outcome" where
  "RevokeUnclaimedAtEpoch l reservationID topologyLockID childUID controlRevision policyEpoch =
     (if policyEpoch < 1 then fails stale l
      else case reservation_at l reservationID of
        None \<Rightarrow> fails (invalid ''reservation missing'') l
      | Some r \<Rightarrow>
          if rq_PolicyEpoch r \<noteq> policyEpoch \<or> rq_TopologyLockID r \<noteq> topologyLockID then fails stale l
          else if r_DrainSessionToken r \<noteq> []
          then fails (invalid ''drain reservation cannot use unclaimed revocation'') l
          else if TrimSpace childUID = [] \<or> r_ChildUID r \<noteq> childUID
          then fails (invalid ''reservation is not bound to the proven child'') l
          else if controlRevision < rq_ControlRevision r then fails stale l
          else if r_State r \<in> {ReservationBound, ReservationGranted, ReservationRevoked}
          then succeeds (put_reservation reservationID (revoked controlRevision r) l)
          else fails (invalid ''cannot revoke unclaimed state'') l)"

subsection \<open>Settling and releasing\<close>

definition Settle ::
  "ledger \<Rightarrow> string \<Rightarrow> string \<Rightarrow> string \<Rightarrow> int \<Rightarrow> bool \<Rightarrow> bool \<Rightarrow> outcome" where
  "Settle l reservationID topologyLockID childUID policyEpoch outcomeResolved healthGatePassed =
     (case reservation_at l reservationID of
        None \<Rightarrow>
          if releaseFenceMatches (l_LastReleaseFence l) reservationID policyEpoch topologyLockID \<and>
             fence_token l \<noteq> []
          then fails (invalid ''drain reservation requires session-bound settlement'') l
          else recordReleaseFence l reservationID policyEpoch topologyLockID
      | Some r \<Rightarrow>
          if rq_PolicyEpoch r \<noteq> policyEpoch \<or> rq_TopologyLockID r \<noteq> topologyLockID then fails stale l
          else if r_DrainSessionToken r \<noteq> []
          then fails (invalid ''drain reservation requires session-bound settlement'') l
          else if r_ChildUID r \<noteq> childUID \<or> \<not> outcomeResolved \<or> \<not> healthGatePassed
          then fails (invalid ''settlement evidence incomplete'') l
          else if r_State r \<noteq> ReservationGranted \<and> r_State r \<noteq> ReservationRevoked
          then fails (invalid ''cannot settle state'') l
          else then_delete (recordReleaseFence l reservationID policyEpoch topologyLockID) reservationID)"

definition SettleDrainedReservation ::
  "ext \<Rightarrow> ledger \<Rightarrow> string \<Rightarrow> string \<Rightarrow> string \<Rightarrow> string \<Rightarrow> string \<Rightarrow> int \<Rightarrow> bool \<Rightarrow> bool \<Rightarrow> bool \<Rightarrow> outcome" where
  "SettleDrainedReservation E l reservationID ledgerUID topologyLockID childUID sessionToken policyEpoch
       outcomeResolved healthGatePassed workloadRecoveryPassed =
     (if l_UID l \<noteq> ledgerUID then fails wrong_ledger l
      else if \<not> validDrainSessionToken E sessionToken
      then fails (invalid ''drain session token is not a canonical UUIDv4'') l
      else if \<not> validBoundedIdentity childUID 128 \<or> \<not> outcomeResolved \<or> \<not> healthGatePassed \<or>
              \<not> workloadRecoveryPassed
      then fails (invalid ''drain settlement evidence incomplete'') l
      else case reservation_at l reservationID of
        None \<Rightarrow> recordDrainReleaseFence E l reservationID policyEpoch topologyLockID childUID sessionToken
      | Some r \<Rightarrow>
          if rq_PolicyEpoch r \<noteq> policyEpoch \<or> rq_TopologyLockID r \<noteq> topologyLockID then fails stale l
          else if r_ChildUID r \<noteq> childUID then fails (invalid ''drain settlement evidence incomplete'') l
          else if r_State r = ReservationBound
          then if hasDrainProvenance r
               then fails (invalid ''bound drain intent carries partial ledger provenance'') l
               else then_delete
                 (recordDrainReleaseFence E l reservationID policyEpoch topologyLockID childUID sessionToken)
                 reservationID
          else if r_DrainSessionToken r \<noteq> sessionToken
          then fails (invalid ''drain settlement evidence incomplete'') l
          else if r_State r \<in> {ReservationDraining, ReservationGranted, ReservationRevoked}
          then then_delete
                 (recordDrainReleaseFence E l reservationID policyEpoch topologyLockID childUID sessionToken)
                 reservationID
          else fails (invalid ''cannot settle drain state'') l)"

definition releaseUnclaimed ::
  "ledger \<Rightarrow> string \<Rightarrow> string \<Rightarrow> string \<Rightarrow> 64 word \<Rightarrow> int \<Rightarrow> outcome" where
  "releaseUnclaimed l reservationID topologyLockID childUID controlRevision policyEpoch =
     (case reservation_at l reservationID of
        None \<Rightarrow>
          if releaseFenceMatches (l_LastReleaseFence l) reservationID policyEpoch topologyLockID \<and>
             fence_token l \<noteq> []
          then fails (invalid ''drain reservation cannot use unclaimed release'') l
          else recordReleaseFence l reservationID policyEpoch topologyLockID
      | Some r \<Rightarrow>
          if rq_PolicyEpoch r \<noteq> policyEpoch \<or> rq_TopologyLockID r \<noteq> topologyLockID then fails stale l
          else if controlRevision < rq_ControlRevision r then fails stale l
          else if r_DrainSessionToken r \<noteq> []
          then fails (invalid ''drain reservation cannot use unclaimed release'') l
          else case r_State r of
            ReservationReserved \<Rightarrow>
              if r_ChildUID r \<noteq> [] then fails (invalid ''reserved entry has an unexpected child binding'') l
              else then_delete (recordReleaseFence l reservationID policyEpoch topologyLockID) reservationID
          | ReservationRevoked \<Rightarrow>
              if TrimSpace childUID = [] \<or> r_ChildUID r \<noteq> childUID
              then fails (invalid ''reservation is not bound to the proven child'') l
              else then_delete (recordReleaseFence l reservationID policyEpoch topologyLockID) reservationID
          | _ \<Rightarrow> fails (invalid ''cannot release state before an exact unclaimed revocation'') l)"

definition ReleaseUnclaimedAtEpoch ::
  "ledger \<Rightarrow> string \<Rightarrow> string \<Rightarrow> string \<Rightarrow> 64 word \<Rightarrow> int \<Rightarrow> outcome" where
  "ReleaseUnclaimedAtEpoch l reservationID topologyLockID childUID controlRevision policyEpoch =
     (if policyEpoch < 1 then fails stale l
      else releaseUnclaimed l reservationID topologyLockID childUID controlRevision policyEpoch)"

definition FenceUnboundAcquisition :: "ledger \<Rightarrow> string \<Rightarrow> int \<Rightarrow> string \<Rightarrow> outcome" where
  "FenceUnboundAcquisition l reservationID policyEpoch topologyLockID =
     (let record = then_delete (recordReleaseFence l reservationID policyEpoch topologyLockID) reservationID
      in case reservation_at l reservationID of
           None \<Rightarrow> record
         | Some r \<Rightarrow>
             if rq_PolicyEpoch r \<noteq> policyEpoch \<or> rq_TopologyLockID r \<noteq> topologyLockID then fails stale l
             else if r_State r \<noteq> ReservationReserved \<or> r_ChildUID r \<noteq> []
             then fails (invalid ''topology-lock acquisition is already bound'') l
             else record)"

end
