(* ===== verification/Go_Json.thy ===== *)
theory Go_Json
  imports Go_Text
begin

text \<open>
  The part of \<^verbatim>\<open>encoding/json\<close> the repository relies on: printing a value
  the way \<^verbatim>\<open>json.Marshal\<close> does (no white space, HTML-safe string escapes,
  object members in the given order) and reading one the way \<^verbatim>\<open>json.Decoder\<close>
  does. A number keeps its literal text, since its meaning depends on the Go type it is read
  into.
\<close>

datatype json =
    JNull
  | JBool bool
  | JNum string
  | JStr string
  | JArr "json list"
  | JObj "(string \<times> json) list"

subsection \<open>UTF-8\<close>

abbreviation is_cont :: "char \<Rightarrow> bool" where
  "is_cont c \<equiv> 0x80 \<le> byte_of c \<and> byte_of c \<le> 0xBF"

definition between :: "nat \<Rightarrow> char \<Rightarrow> nat \<Rightarrow> bool" where
  "between a c b \<longleftrightarrow> a \<le> byte_of c \<and> byte_of c \<le> b"

text \<open>
  The number of bytes of the well-formed multi-byte sequence at the head, 0 when there is
  none (\<^verbatim>\<open>utf8.DecodeRune\<close> then reports an error of width 1).
\<close>

fun utf8_width :: "string \<Rightarrow> nat" where
  "utf8_width (a # b # c # d # _) =
     (if between 0xC2 a 0xDF \<and> is_cont b then 2
      else if (between 0xE0 a 0xE0 \<and> between 0xA0 b 0xBF \<or> between 0xED a 0xED \<and> between 0x80 b 0x9F \<or>
               (between 0xE1 a 0xEC \<or> between 0xEE a 0xEF) \<and> is_cont b) \<and> is_cont c then 3
      else if (between 0xF0 a 0xF0 \<and> between 0x90 b 0xBF \<or> between 0xF4 a 0xF4 \<and> between 0x80 b 0x8F \<or>
               between 0xF1 a 0xF3 \<and> is_cont b) \<and> is_cont c \<and> is_cont d then 4
      else 0)"
| "utf8_width (a # b # c # []) =
     (if between 0xC2 a 0xDF \<and> is_cont b then 2
      else if (between 0xE0 a 0xE0 \<and> between 0xA0 b 0xBF \<or> between 0xED a 0xED \<and> between 0x80 b 0x9F \<or>
               (between 0xE1 a 0xEC \<or> between 0xEE a 0xEF) \<and> is_cont b) \<and> is_cont c then 3
      else 0)"
| "utf8_width (a # b # []) = (if between 0xC2 a 0xDF \<and> is_cont b then 2 else 0)"
| "utf8_width _ = 0"

definition utf8_encode :: "nat \<Rightarrow> string" where
  "utf8_encode n =
     (if n < 0x80 then [char_of n]
      else if n < 0x800 then [char_of (0xC0 + n div 64), char_of (0x80 + n mod 64)]
      else if n < 0x10000
      then [char_of (0xE0 + n div 4096), char_of (0x80 + n div 64 mod 64), char_of (0x80 + n mod 64)]
      else [char_of (0xF0 + n div 262144), char_of (0x80 + n div 4096 mod 64),
            char_of (0x80 + n div 64 mod 64), char_of (0x80 + n mod 64)])"

abbreviation replacement_char :: string where
  "replacement_char \<equiv> [CHR 0xEF, CHR 0xBF, CHR 0xBD]"

subsection \<open>Printing\<close>

definition html_safe :: "char \<Rightarrow> bool" where
  "html_safe c \<longleftrightarrow> 0x20 \<le> byte_of c \<and> byte_of c < 0x80 \<and>
     c \<notin> {CHR 0x22, CHR 0x5C, CHR ''<'', CHR ''>'', CHR ''&''}"

definition escape_byte :: "char \<Rightarrow> string" where
  "escape_byte c =
     (if c = CHR 0x5C \<or> c = CHR 0x22 then [CHR 0x5C, c]
      else if c = CHR 0x08 then [CHR 0x5C, CHR ''b'']
      else if c = CHR 0x0C then [CHR 0x5C, CHR ''f'']
      else if c = CHR 0x0A then [CHR 0x5C, CHR ''n'']
      else if c = CHR 0x0D then [CHR 0x5C, CHR ''r'']
      else if c = CHR 0x09 then [CHR 0x5C, CHR ''t'']
      else [CHR 0x5C, CHR ''u'', CHR ''0'', CHR ''0'', hex_digit (byte_of c div 16), hex_digit (byte_of c mod 16)])"

function escape :: "string \<Rightarrow> string" where
  "escape [] = []"
| "escape (c # s) =
     (if byte_of c < 0x80 then (if html_safe c then [c] else escape_byte c) @ escape s
      else if utf8_width (c # s) = 0
      then [CHR 0x5C, CHR ''u'', CHR ''f'', CHR ''f'', CHR ''f'', CHR ''d''] @ escape s
      else (if take 3 (c # s) = [CHR 0xE2, CHR 0x80, CHR 0xA8] then CHR 0x5C # ''u2028''
            else if take 3 (c # s) = [CHR 0xE2, CHR 0x80, CHR 0xA9] then CHR 0x5C # ''u2029''
            else take (utf8_width (c # s)) (c # s)) @ escape (drop (utf8_width (c # s) - 1) s))"
  by pat_completeness auto
termination by (relation "measure length") auto

definition quote :: "string \<Rightarrow> string" where
  "quote s = CHR 0x22 # escape s @ [CHR 0x22]"

fun join :: "string \<Rightarrow> string list \<Rightarrow> string" where
  "join sep [] = []"
| "join sep [x] = x"
| "join sep (x # y # xs) = x @ sep @ join sep (y # xs)"

fun render :: "json \<Rightarrow> string" where
  "render JNull = ''null''"
| "render (JBool b) = (if b then ''true'' else ''false'')"
| "render (JNum t) = t"
| "render (JStr s) = quote s"
| "render (JArr xs) = ''['' @ join '','' (map render xs) @ '']''"
| "render (JObj ms) = ''{'' @ join '','' (map (\<lambda>(k, v). quote k @ '':'' @ render v) ms) @ ''}''"

subsection \<open>Reading strings and numbers\<close>

fun skip_ws :: "string \<Rightarrow> string" where
  "skip_ws (c # s) = (if c \<in> {CHR 0x20, CHR 0x09, CHR 0x0D, CHR 0x0A} then skip_ws s else c # s)"
| "skip_ws [] = []"

definition hex_val :: "char \<Rightarrow> nat" where
  "hex_val c = (if is_digit c then byte_of c - 0x30
     else if byte_of c \<ge> 0x61 then byte_of c - 0x57 else byte_of c - 0x37)"

fun hex4 :: "string \<Rightarrow> (nat \<times> string) option" where
  "hex4 (a # b # c # d # s) =
     (if list_all is_hex [a, b, c, d]
      then Some (((hex_val a * 16 + hex_val b) * 16 + hex_val c) * 16 + hex_val d, s) else None)"
| "hex4 _ = None"

definition is_surrogate :: "nat \<Rightarrow> bool" where
  "is_surrogate n \<longleftrightarrow> 0xD800 \<le> n \<and> n < 0xE000"

text \<open>After the code unit \<open>n\<close>: the bytes it stands for, and the input that is left.\<close>

definition unicode_escape :: "nat \<Rightarrow> string \<Rightarrow> string \<times> string" where
  "unicode_escape n s =
     (if \<not> is_surrogate n then (utf8_encode n, s)
      else if n < 0xDC00 \<and> take 2 s = [CHR 0x5C, CHR ''u''] then
        (case hex4 (drop 2 s) of
           Some (m, s') \<Rightarrow>
             if 0xDC00 \<le> m \<and> m < 0xE000
             then (utf8_encode (0x10000 + (n - 0xD800) * 1024 + (m - 0xDC00)), s')
             else (replacement_char, s)
         | None \<Rightarrow> (replacement_char, s))
      else (replacement_char, s))"

definition simple_escape :: "char \<Rightarrow> char option" where
  "simple_escape c =
     (if c \<in> {CHR 0x22, CHR 0x5C, CHR ''/''} then Some c
      else if c = CHR ''b'' then Some (CHR 0x08)
      else if c = CHR ''f'' then Some (CHR 0x0C)
      else if c = CHR ''n'' then Some (CHR 0x0A)
      else if c = CHR ''r'' then Some (CHR 0x0D)
      else if c = CHR ''t'' then Some (CHR 0x09)
      else None)"

text \<open>
  What one character or escape of a string literal stands for, and the input that is left;
  then the body of a literal up to and including its closing quote. The result of
  \<open>shorter\<close> is its second argument when that leaves less than the first; every reader does,
  and the comparison only makes this visible to the recursion.
\<close>

fun read_char :: "string \<Rightarrow> (string \<times> string) option" where
  "read_char [] = None"
| "read_char (c # s) =
     (if byte_of c < 0x20 then None
      else if c = CHR 0x5C then
        (case s of
           [] \<Rightarrow> None
         | e # s1 \<Rightarrow>
             if e = CHR ''u'' then map_option (\<lambda>(n, s2). unicode_escape n s2) (hex4 s1)
             else map_option (\<lambda>b. ([b], s1)) (simple_escape e))
      else if byte_of c < 0x80 then Some ([c], s)
      else if utf8_width (c # s) = 0 then Some (replacement_char, s)
      else Some (take (utf8_width (c # s)) (c # s), drop (utf8_width (c # s) - 1) s))"

definition shorter :: "string \<Rightarrow> ('a \<times> string) option \<Rightarrow> ('a \<times> string) option" where
  "shorter s r = (case r of None \<Rightarrow> None | Some (v, rest) \<Rightarrow> if length rest < length s then r else None)"

lemma shorter_SomeD: "shorter s r = Some (v, rest) \<Longrightarrow> r = Some (v, rest) \<and> length rest < length s"
  by (auto simp: shorter_def split: option.splits prod.splits if_splits)

function read_string :: "string \<Rightarrow> (string \<times> string) option" where
  "read_string [] = None"
| "read_string (c # s) =
     (if c = CHR 0x22 then Some ([], s)
      else case shorter (c # s) (read_char (c # s)) of
             None \<Rightarrow> None
           | Some (b, r) \<Rightarrow> map_option (apfst (append b)) (read_string r))"
  by pat_completeness auto
termination by (relation "measure length") (auto dest!: shorter_SomeD)

declare read_string.simps(2) [simp del]

fun span_digits :: "string \<Rightarrow> string \<times> string" where
  "span_digits (c # s) = (if is_digit c then (c # fst (span_digits s), snd (span_digits s)) else ([], c # s))"
| "span_digits [] = ([], [])"

text \<open>Integer part, fraction and exponent of a number literal; each may be refused.\<close>

definition read_int_part :: "string \<Rightarrow> (string \<times> string) option" where
  "read_int_part s =
     (case s of
        [] \<Rightarrow> None
      | c # r \<Rightarrow> if c = CHR ''0'' then Some ([c], r)
                else if is_digit c then Some (span_digits s) else None)"

definition read_frac :: "string \<Rightarrow> (string \<times> string) option" where
  "read_frac s =
     (case s of
        [] \<Rightarrow> Some ([], s)
      | c # r \<Rightarrow> if c = CHR ''.'' then
                  (case span_digits r of (ds, rest) \<Rightarrow> if ds = [] then None else Some (c # ds, rest))
                else Some ([], s))"

definition read_exp :: "string \<Rightarrow> (string \<times> string) option" where
  "read_exp s =
     (case s of
        [] \<Rightarrow> Some ([], s)
      | c # r \<Rightarrow>
          if c = CHR ''e'' \<or> c = CHR ''E'' then
            (let sign = (if r \<noteq> [] \<and> (hd r = CHR ''+'' \<or> hd r = CHR ''-'') then [hd r] else []);
                 (ds, rest) = span_digits (drop (length sign) r)
             in if ds = [] then None else Some (c # sign @ ds, rest))
          else Some ([], s))"

definition read_number :: "string \<Rightarrow> (string \<times> string) option" where
  "read_number s =
     (let minus = (if s \<noteq> [] \<and> hd s = CHR ''-'' then ''-'' else [])
      in case read_int_part (drop (length minus) s) of
           None \<Rightarrow> None
         | Some (i, s1) \<Rightarrow>
             (case read_frac s1 of
                None \<Rightarrow> None
              | Some (f, s2) \<Rightarrow>
                  (case read_exp s2 of
                     None \<Rightarrow> None
                   | Some (e, s3) \<Rightarrow> Some (minus @ i @ f @ e, s3))))"

subsection \<open>Reading values\<close>

text \<open>
  A value, the elements of an array after its opening bracket, and the members of an object
  after its opening brace.
\<close>

lemma length_skip_ws: "length (skip_ws s) \<le> length s"
  by (induction s) auto

lemma skip_ws_ConsD: "skip_ws s = c # r \<Longrightarrow> length r < length s"
  using length_skip_ws [of s] by simp

function parse_value :: "string \<Rightarrow> (json \<times> string) option"
  and parse_elems :: "string \<Rightarrow> (json list \<times> string) option"
  and parse_members :: "string \<Rightarrow> ((string \<times> json) list \<times> string) option" where
  "parse_value s =
     (case skip_ws s of
        [] \<Rightarrow> None
      | c # r \<Rightarrow>
          if c = CHR 0x22 then map_option (apfst JStr) (read_string r)
          else if c = CHR ''['' then
            (if take 1 (skip_ws r) = '']'' then Some (JArr [], drop 1 (skip_ws r))
             else map_option (apfst JArr) (parse_elems r))
          else if c = CHR ''{'' then
            (if take 1 (skip_ws r) = ''}'' then Some (JObj [], drop 1 (skip_ws r))
             else map_option (apfst JObj) (parse_members r))
          else if take 4 (c # r) = ''null'' then Some (JNull, drop 3 r)
          else if take 4 (c # r) = ''true'' then Some (JBool True, drop 3 r)
          else if take 5 (c # r) = ''false'' then Some (JBool False, drop 4 r)
          else map_option (apfst JNum) (read_number (c # r)))"
| "parse_elems s =
     (case shorter s (parse_value s) of
        None \<Rightarrow> None
      | Some (v, rest) \<Rightarrow>
          (case skip_ws rest of
             [] \<Rightarrow> None
           | c # r \<Rightarrow>
               if c = CHR '','' then map_option (apfst (Cons v)) (parse_elems r)
               else if c = CHR '']'' then Some ([v], r) else None))"
| "parse_members s =
     (case skip_ws s of
        [] \<Rightarrow> None
      | c # r \<Rightarrow>
          if c \<noteq> CHR 0x22 then None
          else (case shorter r (read_string r) of
            None \<Rightarrow> None
          | Some (k, r1) \<Rightarrow>
              (case skip_ws r1 of
                 [] \<Rightarrow> None
               | c1 # r2 \<Rightarrow>
                   if c1 \<noteq> CHR '':'' then None
                   else (case shorter r2 (parse_value r2) of
                     None \<Rightarrow> None
                   | Some (v, rest) \<Rightarrow>
                       (case skip_ws rest of
                          [] \<Rightarrow> None
                        | c2 # r3 \<Rightarrow>
                            if c2 = CHR '','' then map_option (apfst (Cons (k, v))) (parse_members r3)
                            else if c2 = CHR ''}'' then Some ([(k, v)], r3) else None)))))"
  by pat_completeness auto
termination
proof (relation "measure (case_sum (\<lambda>s. 2 * length s) (case_sum (\<lambda>s. 2 * length s + 1) (\<lambda>s. 2 * length s + 1)))",
    goal_cases)
qed (auto dest!: shorter_SomeD skip_ws_ConsD)

declare parse_value.simps [simp del] parse_elems.simps [simp del] parse_members.simps [simp del]

section \<open>The readers consume their input\<close>

lemma hex4_shorter: "hex4 s = Some (n, s') \<Longrightarrow> length s' < length s"
  by (induction s rule: hex4.induct) (auto split: if_splits)

lemma unicode_escape_shorter: "unicode_escape n s = (b, s') \<Longrightarrow> length s' \<le> length s"
  by (auto simp: unicode_escape_def split: if_splits option.splits dest!: hex4_shorter)

lemma read_char_shorter: "read_char s = Some (b, r) \<Longrightarrow> length r < length s"
  by (cases s) (auto split: if_splits list.splits dest!: hex4_shorter unicode_escape_shorter)

lemma shorter_read_char [simp]: "shorter s (read_char s) = read_char s"
  by (auto simp: shorter_def split: option.splits dest: read_char_shorter)

lemma read_string_shorter: "read_string s = Some (t, rest) \<Longrightarrow> length rest < length s"
proof (induction s arbitrary: t rule: read_string.induct)
  case (2 c s)
  show ?case
  proof (cases "c = CHR 0x22")
    case True
    with 2(2) show ?thesis by (simp add: read_string.simps)
  next
    case False
    with 2(2) obtain b r t' where r: "read_char (c # s) = Some (b, r)" "read_string r = Some (t', rest)"
      by (auto simp: read_string.simps simp del: read_char.simps split: option.splits)
    then have "shorter (c # s) (read_char (c # s)) = Some (b, r)"
      unfolding shorter_read_char by simp
    from 2(1) [OF False this refl r(2)] have "length rest < length r" .
    with read_char_shorter [OF r(1)] show ?thesis by simp
  qed
qed simp

lemma shorter_read_string [simp]: "shorter s (read_string s) = read_string s"
  by (auto simp: shorter_def split: option.splits dest: read_string_shorter)

lemma span_digits_le: "length (snd (span_digits s)) \<le> length s"
  by (induction s) auto

lemma read_number_shorter:
  assumes "read_number s = Some (t, rest)"
  shows "length rest < length s"
proof -
  have int: "read_int_part u = Some (i, v) \<Longrightarrow> length v < length u" for u i v
    using span_digits_le [of "tl u"] by (auto simp: read_int_part_def split: list.splits if_splits)
  have frac: "read_frac u = Some (i, v) \<Longrightarrow> length v \<le> length u" for u i v
    using span_digits_le [of "tl u"] by (auto simp: read_frac_def split: list.splits if_splits prod.splits)
  have exp: "read_exp u = Some (i, v) \<Longrightarrow> length v \<le> length u" for u i v
    using span_digits_le [of "tl u"] span_digits_le [of "tl (tl u)"]
    by (auto simp: read_exp_def Let_def drop_Suc split: list.splits if_splits prod.splits)
  show ?thesis
    using assms
    by (auto simp: read_number_def Let_def split: option.splits if_splits dest!: int frac exp) linarith
qed

lemma parse_elemsE:
  assumes "parse_elems s = Some (vs, rest)"
  obtains v u c r where "parse_value s = Some (v, u)" "length u < length s" "skip_ws u = c # r"
    and "c = CHR '','' \<and> (\<exists>vs'. parse_elems r = Some (vs', rest)) \<or> r = rest"
  using assms
  by (auto simp: parse_elems.simps [of s] split: option.splits list.splits if_splits dest!: shorter_SomeD)

lemma parse_membersE:
  assumes "parse_members s = Some (ms, rest)"
  obtains c r k r1 c1 r2 v u c2 r3 where "skip_ws s = c # r" "read_string r = Some (k, r1)"
    and "skip_ws r1 = c1 # r2" "parse_value r2 = Some (v, u)" "length u < length r2"
    and "skip_ws u = c2 # r3"
    and "c2 = CHR '','' \<and> (\<exists>ms'. parse_members r3 = Some (ms', rest)) \<or> r3 = rest"
  using assms
  by (auto simp: parse_members.simps [of s] split: option.splits list.splits if_splits dest!: shorter_SomeD)

lemma parse_elems_shorter: "parse_elems s = Some (vs, rest) \<Longrightarrow> length rest < length s"
proof (induction "length s" arbitrary: s vs rule: less_induct)
  case less
  from less(2) obtain v u c r where e: "length u < length s" "skip_ws u = c # r"
    "c = CHR '','' \<and> (\<exists>vs'. parse_elems r = Some (vs', rest)) \<or> r = rest"
    by (rule parse_elemsE)
  then have "length r < length s" using skip_ws_ConsD [of u c r] by simp
  then show ?case using e(3) less(1) [of r] by auto
qed

lemma parse_members_shorter: "parse_members s = Some (ms, rest) \<Longrightarrow> length rest < length s"
proof (induction "length s" arbitrary: s ms rule: less_induct)
  case less
  from less(2) obtain c r k r1 c1 r2 v u c2 r3 where m: "skip_ws s = c # r" "read_string r = Some (k, r1)"
    "skip_ws r1 = c1 # r2" "length u < length r2" "skip_ws u = c2 # r3"
    "c2 = CHR '','' \<and> (\<exists>ms'. parse_members r3 = Some (ms', rest)) \<or> r3 = rest"
    by (rule parse_membersE)
  then have "length r3 < length s"
    using skip_ws_ConsD [of s c r] skip_ws_ConsD [of r1 c1 r2] skip_ws_ConsD [of u c2 r3]
      read_string_shorter [of r k r1] by simp
  then show ?case using m(6) less(1) [of r3] by auto
qed

lemma length_skip_ws_less: "length s < n \<Longrightarrow> length (skip_ws s) - k < n"
  using length_skip_ws [of s] by linarith

lemma parse_value_shorter: "parse_value s = Some (v, rest) \<Longrightarrow> length rest < length s"
  by (auto simp: parse_value.simps [of s] split: list.splits if_splits
      intro: length_skip_ws_less
      dest!: skip_ws_ConsD read_string_shorter read_number_shorter parse_elems_shorter parse_members_shorter)

lemma shorter_parse_value [simp]: "shorter s (parse_value s) = parse_value s"
  by (auto simp: shorter_def split: option.splits dest: parse_value_shorter)

text \<open>Since every reader leaves less than it was given, the comparisons can be dropped.\<close>

lemma parse_elems_eq:
  "parse_elems s =
     (case parse_value s of
        None \<Rightarrow> None
      | Some (v, rest) \<Rightarrow>
          (case skip_ws rest of
             [] \<Rightarrow> None
           | c # r \<Rightarrow>
               if c = CHR '','' then map_option (apfst (Cons v)) (parse_elems r)
               else if c = CHR '']'' then Some ([v], r) else None))"
  by (subst parse_elems.simps) (simp only: shorter_parse_value)

lemma parse_members_eq:
  "parse_members s =
     (case skip_ws s of
        [] \<Rightarrow> None
      | c # r \<Rightarrow>
          if c \<noteq> CHR 0x22 then None
          else (case read_string r of
            None \<Rightarrow> None
          | Some (k, r1) \<Rightarrow>
              (case skip_ws r1 of
                 [] \<Rightarrow> None
               | c1 # r2 \<Rightarrow>
                   if c1 \<noteq> CHR '':'' then None
                   else (case parse_value r2 of
                     None \<Rightarrow> None
                   | Some (v, rest) \<Rightarrow>
                       (case skip_ws rest of
                          [] \<Rightarrow> None
                        | c2 # r3 \<Rightarrow>
                            if c2 = CHR '','' then map_option (apfst (Cons (k, v))) (parse_members r3)
                            else if c2 = CHR ''}'' then Some ([(k, v)], r3) else None)))))"
  by (subst parse_members.simps) (simp only: shorter_parse_value shorter_read_string)

section \<open>Reading back what was printed\<close>

definition ascii :: "string \<Rightarrow> bool" where
  "ascii s \<longleftrightarrow> list_all (\<lambda>c. byte_of c < 0x80) s"

fun json_ok :: "json \<Rightarrow> bool" where
  "json_ok (JNum t) \<longleftrightarrow> (\<exists>i. t = show_int i)"
| "json_ok (JStr s) \<longleftrightarrow> ascii s"
| "json_ok (JArr xs) \<longleftrightarrow> list_all json_ok xs"
| "json_ok (JObj ms) \<longleftrightarrow> list_all (\<lambda>(k, v). ascii k \<and> json_ok v) ms"
| "json_ok _ \<longleftrightarrow> True"

lemma ascii_Nil [simp]: "ascii []"
  by (simp add: ascii_def)

lemma ascii_Cons [simp]: "ascii (c # s) \<longleftrightarrow> byte_of c < 0x80 \<and> ascii s"
  by (simp add: ascii_def)

lemma ascii_append [simp]: "ascii (s @ t) \<longleftrightarrow> ascii s \<and> ascii t"
  by (simp add: ascii_def)

lemma graphic_ascii: "list_all is_graphic s \<Longrightarrow> ascii s"
  by (auto simp: ascii_def is_graphic_def list_all_iff)

lemma ascii_subset: "set s \<subseteq> set t \<Longrightarrow> ascii t \<Longrightarrow> ascii s"
  by (auto simp: ascii_def list_all_iff)

lemma ascii_join: "ascii sep \<Longrightarrow> list_all ascii xs \<Longrightarrow> ascii (join sep xs)"
  by (induction sep xs rule: join.induct) auto

lemma hex_digit_hex: "n < 16 \<Longrightarrow> is_hex (hex_digit n) \<and> hex_val (hex_digit n) = n"
  by (auto simp: hex_digit_def is_hex_def is_lower_hex_def is_digit_def hex_val_def)

lemma ascii_hex_digit: "n < 16 \<Longrightarrow> byte_of (hex_digit n) < 0x80"
  using hex_digit_hex [of n] by (auto simp: is_hex_def is_lower_hex_def is_digit_def)

lemma ascii_quote: "ascii s \<Longrightarrow> ascii (quote s)"
proof -
  have "ascii s \<Longrightarrow> ascii (escape s)"
  proof (induction s)
    case (Cons c s)
    then have "byte_of c div 16 < 16" "byte_of c mod 16 < 16" "byte_of c < 0x80" by auto
    then have "ascii (escape_byte c)" by (simp add: escape_byte_def ascii_hex_digit)
    with Cons show ?case by simp
  qed simp
  then show "ascii s \<Longrightarrow> ascii (quote s)" by (simp add: quote_def)
qed

lemma ascii_hex_encode: "ascii (hex_encode bs)"
proof -
  have "unat b div 16 < 16" for b :: "8 word" using unsigned_less [of b, where ?'a = nat] by (simp add: less_mult_imp_div_less)
  then show ?thesis by (auto simp: hex_encode_def ascii_def list_all_iff intro!: ascii_hex_digit)
qed

lemma ascii_TrimSpace: "ascii s \<Longrightarrow> ascii (TrimSpace s)"
  using ascii_subset set_TrimSpace by blast

lemma escape_append: "ascii a \<Longrightarrow> escape (a @ b) = escape a @ escape b"
  by (induction a) auto

lemma length_escape_ge: "ascii s \<Longrightarrow> length s \<le> length (escape s)"
proof (induction s)
  case (Cons c s)
  moreover have "1 \<le> length (escape_byte c)" by (simp add: escape_byte_def)
  ultimately show ?case by auto
qed simp

lemma escape_safe: "list_all html_safe s \<Longrightarrow> escape s = s"
  by (induction s) (auto simp: html_safe_def)

lemma length_quote_TrimSpace: "ascii s \<Longrightarrow> length (quote (TrimSpace s)) \<le> length (quote s)"
proof -
  assume a: "ascii s"
  obtain u v where s: "s = u @ TrimSpace s @ v" using TrimSpace_middle by blast
  then have "ascii u" "ascii (TrimSpace s)" using a by (metis ascii_append)+
  then have "escape s = escape u @ escape (TrimSpace s) @ escape v" using s escape_append by metis
  then show ?thesis by (simp add: quote_def)
qed

lemma length_join: "length (join sep xs) = sum_list (map length xs) + (length xs - 1) * length sep"
  by (induction sep xs rule: join.induct) auto

lemma ascii_char_cases: "byte_of c < 0x80 \<Longrightarrow> utf8_encode (byte_of c) = [c]"
  by (simp add: utf8_encode_def)

lemma read_char_escape_byte:
  assumes "byte_of c < 0x80" "\<not> html_safe c"
  shows "read_char (escape_byte c @ s) = Some ([c], s)"
proof (cases "c \<in> {CHR 0x5C, CHR 0x22, CHR 0x08, CHR 0x0C, CHR 0x0A, CHR 0x0D, CHR 0x09}")
  case False
  then have esc: "escape_byte c =
      [CHR 0x5C, CHR ''u'', CHR ''0'', CHR ''0'', hex_digit (byte_of c div 16), hex_digit (byte_of c mod 16)]"
    by (simp add: escape_byte_def)
  have "hex4 (CHR ''0'' # CHR ''0'' # hex_digit (byte_of c div 16) # hex_digit (byte_of c mod 16) # s)
      = Some (byte_of c, s)"
    using assms(1) hex_digit_hex [of "byte_of c div 16"] hex_digit_hex [of "byte_of c mod 16"]
    by (simp add: is_hex_def is_lower_hex_def is_digit_def hex_val_def)
  with esc assms(1) show ?thesis
    by (simp add: unicode_escape_def is_surrogate_def ascii_char_cases del: hex4.simps)
qed (auto simp: escape_byte_def simple_escape_def)

lemma read_string_escape: "ascii s \<Longrightarrow> read_string (escape s @ CHR 0x22 # rest) = Some (s, rest)"
proof (induction s)
  case (Cons c s)
  then have c: "byte_of c < 0x80" and s: "read_string (escape s @ CHR 0x22 # rest) = Some (s, rest)"
    by (auto simp: ascii_def)
  have step: "read_string (u @ w) = map_option (apfst (append [c])) (read_string w)"
    if "u \<noteq> []" "hd u \<noteq> CHR 0x22" "read_char (u @ w) = Some ([c], w)" for u w
    using that shorter_read_char [of "u @ w"]
    by (cases u) (auto simp: read_string.simps(2) simp del: read_char.simps shorter_read_char)
  show ?case
  proof (cases "html_safe c")
    case True
    then have "read_char ([c] @ w) = Some ([c], w)" for w by (auto simp: html_safe_def)
    from step [OF _ _ this] True c s show ?thesis by (simp add: html_safe_def)
  next
    case False
    have "escape_byte c \<noteq> []" "hd (escape_byte c) \<noteq> CHR 0x22" by (auto simp: escape_byte_def)
    from step [OF this read_char_escape_byte [OF c False]] False c s show ?thesis by simp
  qed
qed (simp add: read_string.simps)

text \<open>What may follow a value inside an array or object, or at the end of the input.\<close>

definition delim :: "string \<Rightarrow> bool" where
  "delim s \<longleftrightarrow> s = [] \<or> hd s \<in> {CHR '','', CHR '']'', CHR ''}''}"

lemma delim_simps [simp]: "delim []" "delim (CHR '','' # s)" "delim (CHR '']'' # s)" "delim (CHR ''}'' # s)"
  by (simp_all add: delim_def)

lemma span_digits_append:
  "list_all is_digit ds \<Longrightarrow> delim rest \<Longrightarrow> span_digits (ds @ rest) = (ds, rest)"
proof (induction ds)
  case Nil
  then show ?case by (cases rest) (auto simp: delim_def is_digit_def)
qed auto

lemma hd_show_nat: "hd (show_nat n) = CHR ''0'' \<Longrightarrow> n = 0"
proof (induction n rule: show_nat.induct)
  case (1 n)
  show ?case
  proof (cases "n < 10")
    case True
    then have "byte_of (hd (show_nat n)) = 0x30 + n" by (subst show_nat.simps) (simp add: digit_char_def)
    with 1(2) show ?thesis by simp
  next
    case False
    then have "hd (show_nat n) = hd (show_nat (n div 10))"
      using show_nat_digits [of "n div 10"] by (subst show_nat.simps) simp
    with 1 False have "n div 10 = 0" by simp
    with False show ?thesis by simp
  qed
qed

lemma read_int_part_show_nat:
  assumes "delim rest"
  shows "read_int_part (show_nat n @ rest) = Some (show_nat n, rest)"
proof -
  obtain c ds where n: "show_nat n = c # ds" and d: "is_digit c" "list_all is_digit ds"
    using show_nat_digits [of n] by (cases "show_nat n") auto
  show ?thesis
  proof (cases "c = CHR ''0''")
    case True
    then have "n = 0" using hd_show_nat [of n] n by simp
    with n have "ds = []" by (simp add: show_nat.simps)
    with n True show ?thesis by (simp add: read_int_part_def)
  next
    case False
    then show ?thesis
      using span_digits_append [of "c # ds" rest] n d assms by (simp add: read_int_part_def)
  qed
qed

lemma read_number_show_int:
  assumes "delim rest"
  shows "read_number (show_int i @ rest) = Some (show_int i, rest)"
proof -
  have tails: "read_frac rest = Some ([], rest)" "read_exp rest = Some ([], rest)"
    using assms by (cases rest; auto simp: read_frac_def read_exp_def delim_def)+
  have "hd (show_nat n) \<noteq> CHR ''-''" for n
    using show_nat_digits [of n] by (cases "show_nat n") (auto simp: is_digit_def)
  then show ?thesis
    using tails read_int_part_show_nat [OF assms] show_nat_digits
    by (simp add: read_number_def show_int_def)
qed

text \<open>The first character of a printed value neither closes a bracket nor is white space.\<close>

definition starts :: "string \<Rightarrow> bool" where
  "starts s \<longleftrightarrow> s \<noteq> [] \<and> hd s \<notin> {CHR 0x20, CHR 0x09, CHR 0x0D, CHR 0x0A, CHR '']'', CHR ''}''}"

lemma skip_ws_starts: "starts s \<Longrightarrow> skip_ws (s @ rest) = s @ rest"
  by (cases s) (auto simp: starts_def)

lemma starts_show_int: "starts (show_int i)"
proof -
  have "starts (show_nat n)" for n
    using show_nat_digits [of n] by (cases "show_nat n") (auto simp: is_digit_def starts_def)
  then show ?thesis by (simp add: show_int_def) (simp add: starts_def)
qed

lemma starts_quote: "starts (quote s @ t)"
  by (simp add: starts_def quote_def)

lemma starts_render: "json_ok j \<Longrightarrow> starts (render j)"
  using starts_show_int by (cases j) (auto simp: starts_def quote_def)

lemma hd_show_int: "hd (show_int i) = CHR ''-'' \<or> is_digit (hd (show_int i))" "show_int i \<noteq> []"
  using show_nat_digits [of "nat i"] by (cases "show_nat (nat i)"; auto simp: show_int_def)+

definition reads_back :: "json \<Rightarrow> bool" where
  "reads_back j \<longleftrightarrow> (\<forall>rest. delim rest \<longrightarrow> parse_value (render j @ rest) = Some (j, rest))"

lemma reads_backD: "reads_back j \<Longrightarrow> delim rest \<Longrightarrow> parse_value (render j @ rest) = Some (j, rest)"
  by (simp add: reads_back_def)

lemma parse_elems_render:
  "xs \<noteq> [] \<Longrightarrow> \<forall>x \<in> set xs. reads_back x \<Longrightarrow>
   parse_elems (join '','' (map render xs) @ CHR '']'' # rest) = Some (xs, rest)"
proof (induction xs)
  case (Cons x xs)
  have x: "delim u \<Longrightarrow> parse_value (render x @ u) = Some (x, u)" for u
    using Cons.prems reads_backD by simp
  show ?case
  proof (cases xs)
    case Nil
    then show ?thesis by (subst parse_elems_eq) (simp add: x)
  next
    case (Cons y ys)
    with Cons.IH Cons.prems
    have "parse_elems (join '','' (map render xs) @ CHR '']'' # rest) = Some (xs, rest)" by simp
    with Cons show ?thesis by (subst parse_elems_eq) (simp add: x)
  qed
qed simp

abbreviation render_member :: "string \<times> json \<Rightarrow> string" where
  "render_member \<equiv> \<lambda>(k, v). quote k @ '':'' @ render v"

lemma parse_members_render:
  "ms \<noteq> [] \<Longrightarrow> \<forall>(k, v) \<in> set ms. ascii k \<and> reads_back v \<Longrightarrow>
   parse_members (join '','' (map render_member ms) @ CHR ''}'' # rest) = Some (ms, rest)"
proof (induction ms)
  case (Cons m ms)
  obtain k v where m: "m = (k, v)" "ascii k" "reads_back v" using Cons.prems by (cases m) auto
  have v: "delim u \<Longrightarrow> parse_value (render v @ u) = Some (v, u)" for u
    using m reads_backD by simp
  have k: "read_string (escape k @ CHR 0x22 # u) = Some (k, u)" for u
    by (rule read_string_escape [OF m(2)])
  show ?case
  proof (cases ms)
    case Nil
    then show ?thesis by (subst parse_members_eq) (simp add: m(1) quote_def k v)
  next
    case (Cons y ys)
    with Cons.IH Cons.prems
    have "parse_members (join '','' (map render_member ms) @ CHR ''}'' # rest) = Some (ms, rest)" by simp
    with Cons show ?thesis by (subst parse_members_eq) (simp add: m(1) quote_def k v)
  qed
qed simp

lemma starts_join: "xs \<noteq> [] \<Longrightarrow> starts (hd xs) \<Longrightarrow> starts (join sep xs)"
  by (induction sep xs rule: join.induct) (auto simp: starts_def)

lemma not_closing: "starts s \<Longrightarrow> take 1 (skip_ws (s @ u)) \<noteq> '']'' \<and> take 1 (skip_ws (s @ u)) \<noteq> ''}''"
  by (cases s) (auto simp: skip_ws_starts starts_def)

lemma reads_back_JStr: "ascii s \<Longrightarrow> reads_back (JStr s)"
  by (auto simp: reads_back_def parse_value.simps quote_def read_string_escape)

lemma parse_value_number:
  assumes "c \<notin> {CHR 0x22, CHR ''['', CHR ''{'', CHR ''n'', CHR ''t'', CHR ''f''}" "skip_ws s = c # r"
  shows "parse_value s = map_option (apfst JNum) (read_number (c # r))"
  using assms by (subst parse_value.simps) simp

lemma reads_back_JNum: "reads_back (JNum (show_int i))"
proof -
  obtain c ds where i: "show_int i = c # ds" and c: "c = CHR ''-'' \<or> is_digit c"
    using hd_show_int [of i] by (cases "show_int i") auto
  have "parse_value (show_int i @ rest) = Some (JNum (show_int i), rest)" if "delim rest" for rest
  proof -
    have "parse_value (show_int i @ rest) = map_option (apfst JNum) (read_number (c # ds @ rest))"
    proof (rule parse_value_number)
      show "skip_ws (show_int i @ rest) = c # ds @ rest"
        using skip_ws_starts [OF starts_show_int [of i], of rest] unfolding i by simp
    qed (use c in \<open>auto simp: is_digit_def\<close>)
    with read_number_show_int [OF that, of i] i show ?thesis by simp
  qed
  then show ?thesis by (simp add: reads_back_def)
qed

lemma reads_back_JArr: "\<forall>x \<in> set xs. json_ok x \<and> reads_back x \<Longrightarrow> reads_back (JArr xs)"
proof (cases "xs = []")
  case False
  assume xs: "\<forall>x \<in> set xs. json_ok x \<and> reads_back x"
  then have "starts (join '','' (map render xs))"
    using False by (intro starts_join) (auto simp: hd_map starts_render)
  then show ?thesis
    using parse_elems_render [OF False] xs not_closing
    by (simp add: reads_back_def parse_value.simps)
qed (simp add: reads_back_def parse_value.simps)

lemma reads_back_JObj: "\<forall>(k, v) \<in> set ms. ascii k \<and> reads_back v \<Longrightarrow> reads_back (JObj ms)"
proof (cases "ms = []")
  case False
  assume ms: "\<forall>(k, v) \<in> set ms. ascii k \<and> reads_back v"
  have "starts (join '','' (map render_member ms))"
    using False by (intro starts_join) (auto simp: hd_map starts_quote split: prod.splits)
  then show ?thesis
    using parse_members_render [OF False ms] not_closing
    by (simp add: reads_back_def parse_value.simps)
qed (simp add: reads_back_def parse_value.simps)

lemma json_reads_back: "json_ok j \<Longrightarrow> reads_back j"
proof (induction j)
  case (JArr xs)
  then show ?case by (intro reads_back_JArr) (auto simp: list_all_iff)
next
  case (JObj ms)
  then show ?case by (intro reads_back_JObj) (fastforce simp: list_all_iff)
qed (auto simp: reads_back_JStr reads_back_JNum, auto simp: reads_back_def parse_value.simps)

theorem parse_render: "json_ok j \<Longrightarrow> parse_value (render j) = Some (j, [])"
  using reads_backD [OF json_reads_back, of j "[]"] by simp

lemma render_inj: "json_ok i \<Longrightarrow> json_ok j \<Longrightarrow> render i = render j \<Longrightarrow> i = j"
  using reads_backD [OF json_reads_back, of i "[]"] reads_backD [OF json_reads_back, of j "[]"] by simp

end
