(* ===== verification/Go_Reflect.thy ===== *)
theory Go_Reflect
  imports Go_Json
begin

text \<open>
  The reflective part of \<^verbatim>\<open>encoding/json\<close>: how a JSON value is stored into a
  Go value of a given type and how a Go value is printed. A type is a \<open>gotype\<close>, a value a
  \<open>goval\<close>; the types of a component describe their struct tags once, and printing, reading and
  the round trip follow from the description.
\<close>

subsection \<open>Field names and numbers\<close>

text \<open>The rune folding \<^verbatim>\<open>encoding/json\<close> compares field names with: ASCII
  letters, and the two other runes whose fold is an ASCII letter.\<close>

definition upper_char :: "char \<Rightarrow> char" where
  "upper_char c = (if 0x61 \<le> byte_of c \<and> byte_of c \<le> 0x7A then char_of (byte_of c - 0x20) else c)"

function fold_name :: "string \<Rightarrow> string" where
  "fold_name [] = []"
| "fold_name (c # s) =
     (if take 3 (c # s) = [CHR 0xE2, CHR 0x84, CHR 0xAA] then CHR ''K'' # fold_name (drop 2 s)
      else if take 2 (c # s) = [CHR 0xC5, CHR 0xBF] then CHR ''S'' # fold_name (drop 1 s)
      else upper_char c # fold_name s)"
  by pat_completeness auto
termination by (relation "measure length") auto

definition match_field :: "string list \<Rightarrow> string \<Rightarrow> string option" where
  "match_field names key =
     (if key \<in> set names then Some key else find (\<lambda>n. fold_name n = fold_name key) names)"

text \<open>\<^verbatim>\<open>strconv.ParseInt\<close> and \<^verbatim>\<open>ParseUint\<close> of a number literal.\<close>

definition ParseInt64 :: "string \<Rightarrow> int option" where
  "ParseInt64 t =
     (case (if t \<noteq> [] \<and> hd t = CHR ''-'' then map_option (\<lambda>n. - int n) (read_nat (tl t))
            else map_option int (read_nat t)) of
        None \<Rightarrow> None
      | Some i \<Rightarrow> if - (2 ^ 63) \<le> i \<and> i < 2 ^ 63 then Some i else None)"

definition ParseUint64 :: "string \<Rightarrow> 64 word option" where
  "ParseUint64 t = (case read_nat t of None \<Rightarrow> None | Some n \<Rightarrow> if n < 2 ^ 64 then Some (of_nat n) else None)"

definition jint :: "int \<Rightarrow> json" where
  "jint i = JNum (show_int i)"

subsection \<open>Types and values\<close>

text \<open>
  \<open>TInt w\<close> is a signed integer of \<open>w\<close> bits. A struct field is its JSON name, its type and
  whether it is tagged \<^verbatim>\<open>omitempty\<close>.
\<close>

datatype gotype =
    TStr
  | TInt nat
  | TBool
  | TSlice gotype
  | TMap gotype
  | TPtr gotype
  | TStruct "(string \<times> gotype \<times> bool) list"

text \<open>
  \<open>GSlice alloc vs bk\<close> is a slice: whether it differs from nil, its elements, and the elements
  its backing array holds beyond them. The entries of a map are in ascending order of their
  keys; \<open>GMap None\<close> is the nil map.
\<close>

datatype goval =
    GStr string
  | GInt int
  | GBool bool
  | GSlice bool "goval list" "goval list"
  | GMap "(string \<times> goval) list option"
  | GPtr "goval option"
  | GStruct "goval list"

fun zero_val :: "gotype \<Rightarrow> goval" where
  "zero_val TStr = GStr []"
| "zero_val (TInt w) = GInt 0"
| "zero_val TBool = GBool False"
| "zero_val (TSlice t) = GSlice False [] []"
| "zero_val (TMap t) = GMap None"
| "zero_val (TPtr t) = GPtr None"
| "zero_val (TStruct fs) = GStruct (map (\<lambda>(n, t, oe). zero_val t) fs)"

fun put :: "string \<Rightarrow> 'a \<Rightarrow> (string \<times> 'a) list \<Rightarrow> (string \<times> 'a) list" where
  "put k v [] = [(k, v)]"
| "put k v ((k', v') # m) =
     (if k < k' then (k, v) # (k', v') # m else if k = k' then (k, v) # m else (k', v') # put k v m)"

subsection \<open>Printing\<close>

text \<open>The values \<^verbatim>\<open>omitempty\<close> drops.\<close>

fun is_empty :: "goval \<Rightarrow> bool" where
  "is_empty (GStr s) = (s = [])"
| "is_empty (GInt i) = (i = 0)"
| "is_empty (GBool b) = (\<not> b)"
| "is_empty (GSlice a vs bk) = (vs = [])"
| "is_empty (GMap m) = (m = None \<or> m = Some [])"
| "is_empty (GPtr p) = (p = None)"
| "is_empty (GStruct vs) = False"

definition enc_field :: "(string \<times> bool \<times> (goval \<Rightarrow> json)) \<Rightarrow> goval \<Rightarrow> (string \<times> json) list" where
  "enc_field f v = (case f of (n, oe, e) \<Rightarrow> if oe \<and> is_empty v then [] else [(n, e v)])"

fun to_json :: "gotype \<Rightarrow> goval \<Rightarrow> json" where
  "to_json TStr v = (case v of GStr s \<Rightarrow> JStr s | _ \<Rightarrow> JNull)"
| "to_json (TInt w) v = (case v of GInt i \<Rightarrow> jint i | _ \<Rightarrow> JNull)"
| "to_json TBool v = (case v of GBool b \<Rightarrow> JBool b | _ \<Rightarrow> JNull)"
| "to_json (TSlice t) v =
     (case v of GSlice alloc vs bk \<Rightarrow> if alloc then JArr (map (to_json t) vs) else JNull | _ \<Rightarrow> JNull)"
| "to_json (TMap t) v =
     (case v of GMap (Some es) \<Rightarrow> JObj (map (\<lambda>(k, x). (k, to_json t x)) es) | _ \<Rightarrow> JNull)"
| "to_json (TPtr t) v = (case v of GPtr (Some x) \<Rightarrow> to_json t x | _ \<Rightarrow> JNull)"
| "to_json (TStruct fs) v =
     (case v of GStruct vs \<Rightarrow>
        JObj (concat (map2 enc_field (map (\<lambda>(n, t, oe). (n, oe, to_json t)) fs) vs))
      | _ \<Rightarrow> JNull)"

text \<open>\<^verbatim>\<open>json.Marshal\<close>.\<close>

definition Marshal :: "gotype \<Rightarrow> goval \<Rightarrow> string" where
  "Marshal t v = render (to_json t v)"

subsection \<open>Reading\<close>

type_synonym reader = "json \<Rightarrow> goval \<Rightarrow> goval option"

text \<open>An array is stored element by element over what the backing array already holds.\<close>

fun read_elems :: "reader \<Rightarrow> goval \<Rightarrow> goval list \<Rightarrow> json list \<Rightarrow> goval list option" where
  "read_elems r z bk [] = Some []"
| "read_elems r z bk (j # js) =
     (case r j (case bk of [] \<Rightarrow> z | b # _ \<Rightarrow> b) of
        None \<Rightarrow> None
      | Some v \<Rightarrow> map_option (Cons v) (read_elems r z (tl bk) js))"

definition read_slice :: "reader \<Rightarrow> goval \<Rightarrow> reader" where
  "read_slice r z j old =
     (case j of
        JNull \<Rightarrow> Some (GSlice False [] [])
      | JArr js \<Rightarrow>
          if js = [] then Some (GSlice True [] [])
          else let bk = (case old of GSlice a vs rest \<Rightarrow> vs @ rest | _ \<Rightarrow> [])
               in map_option (\<lambda>vs. GSlice True vs (drop (length vs) bk)) (read_elems r z bk js)
      | _ \<Rightarrow> None)"

fun read_entries :: "reader \<Rightarrow> goval \<Rightarrow> (string \<times> json) list \<Rightarrow> (string \<times> goval) list \<Rightarrow> (string \<times> goval) list option" where
  "read_entries r z [] m = Some m"
| "read_entries r z ((k, j) # ms) m =
     (case r j z of None \<Rightarrow> None | Some v \<Rightarrow> read_entries r z ms (put k v m))"

definition read_map :: "reader \<Rightarrow> goval \<Rightarrow> reader" where
  "read_map r z j old =
     (case j of
        JNull \<Rightarrow> Some (GMap None)
      | JObj ms \<Rightarrow>
          map_option (\<lambda>m. GMap (Some m))
            (read_entries r z ms (case old of GMap (Some m) \<Rightarrow> m | _ \<Rightarrow> []))
      | _ \<Rightarrow> None)"

definition read_ptr :: "reader \<Rightarrow> goval \<Rightarrow> reader" where
  "read_ptr r z j old =
     (if j = JNull then Some (GPtr None)
      else map_option (\<lambda>v. GPtr (Some v)) (r j (case old of GPtr (Some v) \<Rightarrow> v | _ \<Rightarrow> z)))"

text \<open>One member of an object into the field its key selects; an unknown key is refused.\<close>

fun set_field :: "string \<Rightarrow> json \<Rightarrow> (string \<times> reader) list \<Rightarrow> goval list \<Rightarrow> goval list option" where
  "set_field n j ((m, r) # fs) (v # vs) =
     (if m = n then map_option (\<lambda>v'. v' # vs) (r j v) else map_option (Cons v) (set_field n j fs vs))"
| "set_field n j _ _ = None"

fun read_members :: "(string \<times> reader) list \<Rightarrow> (string \<times> json) list \<Rightarrow> goval list \<Rightarrow> goval list option" where
  "read_members fs [] vs = Some vs"
| "read_members fs ((k, j) # ms) vs =
     (case match_field (map fst fs) k of
        None \<Rightarrow> None
      | Some n \<Rightarrow> (case set_field n j fs vs of None \<Rightarrow> None | Some vs' \<Rightarrow> read_members fs ms vs'))"

definition read_struct :: "(string \<times> reader) list \<Rightarrow> reader" where
  "read_struct fs j old =
     (case j of
        JNull \<Rightarrow> Some old
      | JObj ms \<Rightarrow> (case old of GStruct vs \<Rightarrow> map_option GStruct (read_members fs ms vs) | _ \<Rightarrow> None)
      | _ \<Rightarrow> None)"

fun from_json :: "gotype \<Rightarrow> reader" where
  "from_json TStr j old = (case j of JNull \<Rightarrow> Some old | JStr s \<Rightarrow> Some (GStr s) | _ \<Rightarrow> None)"
| "from_json (TInt w) j old =
     (case j of
        JNull \<Rightarrow> Some old
      | JNum t \<Rightarrow> (case ParseInt64 t of
                    None \<Rightarrow> None
                  | Some i \<Rightarrow> if - (2 ^ (w - 1)) \<le> i \<and> i < 2 ^ (w - 1) then Some (GInt i) else None)
      | _ \<Rightarrow> None)"
| "from_json TBool j old = (case j of JNull \<Rightarrow> Some old | JBool b \<Rightarrow> Some (GBool b) | _ \<Rightarrow> None)"
| "from_json (TSlice t) j old = read_slice (from_json t) (zero_val t) j old"
| "from_json (TMap t) j old = read_map (from_json t) (zero_val t) j old"
| "from_json (TPtr t) j old = read_ptr (from_json t) (zero_val t) j old"
| "from_json (TStruct fs) j old = read_struct (map (\<lambda>(n, t, oe). (n, from_json t)) fs) j old"

text \<open>
  \<^verbatim>\<open>decoder.Decode\<close> with unknown fields refused, followed by the check that the
  input ends after the value.
\<close>

datatype decoded = Malformed | Trailing | Value goval

definition decode_strict :: "gotype \<Rightarrow> string \<Rightarrow> decoded" where
  "decode_strict t data =
     (case parse_value data of
        None \<Rightarrow> Malformed
      | Some (j, rest) \<Rightarrow>
          (case from_json t j (zero_val t) of
             None \<Rightarrow> Malformed
           | Some v \<Rightarrow> if skip_ws rest \<noteq> [] then Trailing else Value v))"

section \<open>Reading back what was printed\<close>

text \<open>
  The values that survive: strings are ASCII, integers fit the smaller of their width and 64
  bits, slices have no hidden elements, an omitted field holds its zero value.
\<close>

fun typed :: "gotype \<Rightarrow> goval \<Rightarrow> bool" where
  "typed TStr v = (case v of GStr s \<Rightarrow> ascii s | _ \<Rightarrow> False)"
| "typed (TInt w) v =
     (case v of GInt i \<Rightarrow> - (2 ^ (w - 1)) \<le> i \<and> i < 2 ^ (w - 1) \<and> - (2 ^ 63) \<le> i \<and> i < 2 ^ 63 | _ \<Rightarrow> False)"
| "typed TBool v = (case v of GBool b \<Rightarrow> True | _ \<Rightarrow> False)"
| "typed (TSlice t) v =
     (case v of GSlice alloc vs bk \<Rightarrow> bk = [] \<and> (alloc \<or> vs = []) \<and> list_all (typed t) vs | _ \<Rightarrow> False)"
| "typed (TMap t) v =
     (case v of
        GMap m \<Rightarrow> (case m of None \<Rightarrow> True
           | Some es \<Rightarrow> sorted_wrt (<) (map fst es) \<and> list_all (\<lambda>(k, x). ascii k \<and> typed t x) es)
      | _ \<Rightarrow> False)"
| "typed (TPtr t) v = (case v of GPtr p \<Rightarrow> (case p of None \<Rightarrow> True | Some x \<Rightarrow> typed t x \<and> to_json t x \<noteq> JNull) | _ \<Rightarrow> False)"
| "typed (TStruct fs) v =
     (case v of
        GStruct vs \<Rightarrow> length vs = length fs \<and> distinct (map fst fs) \<and>
          list_all2 (\<lambda>(n, t, oe) x. ascii n \<and> typed t x \<and> (oe \<and> is_empty x \<longrightarrow> x = zero_val t)) fs vs
      | _ \<Rightarrow> False)"

lemma match_field_exact: "n \<in> set names \<Longrightarrow> match_field names n = Some n"
  by (simp add: match_field_def)

lemma hd_show_nat_minus: "hd (show_nat n) \<noteq> CHR ''-''"
  using show_nat_digits [of n] by (cases "show_nat n") (auto simp: is_digit_def)

lemma ParseInt64_show_int [simp]:
  "- (2 ^ 63) \<le> i \<Longrightarrow> i < 2 ^ 63 \<Longrightarrow> ParseInt64 (show_int i) = Some i"
  using hd_show_nat_minus show_nat_digits [THEN conjunct2]
  by (auto simp: ParseInt64_def show_int_def)

lemma json_ok_jint [simp]: "json_ok (jint i)"
  by (auto simp: jint_def)

lemma read_elems_map:
  assumes "\<And>x. x \<in> set xs \<Longrightarrow> r (e x) z = Some x"
  shows "read_elems r z [] (map e xs) = Some xs"
  using assms by (induction xs) auto

lemma put_last: "\<forall>k' \<in> set (map fst m). k' < k \<Longrightarrow> put k v m = m @ [(k, v)]"
  by (induction m) auto

lemma read_entries_map:
  assumes "\<And>k x. (k, x) \<in> set es \<Longrightarrow> r (e x) z = Some x"
    and "sorted_wrt (<) (map fst (m @ es))"
  shows "read_entries r z (map (\<lambda>(k, x). (k, e x)) es) m = Some (m @ es)"
  using assms
proof (induction es arbitrary: m)
  case (Cons p es)
  obtain k x where p: "p = (k, x)" by (cases p)
  have "put k x m = m @ [(k, x)]"
    using Cons.prems(2) p by (intro put_last) (auto simp: sorted_wrt_append)
  moreover have "read_entries r z (map (\<lambda>(k, x). (k, e x)) es) (m @ [(k, x)]) = Some ((m @ [(k, x)]) @ es)"
    using Cons.prems p by (intro Cons.IH) auto
  ultimately show ?case using Cons.prems(1) [of k x] p by simp
qed simp

text \<open>Reading the members of a struct field by field: the fields read so far, then zeros.\<close>

lemma set_field_at:
  assumes "length us = length fs" "n \<notin> set (map fst fs)" "r j z = Some v"
  shows "set_field n j (fs @ (n, r) # gs) (us @ z # zs) = Some (us @ v # zs)"
  using assms by (induction fs us rule: list_induct2') auto

abbreviation fd_reader :: "string \<times> reader \<times> bool \<times> (goval \<Rightarrow> json) \<times> goval \<Rightarrow> string \<times> reader" where
  "fd_reader g \<equiv> (fst g, fst (snd g))"

abbreviation fd_printer :: "string \<times> reader \<times> bool \<times> (goval \<Rightarrow> json) \<times> goval \<Rightarrow> string \<times> bool \<times> (goval \<Rightarrow> json)" where
  "fd_printer g \<equiv> (fst g, fst (snd (snd g)), fst (snd (snd (snd g))))"

abbreviation fd_zero :: "string \<times> reader \<times> bool \<times> (goval \<Rightarrow> json) \<times> goval \<Rightarrow> goval" where
  "fd_zero g \<equiv> snd (snd (snd (snd g)))"

definition fd_ok :: "string \<times> reader \<times> bool \<times> (goval \<Rightarrow> json) \<times> goval \<Rightarrow> goval \<Rightarrow> bool" where
  "fd_ok g x \<longleftrightarrow> (case g of (n, r, oe, e, z) \<Rightarrow> if oe \<and> is_empty x then x = z else r (e x) z = Some x)"

lemma read_members_printed:
  assumes "length us = length fs" "distinct (map fst (fs @ gs))" "list_all2 fd_ok gs vs"
  shows "read_members (map fd_reader (fs @ gs)) (concat (map2 enc_field (map fd_printer gs) vs))
      (us @ map fd_zero gs) = Some (us @ vs)"
  using assms
proof (induction gs arbitrary: fs us vs)
  case (Cons g gs)
  obtain n r oe e z where g: "g = (n, r, oe, e, z)" by (cases g)
  obtain x ws where vs: "vs = x # ws" "fd_ok g x" "list_all2 fd_ok gs ws"
    using Cons.prems(3) by (auto simp: list_all2_Cons1)
  let ?printed = "concat (map2 enc_field (map fd_printer gs) ws)"
  have rest: "read_members (map fd_reader ((fs @ [g]) @ gs)) ?printed ((us @ [x]) @ map fd_zero gs)
      = Some ((us @ [x]) @ ws)"
    using Cons.prems vs by (intro Cons.IH) auto
  show ?case
  proof (cases "oe \<and> is_empty x")
    case True
    with rest vs g show ?thesis by (simp add: enc_field_def fd_ok_def)
  next
    case False
    then have x: "r (e x) z = Some x" using vs g by (auto simp: fd_ok_def)
    have "set_field n (e x) (map fd_reader fs @ (n, r) # map fd_reader gs) (us @ z # map fd_zero gs)
        = Some (us @ x # map fd_zero gs)"
      using Cons.prems(1,2) x g by (intro set_field_at) (auto simp: image_iff)
    moreover have "match_field (map fst (map fd_reader (fs @ g # gs))) n = Some n"
      by (rule match_field_exact) (simp add: g)
    ultimately show ?thesis
      using rest vs g False by (auto simp: enc_field_def)
  qed
qed simp

theorem from_to_json: "typed t v \<Longrightarrow> from_json t (to_json t v) (zero_val t) = Some v"
proof (induction t arbitrary: v)
  case (TSlice t)
  then obtain alloc vs where v: "v = GSlice alloc vs []" "alloc \<or> vs = []" "list_all (typed t) vs"
    by (auto split: goval.splits)
  have "read_elems (from_json t) (zero_val t) [] (map (to_json t) vs) = Some vs"
    using TSlice.IH v(3) by (intro read_elems_map) (auto simp: list_all_iff)
  with v show ?case by (auto simp: read_slice_def)
next
  case (TMap t)
  show ?case
  proof (cases v)
    case (GMap m)
    show ?thesis
    proof (cases m)
      case (Some es)
      have "read_entries (from_json t) (zero_val t) (map (\<lambda>(k, x). (k, to_json t x)) es) [] = Some ([] @ es)"
        using TMap GMap Some by (intro read_entries_map) (auto simp: list_all_iff)
      with GMap Some show ?thesis by (simp add: read_map_def)
    qed (simp add: GMap read_map_def)
  qed (use TMap.prems in auto)
next
  case (TPtr t)
  then show ?case by (auto simp: read_ptr_def split: goval.splits option.splits)
next
  case (TStruct fs)
  then obtain vs where v: "v = GStruct vs" "length vs = length fs" "distinct (map fst fs)"
    "list_all2 (\<lambda>(n, t, oe) x. ascii n \<and> typed t x \<and> (oe \<and> is_empty x \<longrightarrow> x = zero_val t)) fs vs"
    by (auto split: goval.splits)
  let ?gs = "map (\<lambda>(n, t, oe). (n, from_json t, oe, to_json t, zero_val t)) fs"
  have "fd_ok (?gs ! i) (vs ! i)" if i: "i < length fs" for i
  proof -
    obtain n t oe where f: "fs ! i = (n, t, oe)" by (cases "fs ! i")
    have "typed t (vs ! i)" "oe \<and> is_empty (vs ! i) \<longrightarrow> vs ! i = zero_val t"
      using v(4) i f by (auto simp: list_all2_conv_all_nth)
    moreover have "from_json t (to_json t (vs ! i)) (zero_val t) = Some (vs ! i)"
      using TStruct.IH [of "fs ! i" "(t, oe)" t] nth_mem [OF i] f \<open>typed t (vs ! i)\<close> by simp
    ultimately show ?thesis using i f by (auto simp: fd_ok_def)
  qed
  then have "list_all2 fd_ok ?gs vs" using v(2) by (simp add: list_all2_conv_all_nth)
  then have "read_members (map fd_reader ([] @ ?gs)) (concat (map2 enc_field (map fd_printer ?gs) vs))
      ([] @ map fd_zero ?gs) = Some ([] @ vs)"
    using v(3) by (intro read_members_printed) (auto simp: comp_def case_prod_unfold)
  with v(1) show ?case by (simp add: read_struct_def comp_def case_prod_unfold)
qed (auto simp: jint_def split: goval.splits)

theorem json_ok_to_json: "typed t v \<Longrightarrow> json_ok (to_json t v)"
proof (induction t arbitrary: v)
  case (TStruct fs)
  then obtain vs where v: "v = GStruct vs" "length vs = length fs"
    "list_all2 (\<lambda>(n, t, oe) x. ascii n \<and> typed t x \<and> (oe \<and> is_empty x \<longrightarrow> x = zero_val t)) fs vs"
    by (auto split: goval.splits)
  have "list_all (\<lambda>(k, j). ascii k \<and> json_ok j) (enc_field (n, oe, to_json t) x)"
    if "((n, t, oe), x) \<in> set (zip fs vs)" for n t oe x
  proof -
    from that have "(n, t, oe) \<in> set fs" by (rule set_zip_leftD)
    then have "typed t x \<Longrightarrow> json_ok (to_json t x)"
      using TStruct.IH [of "(n, t, oe)" "(t, oe)" t] by simp
    then show ?thesis using that v(3) by (auto simp: list_all2_iff enc_field_def)
  qed
  then show ?case
    using v(1) by (fastforce simp: list_all_iff zip_map1 case_prod_beta)
qed (auto simp: list_all_iff split: goval.splits option.splits)

theorem decode_Marshal: "typed t v \<Longrightarrow> decode_strict t (Marshal t v) = Value v"
  by (simp add: decode_strict_def Marshal_def parse_render json_ok_to_json from_to_json)

end
