(* ===== verification/Ledger_Codec.thy ===== *)
theory Ledger_Codec
  imports Ledger_Wf Go_Reflect
begin

text \<open>
  The persisted form of the ledger: \<^verbatim>\<open>Encode\<close> and \<^verbatim>\<open>Decode\<close>
  of \<^verbatim>\<open>internal/topologyrollout/ledger.go\<close> with the struct tags of its types.
  Decoding follows \<^verbatim>\<open>encoding/json\<close> into a zero value with unknown fields
  refused: a key selects the field of exactly that name or else one equal to it up to case,
  a repeated key assigns again, and null leaves a scalar as it is.
\<close>

subsection \<open>Printing\<close>

fun state_text :: "reservation_state \<Rightarrow> string" where
  "state_text ReservationReserved = ''Reserved''"
| "state_text ReservationBound = ''Bound''"
| "state_text ReservationDraining = ''Draining''"
| "state_text ReservationGranted = ''Granted''"
| "state_text ReservationRevoked = ''Revoked''"
| "state_text (ReservationOther s) = s"

definition state_of :: "string \<Rightarrow> reservation_state" where
  "state_of s =
     (if s = ''Reserved'' then ReservationReserved else if s = ''Bound'' then ReservationBound
      else if s = ''Draining'' then ReservationDraining else if s = ''Granted'' then ReservationGranted
      else if s = ''Revoked'' then ReservationRevoked else ReservationOther s)"

text \<open>A string field with the tag \<^verbatim>\<open>omitempty\<close>.\<close>

definition opt_str :: "string \<Rightarrow> string \<Rightarrow> (string \<times> json) list" where
  "opt_str name s = (if s = [] then [] else [(name, JStr s)])"

definition str_map_json :: "string gomap \<Rightarrow> json" where
  "str_map_json m = JObj (map (\<lambda>(k, v). (k, JStr v)) (gm_entries m))"

definition groups_members :: "string list \<Rightarrow> (string \<times> json) list" where
  "groups_members gs = (if gs = [] then [] else [(''riskGroups'', JArr (map JStr gs))])"

definition request_members :: "'a reservation_request_scheme \<Rightarrow> (string \<times> json) list" where
  "request_members r =
     [(''id'', JStr (rq_ID r)), (''campaignUID'', JStr (rq_CampaignUID r)), (''planHash'', JStr (rq_PlanHash r)),
      (''policyUID'', JStr (rq_PolicyUID r)), (''policyVersion'', JStr (rq_PolicyVersion r)),
      (''policyEpoch'', jint (rq_PolicyEpoch r)), (''topologyLockID'', JStr (rq_TopologyLockID r)),
      (''physicalID'', JStr (rq_PhysicalID r)), (''deviceUID'', JStr (rq_DeviceUID r)),
      (''nodeUID'', JStr (rq_NodeUID r)), (''childNamespace'', JStr (rq_ChildNamespace r)),
      (''childName'', JStr (rq_ChildName r)), (''domains'', str_map_json (rq_Domains r))] @
     groups_members (rq_RiskGroups r) @
     [(''controlRevision'', jint (uint (rq_ControlRevision r)))]"

definition reservation_members :: "reservation \<Rightarrow> (string \<times> json) list" where
  "reservation_members r =
     request_members r @ opt_str ''childUID'' (r_ChildUID r) @ [(''state'', JStr (state_text (r_State r)))] @
     opt_str ''drainSessionToken'' (r_DrainSessionToken r) @
     opt_str ''drainStartedAt'' (r_DrainStartedAt r) @ opt_str ''drainCompletedAt'' (r_DrainCompletedAt r)"

definition fence_members :: "release_fence \<Rightarrow> (string \<times> json) list" where
  "fence_members f =
     [(''reservationID'', JStr (f_ReservationID f)), (''policyEpoch'', jint (f_PolicyEpoch f)),
      (''topologyLockID'', JStr (f_TopologyLockID f))] @
     opt_str ''drainSessionToken'' (f_DrainSessionToken f) @ opt_str ''drainChildUID'' (f_DrainChildUID f)"

definition ledger_json :: "ledger \<Rightarrow> json" where
  "ledger_json l = JObj (
     [(''version'', JStr (l_Version l)), (''uid'', JStr (l_UID l)),
      (''reservations'', JObj (map (\<lambda>(k, r). (k, JObj (reservation_members r))) (gm_entries (l_Reservations l))))] @
     (case l_LastReleaseFence l of None \<Rightarrow> [] | Some f \<Rightarrow> [(''lastReleaseFence'', JObj (fence_members f))]))"

definition Encode :: "ledger \<Rightarrow> int \<Rightarrow> rollout_err + string" where
  "Encode l maxBytes =
     (if l_Version l \<noteq> LedgerVersion \<or> TrimSpace (l_UID l) = []
      then Inl (Wrapped ErrLedgerIdentity ''incomplete ledger'')
      else let limit = (if maxBytes \<le> 0 \<or> maxBytes > DefaultMaxSerializedBytes
                        then DefaultMaxSerializedBytes else maxBytes);
               data = render (ledger_json l)
           in if int (length data) > limit then Inl (Wrapped ErrLedgerFull ''encoded ledger exceeds the limit'')
              else Inr data)"

subsection \<open>Assigning fields\<close>

primrec assign_members :: "(string \<Rightarrow> json \<Rightarrow> 'a \<Rightarrow> 'a option) \<Rightarrow> (string \<times> json) list \<Rightarrow> 'a \<Rightarrow> 'a option" where
  "assign_members f [] a = Some a"
| "assign_members f (m # ms) a =
     (case f (fst m) (snd m) a of None \<Rightarrow> None | Some b \<Rightarrow> assign_members f ms b)"

definition assign_struct ::
  "string list \<Rightarrow> (string \<Rightarrow> json \<Rightarrow> 'a \<Rightarrow> 'a option) \<Rightarrow> json \<Rightarrow> 'a \<Rightarrow> 'a option" where
  "assign_struct names f j a =
     (case j of
        JNull \<Rightarrow> Some a
      | JObj ms \<Rightarrow> assign_members (\<lambda>key v b. case match_field names key of None \<Rightarrow> None | Some n \<Rightarrow> f n v b) ms a
      | _ \<Rightarrow> None)"

definition to_str :: "json \<Rightarrow> string \<Rightarrow> string option" where
  "to_str j old = (case j of JNull \<Rightarrow> Some old | JStr s \<Rightarrow> Some s | _ \<Rightarrow> None)"

definition to_int64 :: "json \<Rightarrow> int \<Rightarrow> int option" where
  "to_int64 j old = (case j of JNull \<Rightarrow> Some old | JNum t \<Rightarrow> ParseInt64 t | _ \<Rightarrow> None)"

definition to_uint64 :: "json \<Rightarrow> 64 word \<Rightarrow> 64 word option" where
  "to_uint64 j old = (case j of JNull \<Rightarrow> Some old | JNum t \<Rightarrow> ParseUint64 t | _ \<Rightarrow> None)"

definition to_str_map :: "json \<Rightarrow> string gomap \<Rightarrow> string gomap option" where
  "to_str_map j old =
     (case j of
        JNull \<Rightarrow> Some fmempty
      | JObj ms \<Rightarrow> assign_members (\<lambda>k v m. map_option (\<lambda>s. fmupd k s m) (to_str v [])) ms old
      | _ \<Rightarrow> None)"

text \<open>
  A slice is its backing array and the slice itself: an element that is null keeps what the
  backing array already holds at its index.
\<close>

fun to_elems :: "string list \<Rightarrow> json list \<Rightarrow> string list option" where
  "to_elems bk [] = Some []"
| "to_elems bk (j # js) =
     (case to_str j (case bk of [] \<Rightarrow> [] | b # _ \<Rightarrow> b) of
        None \<Rightarrow> None
      | Some e \<Rightarrow> map_option (Cons e) (to_elems (tl bk) js))"

definition to_slice :: "json \<Rightarrow> string list \<Rightarrow> (string list \<times> string list) option" where
  "to_slice j bk =
     (case j of
        JNull \<Rightarrow> Some ([], [])
      | JArr js \<Rightarrow> if js = [] then Some ([], [])
                  else map_option (\<lambda>es. (es, es @ drop (length es) bk)) (to_elems bk js)
      | _ \<Rightarrow> None)"

subsection \<open>Reading\<close>

definition zero_reservation :: reservation where
  "zero_reservation =
     \<lparr> rq_ID = [], rq_CampaignUID = [], rq_PlanHash = [], rq_PolicyUID = [], rq_PolicyVersion = [],
       rq_PolicyEpoch = 0, rq_TopologyLockID = [], rq_PhysicalID = [], rq_DeviceUID = [], rq_NodeUID = [],
       rq_ChildNamespace = [], rq_ChildName = [], rq_Domains = fmempty, rq_RiskGroups = [],
       rq_CampaignMaxConcurrentTransfers = 0, rq_CampaignMaxUnavailable = 0,
       rq_CampaignTransferLimits = fmempty, rq_CampaignLimits = fmempty, rq_ControlRevision = 0,
       r_ChildUID = [], r_State = ReservationOther [], r_DrainSessionToken = [], r_DrainStartedAt = [],
       r_DrainCompletedAt = [] \<rparr>"

definition reservation_fields :: "string list" where
  "reservation_fields =
     [''id'', ''campaignUID'', ''planHash'', ''policyUID'', ''policyVersion'', ''policyEpoch'', ''topologyLockID'',
      ''physicalID'', ''deviceUID'', ''nodeUID'', ''childNamespace'', ''childName'', ''domains'', ''riskGroups'',
      ''controlRevision'', ''childUID'', ''state'', ''drainSessionToken'', ''drainStartedAt'', ''drainCompletedAt'']"

definition set_reservation_field ::
  "string \<Rightarrow> json \<Rightarrow> reservation \<times> string list \<Rightarrow> (reservation \<times> string list) option" where
  "set_reservation_field n v rb =
     (let r = fst rb; bk = snd rb; keep = map_option (\<lambda>r'. (r', bk))
      in if n = ''id'' then keep (map_option (\<lambda>s. r\<lparr> rq_ID := s \<rparr>) (to_str v (rq_ID r)))
         else if n = ''campaignUID'' then keep (map_option (\<lambda>s. r\<lparr> rq_CampaignUID := s \<rparr>) (to_str v (rq_CampaignUID r)))
         else if n = ''planHash'' then keep (map_option (\<lambda>s. r\<lparr> rq_PlanHash := s \<rparr>) (to_str v (rq_PlanHash r)))
         else if n = ''policyUID'' then keep (map_option (\<lambda>s. r\<lparr> rq_PolicyUID := s \<rparr>) (to_str v (rq_PolicyUID r)))
         else if n = ''policyVersion'' then keep (map_option (\<lambda>s. r\<lparr> rq_PolicyVersion := s \<rparr>) (to_str v (rq_PolicyVersion r)))
         else if n = ''policyEpoch'' then keep (map_option (\<lambda>i. r\<lparr> rq_PolicyEpoch := i \<rparr>) (to_int64 v (rq_PolicyEpoch r)))
         else if n = ''topologyLockID'' then keep (map_option (\<lambda>s. r\<lparr> rq_TopologyLockID := s \<rparr>) (to_str v (rq_TopologyLockID r)))
         else if n = ''physicalID'' then keep (map_option (\<lambda>s. r\<lparr> rq_PhysicalID := s \<rparr>) (to_str v (rq_PhysicalID r)))
         else if n = ''deviceUID'' then keep (map_option (\<lambda>s. r\<lparr> rq_DeviceUID := s \<rparr>) (to_str v (rq_DeviceUID r)))
         else if n = ''nodeUID'' then keep (map_option (\<lambda>s. r\<lparr> rq_NodeUID := s \<rparr>) (to_str v (rq_NodeUID r)))
         else if n = ''childNamespace'' then keep (map_option (\<lambda>s. r\<lparr> rq_ChildNamespace := s \<rparr>) (to_str v (rq_ChildNamespace r)))
         else if n = ''childName'' then keep (map_option (\<lambda>s. r\<lparr> rq_ChildName := s \<rparr>) (to_str v (rq_ChildName r)))
         else if n = ''domains'' then keep (map_option (\<lambda>m. r\<lparr> rq_Domains := m \<rparr>) (to_str_map v (rq_Domains r)))
         else if n = ''riskGroups'' then map_option (\<lambda>(es, bk'). (r\<lparr> rq_RiskGroups := es \<rparr>, bk')) (to_slice v bk)
         else if n = ''controlRevision'' then keep (map_option (\<lambda>w. r\<lparr> rq_ControlRevision := w \<rparr>) (to_uint64 v (rq_ControlRevision r)))
         else if n = ''childUID'' then keep (map_option (\<lambda>s. r\<lparr> r_ChildUID := s \<rparr>) (to_str v (r_ChildUID r)))
         else if n = ''state'' then keep (map_option (\<lambda>s. r\<lparr> r_State := state_of s \<rparr>) (to_str v (state_text (r_State r))))
         else if n = ''drainSessionToken'' then keep (map_option (\<lambda>s. r\<lparr> r_DrainSessionToken := s \<rparr>) (to_str v (r_DrainSessionToken r)))
         else if n = ''drainStartedAt'' then keep (map_option (\<lambda>s. r\<lparr> r_DrainStartedAt := s \<rparr>) (to_str v (r_DrainStartedAt r)))
         else if n = ''drainCompletedAt'' then keep (map_option (\<lambda>s. r\<lparr> r_DrainCompletedAt := s \<rparr>) (to_str v (r_DrainCompletedAt r)))
         else None)"

definition to_reservation :: "json \<Rightarrow> reservation option" where
  "to_reservation j =
     map_option fst (assign_struct reservation_fields set_reservation_field j (zero_reservation, []))"

definition zero_fence :: release_fence where
  "zero_fence = \<lparr> f_ReservationID = [], f_PolicyEpoch = 0, f_TopologyLockID = [],
     f_DrainSessionToken = [], f_DrainChildUID = [] \<rparr>"

definition fence_fields :: "string list" where
  "fence_fields = [''reservationID'', ''policyEpoch'', ''topologyLockID'', ''drainSessionToken'', ''drainChildUID'']"

definition set_fence_field :: "string \<Rightarrow> json \<Rightarrow> release_fence \<Rightarrow> release_fence option" where
  "set_fence_field n v f =
     (if n = ''reservationID'' then map_option (\<lambda>s. f\<lparr> f_ReservationID := s \<rparr>) (to_str v (f_ReservationID f))
      else if n = ''policyEpoch'' then map_option (\<lambda>i. f\<lparr> f_PolicyEpoch := i \<rparr>) (to_int64 v (f_PolicyEpoch f))
      else if n = ''topologyLockID'' then map_option (\<lambda>s. f\<lparr> f_TopologyLockID := s \<rparr>) (to_str v (f_TopologyLockID f))
      else if n = ''drainSessionToken'' then map_option (\<lambda>s. f\<lparr> f_DrainSessionToken := s \<rparr>) (to_str v (f_DrainSessionToken f))
      else if n = ''drainChildUID'' then map_option (\<lambda>s. f\<lparr> f_DrainChildUID := s \<rparr>) (to_str v (f_DrainChildUID f))
      else None)"

definition to_fence :: "json \<Rightarrow> release_fence option \<Rightarrow> release_fence option option" where
  "to_fence j old =
     (if j = JNull then Some None
      else map_option Some (assign_struct fence_fields set_fence_field j
             (case old of None \<Rightarrow> zero_fence | Some f \<Rightarrow> f)))"

text \<open>The Boolean says whether the map of reservations has been allocated.\<close>

definition to_reservations :: "json \<Rightarrow> reservation gomap \<Rightarrow> (reservation gomap \<times> bool) option" where
  "to_reservations j old =
     (case j of
        JNull \<Rightarrow> Some (fmempty, False)
      | JObj ms \<Rightarrow> map_option (\<lambda>m. (m, True))
          (assign_members (\<lambda>k v m. map_option (\<lambda>r. fmupd k r m) (to_reservation v)) ms old)
      | _ \<Rightarrow> None)"

definition ledger_fields :: "string list" where
  "ledger_fields = [''version'', ''uid'', ''reservations'', ''lastReleaseFence'']"

definition set_ledger_field :: "string \<Rightarrow> json \<Rightarrow> ledger \<times> bool \<Rightarrow> (ledger \<times> bool) option" where
  "set_ledger_field n v lb =
     (let l = fst lb; allocated = snd lb
      in if n = ''version'' then map_option (\<lambda>s. (l\<lparr> l_Version := s \<rparr>, allocated)) (to_str v (l_Version l))
         else if n = ''uid'' then map_option (\<lambda>s. (l\<lparr> l_UID := s \<rparr>, allocated)) (to_str v (l_UID l))
         else if n = ''reservations''
         then map_option (\<lambda>(m, a). (l\<lparr> l_Reservations := m \<rparr>, a)) (to_reservations v (l_Reservations l))
         else if n = ''lastReleaseFence''
         then map_option (\<lambda>f. (l\<lparr> l_LastReleaseFence := f \<rparr>, allocated)) (to_fence v (l_LastReleaseFence l))
         else None)"

definition to_ledger :: "json \<Rightarrow> (ledger \<times> bool) option" where
  "to_ledger j = assign_struct ledger_fields set_ledger_field j
     (\<lparr> l_Version = [], l_UID = [], l_Reservations = fmempty, l_LastReleaseFence = None \<rparr>, False)"

definition Decode :: "ext \<Rightarrow> string \<Rightarrow> string \<Rightarrow> rollout_err + ledger" where
  "Decode E data expectedUID =
     (if TrimSpace expectedUID = [] then Inl (Wrapped ErrLedgerIdentity ''expected UID is empty'')
      else if int (length data) > DefaultMaxSerializedBytes
      then Inl (Wrapped ErrLedgerIdentity ''encoded ledger exceeds the absolute limit'')
      else case parse_value data of
        None \<Rightarrow> Inl (Wrapped ErrLedgerIdentity ''decode rollout ledger'')
      | Some (j, rest) \<Rightarrow>
          (case to_ledger j of
             None \<Rightarrow> Inl (Wrapped ErrLedgerIdentity ''decode rollout ledger'')
           | Some (l, allocated) \<Rightarrow>
               if skip_ws rest \<noteq> [] then Inl (Wrapped ErrLedgerIdentity ''decode rollout ledger: trailing JSON data'')
               else if l_Version l \<noteq> LedgerVersion \<or> l_UID l \<noteq> expectedUID
               then Inl (Wrapped ErrLedgerIdentity ''version or uid'')
               else if validBoundedIdentity (l_UID l) 128 \<and> \<not> allocated
               then Inl (Wrapped ErrLedgerIdentity ''reservations must be an object'')
               else case validatePersistedLedger E l of
                 Some e \<Rightarrow> Inl e
               | None \<Rightarrow> Inr l))"

section \<open>Reading back an encoded ledger\<close>

text \<open>Documented behaviour of the external validators: the names they accept are ASCII.\<close>

definition ext_ascii :: "ext \<Rightarrow> bool" where
  "ext_ascii E \<longleftrightarrow>
     (\<forall>s. (IsQualifiedName E s \<longrightarrow> ascii s) \<and> (IsValidLabelValue E s \<longrightarrow> ascii s) \<and>
          (IsDNS1123Label E s \<longrightarrow> ascii s) \<and> (\<forall>n. uuid_parse E s = Some (n, s) \<longrightarrow> ascii s))"

text \<open>The fields tagged \<^verbatim>\<open>json:"-"\<close> do not survive, and an epoch is an \<^verbatim>\<open>int64\<close>.\<close>

definition storable :: "reservation \<Rightarrow> bool" where
  "storable r \<longleftrightarrow> rq_PolicyEpoch r < 2 ^ 63 \<and>
     rq_CampaignMaxConcurrentTransfers r = 0 \<and> rq_CampaignMaxUnavailable r = 0 \<and>
     rq_CampaignTransferLimits r = fmempty \<and> rq_CampaignLimits r = fmempty"

definition ledger_storable :: "ledger \<Rightarrow> bool" where
  "ledger_storable l \<longleftrightarrow>
     list_all storable (gm_vals (l_Reservations l)) \<and>
     (case l_LastReleaseFence l of None \<Rightarrow> True | Some f \<Rightarrow> f_PolicyEpoch f < 2 ^ 63)"

named_theorems codec "reading back the printed form of a field"

lemma to_str_JStr [codec]: "to_str (JStr s) old = Some s"
  by (simp add: to_str_def)

declare match_field_exact [codec]

lemma to_int64_jint [codec]:
  assumes "- (2 ^ 63) \<le> i" "i < 2 ^ 63"
  shows "to_int64 (jint i) old = Some i"
  using assms by (simp add: to_int64_def jint_def)

lemma to_uint64_jint [codec]: "to_uint64 (jint (uint w)) old = Some w"
proof -
  have "show_int (uint w) = show_nat (unat w)"
    using uint_ge_0 [of w] by (simp add: show_int_def)
  moreover have "unat w < 2 ^ 64" using unsigned_less [of w, where ?'a = nat] by simp
  ultimately show ?thesis by (simp add: to_uint64_def jint_def ParseUint64_def)
qed

lemma state_of_text [codec]: "state_of (state_text st) = (case st of ReservationOther s \<Rightarrow> state_of s | _ \<Rightarrow> st)"
  by (cases st) (simp_all add: state_of_def)

lemma assign_members_append:
  "assign_members f (xs @ ys) a = (case assign_members f xs a of None \<Rightarrow> None | Some b \<Rightarrow> assign_members f ys b)"
  by (induction xs arbitrary: a) (auto split: option.splits)

text \<open>A Go map read back entry by entry.\<close>

lemma assign_entries:
  assumes "\<forall>(k, v) \<in> set xs. g (h v) = Some v"
  shows "assign_members (\<lambda>k j m. map_option (\<lambda>v. fmupd k v m) (g j)) (map (\<lambda>(k, v). (k, h v)) xs) m
    = Some (foldl (\<lambda>m (k, v). fmupd k v m) m xs)"
  using assms by (induction xs arbitrary: m) auto

lemma fmlookup_foldl_upd:
  "distinct (map fst xs) \<Longrightarrow>
   fmlookup (foldl (\<lambda>m (k, v). fmupd k v m) m xs) k = (case map_of xs k of Some v \<Rightarrow> Some v | None \<Rightarrow> fmlookup m k)"
  by (induction xs arbitrary: m) (auto split: option.splits simp: map_of_eq_None_iff dest!: map_of_SomeD intro: rev_image_eqI)

lemma foldl_gm_entries: "foldl (\<lambda>m (k, v). fmupd k v m) fmempty (gm_entries m) = m"
  by (rule fmap_ext) (simp add: fmlookup_foldl_upd [OF distinct_gm_entries] gm_entries_map_of split: option.split)

lemma to_str_map_json [codec]: "to_str_map (str_map_json m) fmempty = Some m"
  using assign_entries [of "gm_entries m" "\<lambda>j. to_str j []" JStr fmempty]
  by (simp add: to_str_map_def str_map_json_def foldl_gm_entries to_str_JStr)

lemma to_elems_JStr: "to_elems [] (map JStr es) = Some es"
  by (induction es) (simp_all add: to_str_def)

lemma to_slice_JArr [codec]: "es \<noteq> [] \<Longrightarrow> to_slice (JArr (map JStr es)) [] = Some (es, es)"
  by (simp add: to_slice_def to_elems_JStr)

definition after_request :: "'a reservation_request_scheme \<Rightarrow> reservation" where
  "after_request r = zero_reservation
     \<lparr> rq_ID := rq_ID r, rq_CampaignUID := rq_CampaignUID r, rq_PlanHash := rq_PlanHash r,
       rq_PolicyUID := rq_PolicyUID r, rq_PolicyVersion := rq_PolicyVersion r,
       rq_PolicyEpoch := rq_PolicyEpoch r, rq_TopologyLockID := rq_TopologyLockID r,
       rq_PhysicalID := rq_PhysicalID r, rq_DeviceUID := rq_DeviceUID r, rq_NodeUID := rq_NodeUID r,
       rq_ChildNamespace := rq_ChildNamespace r, rq_ChildName := rq_ChildName r,
       rq_Domains := rq_Domains r, rq_RiskGroups := rq_RiskGroups r, rq_ControlRevision := rq_ControlRevision r \<rparr>"

abbreviation assign_reservation ::
  "(string \<times> json) list \<Rightarrow> reservation \<times> string list \<Rightarrow> (reservation \<times> string list) option" where
  "assign_reservation \<equiv> assign_members
     (\<lambda>key v b. case match_field reservation_fields key of None \<Rightarrow> None | Some n \<Rightarrow> set_reservation_field n v b)"

lemmas field_simps_codec = codec reservation_fields_def set_reservation_field_def zero_reservation_def after_request_def

lemma assign_request:
  assumes "- (2 ^ 63) \<le> rq_PolicyEpoch r" "rq_PolicyEpoch r < 2 ^ 63"
  shows "assign_reservation (request_members r) (zero_reservation, []) = Some (after_request r, rq_RiskGroups r)"
proof (cases "rq_RiskGroups r = []")
  case True
  then show ?thesis
    using assms
    by (simp add: request_members_def groups_members_def field_simps_codec)
next
  case False
  then show ?thesis
    using assms
    by (simp add: request_members_def groups_members_def field_simps_codec)
qed

definition known_state :: "reservation_state \<Rightarrow> bool" where
  "known_state st \<longleftrightarrow> state_of (state_text st) = st"

lemma assign_opt:
  assumes "n \<in> set reservation_fields" "set_reservation_field n (JStr s) rb = Some (upd s)" "upd [] = rb"
  shows "assign_reservation (opt_str n s) rb = Some (upd s)"
  using assms by (simp add: opt_str_def match_field_exact)

lemma to_reservation_members:
  assumes "- (2 ^ 63) \<le> rq_PolicyEpoch r" "storable r" "known_state (r_State r)"
  shows "to_reservation (JObj (reservation_members r)) = Some r"
proof -
  let ?g = "rq_RiskGroups r" and ?a = "after_request r"
  have start: "assign_reservation (request_members r) (zero_reservation, []) = Some (?a, ?g)"
    using assms by (intro assign_request) (auto simp: storable_def)
  have child: "assign_reservation (opt_str ''childUID'' (r_ChildUID r)) (?a, ?g)
      = Some (?a\<lparr> r_ChildUID := r_ChildUID r \<rparr>, ?g)"
    by (rule assign_opt) (simp_all add: field_simps_codec)
  let ?b = "?a\<lparr> r_ChildUID := r_ChildUID r, r_State := r_State r \<rparr>"
  have state: "assign_reservation [(''state'', JStr (state_text (r_State r)))] (?a\<lparr> r_ChildUID := r_ChildUID r \<rparr>, ?g)
      = Some (?b, ?g)"
    using assms(3)
    by (simp add: match_field_exact reservation_fields_def set_reservation_field_def to_str_JStr known_state_def)
  have token: "assign_reservation (opt_str ''drainSessionToken'' (r_DrainSessionToken r)) (?b, ?g)
      = Some (?b\<lparr> r_DrainSessionToken := r_DrainSessionToken r \<rparr>, ?g)"
    by (rule assign_opt) (simp_all add: field_simps_codec)
  let ?c = "?b\<lparr> r_DrainSessionToken := r_DrainSessionToken r \<rparr>"
  have started: "assign_reservation (opt_str ''drainStartedAt'' (r_DrainStartedAt r)) (?c, ?g)
      = Some (?c\<lparr> r_DrainStartedAt := r_DrainStartedAt r \<rparr>, ?g)"
    by (rule assign_opt) (simp_all add: field_simps_codec)
  let ?d = "?c\<lparr> r_DrainStartedAt := r_DrainStartedAt r \<rparr>"
  have completed: "assign_reservation (opt_str ''drainCompletedAt'' (r_DrainCompletedAt r)) (?d, ?g)
      = Some (?d\<lparr> r_DrainCompletedAt := r_DrainCompletedAt r \<rparr>, ?g)"
    by (rule assign_opt) (simp_all add: field_simps_codec)
  have "?d\<lparr> r_DrainCompletedAt := r_DrainCompletedAt r \<rparr> = r"
    using assms(2) by (simp add: after_request_def zero_reservation_def storable_def)
  then show ?thesis
    unfolding to_reservation_def assign_struct_def reservation_members_def
    by (simp add: assign_members_append start child state token started completed
        del: append_Cons assign_members.simps)
qed

lemma to_fence_members:
  assumes "- (2 ^ 63) \<le> f_PolicyEpoch f" "f_PolicyEpoch f < 2 ^ 63"
  shows "to_fence (JObj (fence_members f)) None = Some (Some f)"
  using assms
  by (simp add: to_fence_def assign_struct_def fence_members_def opt_str_def assign_members_append codec
      fence_fields_def set_fence_field_def zero_fence_def)

lemma bounded_ascii: "validBoundedIdentity s n \<Longrightarrow> ascii s"
  by (simp add: validBoundedIdentity_iff graphic_ascii)

lemma opt_str_ok: "ascii s \<Longrightarrow> ascii n \<Longrightarrow> list_all (\<lambda>(k, v). ascii k \<and> json_ok v) (opt_str n s)"
  by (simp add: opt_str_def)

definition reservation_ascii :: "reservation \<Rightarrow> bool" where
  "reservation_ascii r \<longleftrightarrow>
     list_all ascii [rq_ID r, rq_CampaignUID r, rq_PlanHash r, rq_PolicyUID r, rq_PolicyVersion r, rq_TopologyLockID r,
       rq_PhysicalID r, rq_DeviceUID r, rq_NodeUID r, rq_ChildNamespace r, rq_ChildName r,
       r_ChildUID r, state_text (r_State r), r_DrainSessionToken r, r_DrainStartedAt r, r_DrainCompletedAt r] \<and>
     list_all ascii (rq_RiskGroups r) \<and>
     (\<forall>(k, v) \<in> set (gm_entries (rq_Domains r)). ascii k \<and> ascii v)"

lemma json_ok_reservation:
  assumes "reservation_ascii r"
  shows "json_ok (JObj (reservation_members r))"
proof -
  have "json_ok (str_map_json (rq_Domains r))"
    using assms by (auto simp: str_map_json_def reservation_ascii_def list_all_iff)
  moreover have "list_all (\<lambda>(k, v). ascii k \<and> json_ok v) (groups_members (rq_RiskGroups r))"
    using assms by (auto simp: groups_members_def reservation_ascii_def list_all_iff ascii_def)
  moreover have "list_all (\<lambda>(k, v). ascii k \<and> json_ok v) (request_members r)"
    using calculation assms
    by (simp add: request_members_def reservation_ascii_def)
  ultimately show ?thesis
    using assms by (simp add: reservation_members_def reservation_ascii_def opt_str_ok)
qed

lemma ascii_show_width: "ascii (show_width w i)"
proof -
  have "ascii (show_nat n)" for n
    using show_nat_digits [of n] by (auto simp: ascii_def is_digit_def list_all_iff)
  then show ?thesis by (auto simp: show_width_def pad_left_def) (auto simp: ascii_def list_all_iff)
qed

lemma ascii_format: "ascii (format_rfc3339nano t)"
proof -
  have "ascii (strip_zeros s)" if "ascii s" for s
    using that set_dropWhileD by (fastforce simp: strip_zeros_def ascii_def list_all_iff)
  then have "ascii (format_fraction n)" for n
    by (simp add: format_fraction_def ascii_show_width)
  then show ?thesis
    by (simp add: format_rfc3339nano_def Let_def ascii_show_width split: prod.splits)
qed

lemma canonical_time_ascii: "parseCanonicalLedgerTime s = Inr t \<Longrightarrow> ascii s"
  by (auto simp: parseCanonicalLedgerTime_def canonicalLedgerTime_def ascii_format
      split: option.splits if_splits)

lemma valid_token_ascii: "ext_ascii E \<Longrightarrow> validDrainSessionToken E s \<Longrightarrow> ascii s"
  by (auto simp: ext_ascii_def validDrainSessionToken_def split: option.splits)

lemma drain_fields_ascii:
  assumes "ext_ascii E" "drain_provenance_err E r = None"
  shows "ascii (r_DrainSessionToken r) \<and> ascii (r_DrainStartedAt r) \<and> ascii (r_DrainCompletedAt r)"
  using assms
  by (auto simp: drain_provenance_err_def hasDrainProvenance_def valid_token_ascii canonical_time_ascii
      split: if_splits sum.splits)

lemma state_fields_ascii:
  assumes "state_err r = None"
  shows "ascii (r_ChildUID r) \<and> ascii (state_text (r_State r)) \<and> known_state (r_State r)"
  using assms
  by (cases "r_State r") (auto simp: state_err_def known_state_def state_of_def bounded_ascii split: if_splits)

lemma valid_reservation_ascii:
  assumes E: "ext_ascii E" and valid: "validatePersistedReservation E r = None"
  shows "reservation_ascii r"
proof -
  have bounded: "validBoundedIdentity v n \<longrightarrow> ascii v" for v n by (simp add: bounded_ascii)
  have "ascii k \<and> ascii v" if "(k, v) \<in> set (gm_entries (rq_Domains r))" for k v
    using valid that E
    by (auto simp: validatePersistedReservation_def domain_err_def Let_def ext_ascii_def split: if_splits)
  moreover have "list_all ascii (rq_RiskGroups r)"
    using valid E by (auto simp: validatePersistedReservation_def validateRiskGroupNames_iff ext_ascii_def list_all_iff)
  moreover have "drain_provenance_err E r = None" "state_err r = None"
    using valid by (auto simp: validatePersistedReservation_def)
  moreover have "\<forall>(v, n) \<in> set (bounded_fields r). ascii v"
    using valid bounded by (auto simp: validatePersistedReservation_def)
  ultimately show ?thesis
    using drain_fields_ascii [OF E] state_fields_ascii
    by (auto simp: reservation_ascii_def bounded_fields_def)
qed

lemma wf_reservation:
  assumes "ledger_wf E l" "(k, r) \<in> set (gm_entries (l_Reservations l))"
  shows "validatePersistedReservation E r = None" "ascii k" "rq_ID r = k"
proof -
  have e: "entry_wf E k r"
    using assms by (auto simp: ledger_wf_def reservations_wf_def in_gm_entries_iff)
  then show "validatePersistedReservation E r = None" "rq_ID r = k" by (auto simp: entry_wf_def)
  then have "validBoundedIdentity k 64"
    by (simp add: validatePersistedReservation_iff bounded_fields_def)
  then show "ascii k" by (rule bounded_ascii)
qed

lemma json_ok_ledger:
  assumes E: "ext_ascii E" and wf: "ledger_wf E l"
  shows "json_ok (ledger_json l)"
proof -
  have "json_ok (JObj (reservation_members r))" "ascii k" if "(k, r) \<in> set (gm_entries (l_Reservations l))" for k r
    using wf_reservation [OF wf that] valid_reservation_ascii [OF E] json_ok_reservation by auto
  then have "json_ok (JObj (map (\<lambda>(k, r). (k, JObj (reservation_members r))) (gm_entries (l_Reservations l))))"
    by (subst json_ok.simps(4)) (auto simp: list_all_iff simp del: json_ok.simps(4))
  moreover have "json_ok (JObj (fence_members f))" if "l_LastReleaseFence l = Some f" for f
  proof -
    have "ascii (f_ReservationID f)" "ascii (f_TopologyLockID f)" "ascii (f_DrainSessionToken f)" "ascii (f_DrainChildUID f)"
      using wf that E bounded_ascii valid_token_ascii
      by (auto simp: ledger_wf_def fence_wf_def fence_err_def validTopologyLockID_iff graphic_ascii
          list_all_iff ascii_def is_lower_hex_def is_digit_def split: if_splits)
    then show ?thesis by (simp add: fence_members_def opt_str_ok)
  qed
  ultimately show ?thesis
    using wf bounded_ascii unfolding ledger_json_def
    by (subst json_ok.simps(4)) (auto simp: ledger_wf_def simp del: json_ok.simps(4) split: option.split)
qed

lemma to_ledger_json:
  assumes wf: "ledger_wf E l" and st: "ledger_storable l"
  shows "to_ledger (ledger_json l) = Some (l, True)"
proof -
  let ?rs = "gm_entries (l_Reservations l)"
  have "to_reservation (JObj (reservation_members r)) = Some r" if "(k, r) \<in> set ?rs" for k r
  proof (rule to_reservation_members)
    have v: "validatePersistedReservation E r = None" by (rule wf_reservation(1) [OF wf that])
    show "known_state (r_State r)" "- (2 ^ 63) \<le> rq_PolicyEpoch r"
      using v state_fields_ascii by (auto simp: validatePersistedReservation_iff)
    show "storable r" using st that by (auto simp: ledger_storable_def list_all_iff gm_vals_def)
  qed
  then have rs: "to_reservations (JObj (map (\<lambda>(k, r). (k, JObj (reservation_members r))) ?rs)) fmempty
      = Some (l_Reservations l, True)"
    using assign_entries [of ?rs to_reservation "\<lambda>r. JObj (reservation_members r)" fmempty]
    by (auto simp: to_reservations_def foldl_gm_entries)
  have fence: "to_fence (JObj (fence_members f)) None = Some (Some f)" if "l_LastReleaseFence l = Some f" for f
    using wf st that
    by (intro to_fence_members)
      (auto simp: ledger_wf_def fence_wf_def fence_err_def ledger_storable_def split: if_splits)
  show ?thesis
    by (cases "l_LastReleaseFence l")
      (simp_all add: to_ledger_def ledger_json_def assign_struct_def match_field_exact ledger_fields_def
        set_ledger_field_def to_str_JStr rs fence)
qed

theorem Decode_Encode:
  assumes "ext_ascii E" "ledger_wf E l" "ledger_storable l" "Encode l maxBytes = Inr data"
  shows "Decode E data (l_UID l) = Inr l"
proof -
  have data: "data = render (ledger_json l)" "TrimSpace (l_UID l) \<noteq> []" "int (length data) \<le> DefaultMaxSerializedBytes"
    using assms(4) by (auto simp: Encode_def Let_def split: if_splits)
  have "parse_value data = Some (ledger_json l, [])"
    unfolding data by (rule parse_render [OF json_ok_ledger [OF assms(1,2)]])
  then show ?thesis
    using data assms to_ledger_json [of E l] validatePersistedLedger_iff [of E l]
    by (simp add: Decode_def ledger_wf_def)
qed

section \<open>What decoding guarantees\<close>

lemma assign_members_inv:
  assumes "assign_members f ms a = Some b" "P a" "\<And>k v a b. P a \<Longrightarrow> f k v a = Some b \<Longrightarrow> P b"
  shows "P b"
  using assms(1,2) by (induction ms arbitrary: a) (auto split: option.splits dest: assms(3))

lemma assign_struct_inv:
  assumes "assign_struct names f j a = Some b" "P a" "\<And>k v a b. P a \<Longrightarrow> f k v a = Some b \<Longrightarrow> P b"
  shows "P b"
proof (cases j)
  case (JObj ms)
  with assms(1) have "assign_members
      (\<lambda>key v b. case match_field names key of None \<Rightarrow> None | Some n \<Rightarrow> f n v b) ms a = Some b"
    by (simp add: assign_struct_def)
  then show ?thesis
    by (rule assign_members_inv [where P = P]) (use assms(2,3) in \<open>auto split: option.splits\<close>)
qed (use assms(1,2) in \<open>auto simp: assign_struct_def\<close>)

lemma ParseInt64_range: "ParseInt64 t = Some i \<Longrightarrow> i < 2 ^ 63"
  by (auto simp: ParseInt64_def split: option.splits if_splits)

lemma to_int64_range: "to_int64 j old = Some i \<Longrightarrow> old < 2 ^ 63 \<Longrightarrow> i < 2 ^ 63"
  by (auto simp: to_int64_def split: json.splits dest: ParseInt64_range)

lemma to_reservation_storable:
  assumes "to_reservation j = Some r"
  shows "storable r"
proof -
  obtain bk where "assign_struct reservation_fields set_reservation_field j (zero_reservation, []) = Some (r, bk)"
    using assms by (auto simp: to_reservation_def)
  then have "storable (fst (r, bk))"
  proof (rule assign_struct_inv [where P = "\<lambda>rb. storable (fst rb)"])
    show "storable (fst b)" if "storable (fst a)" "set_reservation_field k v a = Some b" for k v a b
      using that
      by (auto simp: set_reservation_field_def Let_def storable_def split: if_splits dest!: to_int64_range)
  qed (simp add: storable_def zero_reservation_def)
  then show ?thesis by simp
qed

lemma to_fence_range:
  assumes "to_fence j old = Some f'" "\<And>f. old = Some f \<Longrightarrow> f_PolicyEpoch f < 2 ^ 63" "f' = Some f"
  shows "f_PolicyEpoch f < 2 ^ 63"
proof -
  have "assign_struct fence_fields set_fence_field j (case old of None \<Rightarrow> zero_fence | Some f \<Rightarrow> f) = Some f"
    using assms by (auto simp: to_fence_def split: if_splits)
  then show ?thesis
  proof (rule assign_struct_inv [where P = "\<lambda>f. f_PolicyEpoch f < 2 ^ 63"])
    show "f_PolicyEpoch b < 2 ^ 63" if "f_PolicyEpoch a < 2 ^ 63" "set_fence_field k v a = Some b" for k v a b
      using that by (auto simp: set_fence_field_def split: if_splits dest!: to_int64_range)
  qed (use assms(2) in \<open>auto simp: zero_fence_def split: option.split\<close>)
qed

lemma to_reservations_storable:
  assumes "to_reservations j old = Some (m, a)" "\<forall>k r. fmlookup old k = Some r \<longrightarrow> storable r"
  shows "\<forall>k r. fmlookup m k = Some r \<longrightarrow> storable r"
proof (cases "j = JNull")
  case False
  then obtain ms where
    "assign_members (\<lambda>k v m. map_option (\<lambda>r. fmupd k r m) (to_reservation v)) ms old = Some m"
    using assms(1) by (auto simp: to_reservations_def split: json.splits)
  then show ?thesis
    by (rule assign_members_inv [where P = "\<lambda>m. \<forall>k r. fmlookup m k = Some r \<longrightarrow> storable r"])
      (use assms(2) in \<open>auto split: if_splits dest: to_reservation_storable\<close>)
qed (use assms(1) in \<open>auto simp: to_reservations_def\<close>)

lemma ledger_storable_iff:
  "ledger_storable l \<longleftrightarrow> (\<forall>k r. fmlookup (l_Reservations l) k = Some r \<longrightarrow> storable r) \<and>
     (\<forall>f. l_LastReleaseFence l = Some f \<longrightarrow> f_PolicyEpoch f < 2 ^ 63)"
  by (auto simp: ledger_storable_def list_all_iff set_gm_vals split: option.splits)

lemma set_ledger_field_storable:
  assumes "ledger_storable (fst a)" "set_ledger_field k v a = Some b"
  shows "ledger_storable (fst b)"
proof -
  have f: "to_fence v (l_LastReleaseFence (fst a)) = Some f' \<Longrightarrow> f' = Some f \<Longrightarrow> f_PolicyEpoch f < 2 ^ 63" for f' f
    using to_fence_range assms(1) unfolding ledger_storable_iff by blast
  have r: "to_reservations v (l_Reservations (fst a)) = Some (m, al) \<Longrightarrow>
      \<forall>k r. fmlookup m k = Some r \<longrightarrow> storable r" for m al
    using to_reservations_storable assms(1) unfolding ledger_storable_iff by blast
  show ?thesis
    using assms f r by (auto simp: set_ledger_field_def Let_def ledger_storable_iff split: if_splits)
qed

theorem Decode_sound:
  assumes "Decode E data uid = Inr l"
  shows "ledger_wf E l \<and> ledger_storable l \<and> l_UID l = uid"
proof -
  obtain j a where j: "to_ledger j = Some (l, a)"
    using assms by (auto simp: Decode_def split: if_splits option.splits prod.splits)
  have "ledger_storable (fst (l, a))"
    by (rule assign_struct_inv [OF j [unfolded to_ledger_def], where P = "\<lambda>la. ledger_storable (fst la)"])
      (simp add: ledger_storable_iff, erule (1) set_ledger_field_storable)
  moreover have "validatePersistedLedger E l = None" "l_UID l = uid"
    using assms by (auto simp: Decode_def split: if_splits option.splits prod.splits)
  ultimately show ?thesis by (simp add: validatePersistedLedger_iff)
qed

end
