(* ===== verification/Ledger_Reserve.thy ===== *)
theory Ledger_Reserve
  imports Ledger_Transitions Ledger_Codec
begin

text \<open>
  Admission: \<^verbatim>\<open>Reserve\<close> of \<^verbatim>\<open>internal/topologyrollout/ledger.go\<close> and
  everything it evaluates. A \<^verbatim>\<open>map[string]struct{}\<close> is a \<^typ>\<open>unit gomap\<close>.
\<close>

subsection \<open>Helpers\<close>

text \<open>\<^verbatim>\<open>sort.SearchStrings\<close>: the least index whose element is not below the value,
  by bisection of the half-open interval from \<open>i\<close> to \<open>j\<close>.\<close>

function search_strings :: "string list \<Rightarrow> string \<Rightarrow> nat \<Rightarrow> nat \<Rightarrow> nat" where
  "search_strings values x i j =
     (if i < j then
        let h = (i + j) div 2
        in if values ! h \<ge> x then search_strings values x i h else search_strings values x (h + 1) j
      else i)"
  by pat_completeness auto
termination by (relation "measure (\<lambda>(_, _, i, j). j - i)") auto

declare search_strings.simps [simp del]

definition containsSorted :: "string list \<Rightarrow> string \<Rightarrow> bool" where
  "containsSorted values value =
     (let index = search_strings values value 0 (length values)
      in index < length values \<and> values ! index = value)"

fun equalStrings :: "string list \<Rightarrow> string list \<Rightarrow> bool" where
  "equalStrings [] [] = True"
| "equalStrings (x # xs) (y # ys) = (x = y \<and> equalStrings xs ys)"
| "equalStrings _ _ = False"

definition cloneStringMap :: "string gomap \<Rightarrow> string gomap" where
  "cloneStringMap m = foldl (\<lambda>out (k, v). fmupd k v out) fmempty (gm_entries m)"

definition equalStringMap :: "string gomap \<Rightarrow> string gomap \<Rightarrow> bool" where
  "equalStringMap a b =
     (if gm_len a \<noteq> gm_len b then False
      else list_all (\<lambda>(key, value). gm_str b key = value) (gm_entries a))"

definition effectiveLimit :: "int \<Rightarrow> int \<Rightarrow> int" where
  "effectiveLimit admin campaign = (if campaign > 0 \<and> campaign < admin then campaign else admin)"

definition clearCampaignLimits :: "'a reservation_request_scheme \<Rightarrow> 'a reservation_request_scheme" where
  "clearCampaignLimits r =
     r\<lparr> rq_CampaignMaxConcurrentTransfers := 0, rq_CampaignMaxUnavailable := 0,
        rq_CampaignTransferLimits := fmempty, rq_CampaignLimits := fmempty \<rparr>"

definition sameRequest :: "'a reservation_request_scheme \<Rightarrow> 'b reservation_request_scheme \<Rightarrow> bool" where
  "sameRequest a b \<longleftrightarrow>
     render (JObj (request_members (clearCampaignLimits a))) = render (JObj (request_members (clearCampaignLimits b)))"

subsection \<open>Fleet members\<close>

definition merge_observation :: "member \<Rightarrow> member \<Rightarrow> member" where
  "merge_observation previous m =
     previous\<lparr> m_HealthKnown := m_HealthKnown previous \<and> m_HealthKnown m,
               m_Healthy := m_Healthy previous \<and> m_Healthy m,
               m_Maintenance := m_Maintenance previous \<or> m_Maintenance m,
               m_HealthObserved := (if m_HealthObserved m < m_HealthObserved previous
                                    then m_HealthObserved m else m_HealthObserved previous) \<rparr>"

fun canonicalize_loop :: "ext \<Rightarrow> member gomap \<Rightarrow> member list \<Rightarrow> rollout_err + member gomap" where
  "canonicalize_loop E out [] = Inr out"
| "canonicalize_loop E out (m # ms) =
     (if m_PhysicalID m = [] \<or> m_DeviceUID m = [] \<or> m_NodeUID m = []
      then Inl (Plain ''fleet member has incomplete identity'')
      else if validateRiskGroupNames E (m_RiskGroups m) \<noteq> None then Inl (Plain ''fleet member risk groups'')
      else case fmlookup out (m_PhysicalID m) of
        Some previous \<Rightarrow>
          if m_DeviceUID previous \<noteq> m_DeviceUID m \<or> m_NodeUID previous \<noteq> m_NodeUID m \<or>
             \<not> equalStringMap (m_Domains previous) (m_Domains m) \<or>
             \<not> equalStrings (m_RiskGroups previous) (m_RiskGroups m)
          then Inl (Plain ''duplicate physical identity has conflicting membership'')
          else canonicalize_loop E (fmupd (m_PhysicalID m) (merge_observation previous m) out) ms
      | None \<Rightarrow>
          canonicalize_loop E (fmupd (m_PhysicalID m) (m\<lparr> m_Domains := cloneStringMap (m_Domains m) \<rparr>) out) ms)"

definition canonicalizeMembers :: "ext \<Rightarrow> member list \<Rightarrow> rollout_err + member gomap" where
  "canonicalizeMembers E members = canonicalize_loop E fmempty members"

subsection \<open>Counting\<close>

definition activeReservationsInRiskGroup :: "ledger \<Rightarrow> string \<Rightarrow> int" where
  "activeReservationsInRiskGroup l grp =
     gm_count (\<lambda>r. containsSorted (rq_RiskGroups r) grp) (l_Reservations l)"

definition activeReservationsInDomain :: "ledger \<Rightarrow> string \<Rightarrow> string \<Rightarrow> int" where
  "activeReservationsInDomain l key value = gm_count (\<lambda>r. gm_str (rq_Domains r) key = value) (l_Reservations l)"

definition activeReservationsForCampaign :: "ledger \<Rightarrow> string \<Rightarrow> int" where
  "activeReservationsForCampaign l campaignUID = gm_count (\<lambda>r. rq_CampaignUID r = campaignUID) (l_Reservations l)"

definition activeReservationsForCampaignInDomain :: "ledger \<Rightarrow> string \<Rightarrow> string \<Rightarrow> string \<Rightarrow> int" where
  "activeReservationsForCampaignInDomain l campaignUID key value =
     gm_count (\<lambda>r. rq_CampaignUID r = campaignUID \<and> gm_str (rq_Domains r) key = value) (l_Reservations l)"

text \<open>Adding the keys an entry contributes to a set, over all entries of a map.\<close>

definition collect :: "(string \<times> 'v \<Rightarrow> string option) \<Rightarrow> 'v gomap \<Rightarrow> unit gomap \<Rightarrow> unit gomap" where
  "collect f m s = fold (\<lambda>e s. case f e of None \<Rightarrow> s | Some x \<Rightarrow> fmupd x () s) (gm_entries m) s"

definition unavailablePhysicalIDsInRiskGroup ::
  "member gomap \<Rightarrow> ledger \<Rightarrow> policy \<Rightarrow> string \<Rightarrow> unit gomap" where
  "unavailablePhysicalIDsInRiskGroup members l policy grp =
     collect (\<lambda>(_, r). if containsSorted (rq_RiskGroups r) grp then Some (rq_PhysicalID r) else None)
       (l_Reservations l)
       (collect (\<lambda>(physicalID, m).
          if containsSorted (m_RiskGroups m) grp \<and> member_unavailable m policy then Some physicalID else None)
          members fmempty)"

definition unavailablePhysicalIDs ::
  "member gomap \<Rightarrow> ledger \<Rightarrow> policy \<Rightarrow> string \<Rightarrow> string \<Rightarrow> unit gomap" where
  "unavailablePhysicalIDs members l policy domainKey domainValue =
     collect (\<lambda>(_, r).
        if domainKey \<noteq> [] \<and> gm_str (rq_Domains r) domainKey \<noteq> domainValue then None else Some (rq_PhysicalID r))
       (l_Reservations l)
       (collect (\<lambda>(key, m).
          if domainKey \<noteq> [] \<and> gm_str (m_Domains m) domainKey \<noteq> domainValue then None
          else if member_unavailable m policy then Some key else None)
          members fmempty)"

subsection \<open>Reserve\<close>

definition required_fields :: "reservation_request \<Rightarrow> string list" where
  "required_fields q =
     [rq_ID q, rq_CampaignUID q, rq_PlanHash q, rq_PhysicalID q, rq_DeviceUID q, rq_NodeUID q,
      rq_ChildNamespace q, rq_ChildName q]"

definition group_budget_err :: "ext \<Rightarrow> string \<times> risk_group_budget \<Rightarrow> rollout_err option" where
  "group_budget_err E nb =
     (if \<not> IsDNS1123Label E (fst nb) then Some (Plain ''administrator risk group is invalid'')
      else err_if (b_MaxConcurrentTransfers (snd nb) < 1 \<or> b_MaxUnavailable (snd nb) < 1)
             (Plain ''administrator risk group budgets must be positive''))"

definition validateInputs :: "ext \<Rightarrow> ledger \<Rightarrow> policy \<Rightarrow> reservation_request \<Rightarrow> rollout_err option" where
  "validateInputs E l policy request =
     or_err (err_if (l_Version l \<noteq> LedgerVersion \<or> l_UID l = []) wrong_ledger)
    (or_err (err_if (p_UID policy = [] \<or> p_Version policy = [] \<or> p_Epoch policy < 1 \<or>
                     rq_PolicyUID request \<noteq> p_UID policy \<or> rq_PolicyVersion request \<noteq> p_Version policy \<or>
                     rq_PolicyEpoch request \<noteq> p_Epoch policy)
               (Wrapped ErrLedgerIdentity ''policy identity changed''))
    (or_err (err_if (\<not> validTopologyLockID (rq_TopologyLockID request))
               (Wrapped ErrLedgerIdentity ''topology lock acquisition identity is invalid''))
    (or_err (err_if (p_GlobalMaxConcurrentTransfers policy < 1 \<or> p_GlobalMaxUnavailable policy < 1)
               (Plain ''administrator global transfer and unavailable budgets must be positive''))
    (or_err (validateRiskGroupNames E (rq_RiskGroups request))
    (or_err (err_if (gm_len (p_RiskGroupBudgets policy) > 16)
               (Plain ''administrator risk-group budgets exceed 16 entries''))
    (or_err (first_err (group_budget_err E) (gm_entries (p_RiskGroupBudgets policy)))
    (or_err (first_err (\<lambda>value. err_if (TrimSpace value = []) (Plain ''is required'')) (required_fields request))
    (or_err (first_err (\<lambda>key. err_if (gm_str (rq_Domains request) key = []) (Plain ''reservation domain is required''))
               (gm_keys (p_DomainBudgets policy)))
            (first_err (\<lambda>key. err_if (gm_str (rq_Domains request) key = []) (Plain ''reservation transfer domain is required''))
               (gm_keys (p_DomainTransferBudgets policy)))))))))))"

text \<open>The sorted keys of both domain budgets, without repetition.\<close>

definition domain_keys :: "policy \<Rightarrow> string list" where
  "domain_keys policy =
     sort (gm_keys (p_DomainBudgets policy) @
           filter (\<lambda>key. fmlookup (p_DomainBudgets policy) key = None) (gm_keys (p_DomainTransferBudgets policy)))"

definition target_err :: "ledger \<Rightarrow> policy \<Rightarrow> member gomap \<Rightarrow> reservation_request \<Rightarrow> rollout_err option" where
  "target_err l policy canonicalMembers request =
     (case fmlookup canonicalMembers (rq_PhysicalID request) of
        None \<Rightarrow> Some (Wrapped ErrTargetUnavailable ''target identity is absent or changed'')
      | Some target \<Rightarrow>
          or_err (err_if (m_DeviceUID target \<noteq> rq_DeviceUID request \<or> m_NodeUID target \<noteq> rq_NodeUID request)
                    (Wrapped ErrTargetUnavailable ''target identity is absent or changed''))
         (or_err (err_if (member_unavailable target policy) (Wrapped ErrTargetUnavailable ''''))
         (or_err (first_err (\<lambda>key. err_if (gm_str (rq_Domains request) key = [] \<or>
                                           gm_str (rq_Domains request) key \<noteq> gm_str (m_Domains target) key)
                                      (Plain ''invalid or stale domain for target'')) (domain_keys policy))
         (or_err (err_if (\<not> equalStrings (rq_RiskGroups request) (m_RiskGroups target))
                    (Plain ''invalid or stale risk-group membership for target''))
                 (first_err (\<lambda>r. err_if (rq_PhysicalID r = rq_PhysicalID request)
                                    (Wrapped ErrAlreadyReserved ''physical identity is held''))
                    (gm_vals (l_Reservations l)))))))"

definition exceeded :: "int \<Rightarrow> int \<Rightarrow> rollout_err option" where
  "exceeded used limit = err_if (used > limit) (Wrapped ErrBudgetExceeded '''')"

definition with_target :: "reservation_request \<Rightarrow> unit gomap \<Rightarrow> int" where
  "with_target request unavailable = gm_len (fmupd (rq_PhysicalID request) () unavailable)"

definition global_err :: "ledger \<Rightarrow> policy \<Rightarrow> member gomap \<Rightarrow> reservation_request \<Rightarrow> rollout_err option" where
  "global_err l policy members request =
     (let activeLimit = (if p_MaxActiveRecords policy \<le> 0 then DefaultMaxActiveRecords else p_MaxActiveRecords policy)
      in or_err (err_if (gm_len (l_Reservations l) \<ge> activeLimit) (Wrapped ErrLedgerFull ''active records''))
        (or_err (exceeded (with_target request (unavailablePhysicalIDs members l policy [] []))
                   (p_GlobalMaxUnavailable policy))
        (or_err (exceeded (activeReservationsForCampaign l (rq_CampaignUID request) + 1)
                   (effectiveLimit (p_GlobalMaxUnavailable policy) (rq_CampaignMaxUnavailable request)))
        (or_err (exceeded (gm_len (l_Reservations l) + 1) (p_GlobalMaxConcurrentTransfers policy))
                (exceeded (activeReservationsForCampaign l (rq_CampaignUID request) + 1)
                   (effectiveLimit (p_GlobalMaxConcurrentTransfers policy)
                      (rq_CampaignMaxConcurrentTransfers request)))))))"

definition domain_budget_err ::
  "ledger \<Rightarrow> policy \<Rightarrow> member gomap \<Rightarrow> reservation_request \<Rightarrow> string \<Rightarrow> rollout_err option" where
  "domain_budget_err l policy members request key =
     (let value = gm_str (rq_Domains request) key;
          campaign = activeReservationsForCampaignInDomain l (rq_CampaignUID request) key value + 1
      in or_err
           (case fmlookup (p_DomainBudgets policy) key of
              None \<Rightarrow> None
            | Some unavailableCeiling \<Rightarrow>
                or_err (exceeded (with_target request (unavailablePhysicalIDs members l policy key value)) unavailableCeiling)
                       (exceeded campaign (effectiveLimit unavailableCeiling (gm_int (rq_CampaignLimits request) key))))
           (case fmlookup (p_DomainTransferBudgets policy) key of
              None \<Rightarrow> None
            | Some transferCeiling \<Rightarrow>
                or_err (exceeded (activeReservationsInDomain l key value + 1) transferCeiling)
                       (exceeded campaign (effectiveLimit transferCeiling (gm_int (rq_CampaignTransferLimits request) key)))))"

definition risk_group_err ::
  "ledger \<Rightarrow> policy \<Rightarrow> member gomap \<Rightarrow> reservation_request \<Rightarrow> string \<Rightarrow> rollout_err option" where
  "risk_group_err l policy members request grp =
     (case fmlookup (p_RiskGroupBudgets policy) grp of
        None \<Rightarrow> Some (Plain ''target references unknown risk group'')
      | Some budget \<Rightarrow>
          or_err (exceeded (with_target request (unavailablePhysicalIDsInRiskGroup members l policy grp))
                    (b_MaxUnavailable budget))
                 (exceeded (activeReservationsInRiskGroup l grp + 1) (b_MaxConcurrentTransfers budget)))"

definition admission_err :: "ledger \<Rightarrow> policy \<Rightarrow> member gomap \<Rightarrow> reservation_request \<Rightarrow> rollout_err option" where
  "admission_err l policy members request =
     or_err (target_err l policy members request)
    (or_err (global_err l policy members request)
    (or_err (first_err (domain_budget_err l policy members request) (domain_keys policy))
            (first_err (risk_group_err l policy members request) (rq_RiskGroups request))))"

definition new_reservation :: "reservation_request \<Rightarrow> reservation" where
  "new_reservation request =
     reservation_request.extend
       (clearCampaignLimits (request\<lparr> rq_Domains := cloneStringMap (rq_Domains request) \<rparr>))
       (reservation.fields [] ReservationReserved [] [] [])"

definition Reserve :: "ext \<Rightarrow> ledger \<Rightarrow> policy \<Rightarrow> member list \<Rightarrow> reservation_request \<Rightarrow> outcome" where
  "Reserve E l policy members request =
     (case validateInputs E l policy request of
        Some e \<Rightarrow> fails e l
      | None \<Rightarrow>
          if releaseFenceMatches (l_LastReleaseFence l) (rq_ID request) (rq_PolicyEpoch request) (rq_TopologyLockID request)
          then fails (Wrapped ErrStaleControlRevision ''topology-lock acquisition was durably released'') l
          else case reservation_at l (rq_ID request) of
            Some existing \<Rightarrow>
              if sameRequest existing request then succeeds l
              else fails (Wrapped ErrAlreadyReserved ''reservation ID has different identity'') l
          | None \<Rightarrow>
              (case canonicalizeMembers E members of
                 Inl e \<Rightarrow> fails e l
               | Inr canonicalMembers \<Rightarrow>
                   (case admission_err l policy canonicalMembers request of
                      Some e \<Rightarrow> fails e l
                    | None \<Rightarrow>
                        let l' = put_reservation (rq_ID request) (new_reservation request) l
                        in case validatePersistedLedger E l' of
                             Some e \<Rightarrow> fails e (delete_reservation (rq_ID request) l')
                           | None \<Rightarrow>
                               (case Encode l' (p_MaxSerializedBytes policy) of
                                  Inl e \<Rightarrow> fails e (delete_reservation (rq_ID request) l')
                                | Inr _ \<Rightarrow> succeeds l'))))"

section \<open>Correctness of the helpers\<close>

lemma search_strings_bounds:
  assumes "sorted vs" "i \<le> j" "j \<le> length vs"
    and "\<forall>k < i. vs ! k < x" "\<forall>k. j \<le> k \<and> k < length vs \<longrightarrow> x \<le> vs ! k"
  shows "search_strings vs x i j \<le> length vs \<and>
    (\<forall>k < search_strings vs x i j. vs ! k < x) \<and>
    (\<forall>k. search_strings vs x i j \<le> k \<and> k < length vs \<longrightarrow> x \<le> vs ! k)"
  using assms
proof (induction vs x i j rule: search_strings.induct)
  case (1 vs x i j)
  show ?case
  proof (cases "i < j")
    case False
    then have "search_strings vs x i j = i" by (simp add: search_strings.simps)
    with False 1(4-7) show ?thesis by simp
  next
    case True
    let ?h = "(i + j) div 2"
    have h: "i \<le> ?h" "?h < j" "?h < length vs" using True 1(5) by auto
    have up: "vs ! ?h \<le> vs ! k" if "?h \<le> k" "k < length vs" for k
      using sorted_nth_mono [OF 1(3)] that by simp
    have down: "vs ! k \<le> vs ! ?h" if "k \<le> ?h" for k
      using sorted_nth_mono [OF 1(3)] that h by simp
    show ?thesis
    proof (cases "x \<le> vs ! ?h")
      case left: True
      then have A: "\<forall>k. ?h \<le> k \<and> k < length vs \<longrightarrow> x \<le> vs ! k" using up order_trans by blast
      have eq: "search_strings vs x i j = search_strings vs x i ?h"
        using True left by (simp add: search_strings.simps [of vs x i j])
      show ?thesis
        unfolding eq by (rule 1(1) [OF True refl left 1(3) h(1) less_imp_le [OF h(3)] 1(6) A])
    next
      case right: False
      then have A: "\<forall>k < ?h + 1. vs ! k < x" using down by (metis Suc_eq_plus1 less_Suc_eq_le le_less_trans not_le)
      have eq: "search_strings vs x i j = search_strings vs x (?h + 1) j"
        using True right by (simp add: search_strings.simps [of vs x i j])
      show ?thesis
        unfolding eq by (rule 1(2) [OF True refl right 1(3) _ 1(5) A 1(7)]) (use h(2) in simp)
    qed
  qed
qed

lemma containsSorted_iff:
  assumes "sorted vs"
  shows "containsSorted vs v \<longleftrightarrow> v \<in> set vs"
proof -
  let ?n = "search_strings vs v 0 (length vs)"
  have "?n \<le> length vs \<and> (\<forall>k < ?n. vs ! k < v) \<and> (\<forall>k. ?n \<le> k \<and> k < length vs \<longrightarrow> v \<le> vs ! k)"
    by (rule search_strings_bounds [OF assms]) (simp_all, linarith)
  then have n: "\<forall>k < ?n. vs ! k < v" "\<forall>k. ?n \<le> k \<and> k < length vs \<longrightarrow> v \<le> vs ! k"
    by blast+
  have "?n < length vs \<and> vs ! ?n = v" if "v \<in> set vs"
  proof -
    from that obtain k where k: "k < length vs" "vs ! k = v" by (auto simp: in_set_conv_nth)
    then have "?n \<le> k" using n(1) by (meson leI less_irrefl)
    with k n(2) show ?thesis using sorted_nth_mono [OF assms, of ?n k] by fastforce
  qed
  then show ?thesis unfolding containsSorted_def Let_def by (metis nth_mem)
qed

lemma equalStrings_iff [simp]: "equalStrings xs ys \<longleftrightarrow> xs = ys"
  by (induction xs ys rule: equalStrings.induct) auto

lemma cloneStringMap_id [simp]: "cloneStringMap m = m"
  by (simp add: cloneStringMap_def foldl_gm_entries)

lemma set_domain_keys:
  "set (domain_keys policy) = fmdom' (p_DomainBudgets policy) \<union> fmdom' (p_DomainTransferBudgets policy)"
  by (auto simp: domain_keys_def set_gm_keys fmlookup_dom'_iff)

lemma dom_collect:
  "fmdom' (collect f m s) = {x. \<exists>k v. fmlookup m k = Some v \<and> f (k, v) = Some x} \<union> fmdom' s"
proof -
  have "fmdom' (fold (\<lambda>e s. case f e of None \<Rightarrow> s | Some x \<Rightarrow> fmupd x () s) xs s)
      = {x. \<exists>e \<in> set xs. f e = Some x} \<union> fmdom' s" for xs
    by (induction xs arbitrary: s) (auto split: option.splits)
  then show ?thesis by (auto simp: collect_def set_gm_entries)
qed

section \<open>Outcomes of Reserve\<close>

lemma delete_put_new: "reservation_at l k = None \<Longrightarrow> delete_reservation k (put_reservation k r l) = l"
  by (simp add: delete_reservation_def put_reservation_def fmdrop_upd_new)

lemma Reserve_error_keeps: "Reserve E l policy ms q = (Some e, l') \<Longrightarrow> l' = l"
  by (auto simp: Reserve_def Let_def delete_put_new split: option.splits if_splits sum.splits)

text \<open>What a successful call has established when it admits a new reservation.\<close>

definition admitted :: "ext \<Rightarrow> ledger \<Rightarrow> policy \<Rightarrow> member gomap \<Rightarrow> reservation_request \<Rightarrow> bool" where
  "admitted E l policy cm q \<longleftrightarrow>
     validateInputs E l policy q = None \<and>
     \<not> releaseFenceMatches (l_LastReleaseFence l) (rq_ID q) (rq_PolicyEpoch q) (rq_TopologyLockID q) \<and>
     reservation_at l (rq_ID q) = None \<and> admission_err l policy cm q = None"

lemma Reserve_success:
  assumes "Reserve E l policy ms q = (None, l')"
  obtains (replay) existing where "reservation_at l (rq_ID q) = Some existing" "sameRequest existing q" "l' = l"
    "\<not> releaseFenceMatches (l_LastReleaseFence l) (rq_ID q) (rq_PolicyEpoch q) (rq_TopologyLockID q)"
  | (admit) cm data where "canonicalizeMembers E ms = Inr cm" "admitted E l policy cm q"
      "l' = put_reservation (rq_ID q) (new_reservation q) l" "ledger_wf E l'"
      "Encode l' (p_MaxSerializedBytes policy) = Inr data"
proof (cases "reservation_at l (rq_ID q)")
  case None
  then show ?thesis
    using assms admit
    by (auto simp: Reserve_def Let_def admitted_def validatePersistedLedger_iff split: option.splits if_splits sum.splits)
next
  case (Some existing)
  then show ?thesis
    using assms replay by (auto simp: Reserve_def split: option.splits if_splits)
qed

lemma new_reservation_fields [simp]:
  "rq_ID (new_reservation q) = rq_ID q" "rq_CampaignUID (new_reservation q) = rq_CampaignUID q"
  "rq_PlanHash (new_reservation q) = rq_PlanHash q" "rq_PolicyUID (new_reservation q) = rq_PolicyUID q"
  "rq_PolicyVersion (new_reservation q) = rq_PolicyVersion q" "rq_PolicyEpoch (new_reservation q) = rq_PolicyEpoch q"
  "rq_TopologyLockID (new_reservation q) = rq_TopologyLockID q" "rq_PhysicalID (new_reservation q) = rq_PhysicalID q"
  "rq_DeviceUID (new_reservation q) = rq_DeviceUID q" "rq_NodeUID (new_reservation q) = rq_NodeUID q"
  "rq_ChildNamespace (new_reservation q) = rq_ChildNamespace q" "rq_ChildName (new_reservation q) = rq_ChildName q"
  "rq_Domains (new_reservation q) = rq_Domains q" "rq_RiskGroups (new_reservation q) = rq_RiskGroups q"
  "rq_ControlRevision (new_reservation q) = rq_ControlRevision q"
  "r_State (new_reservation q) = ReservationReserved" "r_ChildUID (new_reservation q) = []"
  "r_DrainSessionToken (new_reservation q) = []" "r_DrainStartedAt (new_reservation q) = []"
  "r_DrainCompletedAt (new_reservation q) = []"
  by (simp_all add: new_reservation_def clearCampaignLimits_def reservation_request.defs reservation.defs)

lemma new_reservation_storable: "storable (new_reservation q) \<longleftrightarrow> rq_PolicyEpoch q < 2 ^ 63"
  by (simp add: storable_def new_reservation_def clearCampaignLimits_def reservation_request.defs reservation.defs)

section \<open>Budgets\<close>

text \<open>
  The physical devices that count against a budget: the members found unavailable and the
  devices of the reservations held, both restricted to the dimension of the budget.
\<close>

definition down_ids ::
  "member gomap \<Rightarrow> ledger \<Rightarrow> policy \<Rightarrow> (member \<Rightarrow> bool) \<Rightarrow> (reservation \<Rightarrow> bool) \<Rightarrow> string set" where
  "down_ids cm l policy M R =
     {x. \<exists>m. fmlookup cm x = Some m \<and> M m \<and> member_unavailable m policy} \<union>
     {rq_PhysicalID r | k r. reservation_at l k = Some r \<and> R r}"

definition within_global_budgets :: "member gomap \<Rightarrow> ledger \<Rightarrow> policy \<Rightarrow> reservation_request \<Rightarrow> bool" where
  "within_global_budgets cm l policy q \<longleftrightarrow>
     int (card (down_ids cm l policy (\<lambda>_. True) (\<lambda>_. True))) \<le> p_GlobalMaxUnavailable policy \<and>
     gm_len (l_Reservations l) \<le> p_GlobalMaxConcurrentTransfers policy \<and>
     gm_len (l_Reservations l) \<le> (if p_MaxActiveRecords policy \<le> 0 then 256 else p_MaxActiveRecords policy) \<and>
     activeReservationsForCampaign l (rq_CampaignUID q)
       \<le> effectiveLimit (p_GlobalMaxUnavailable policy) (rq_CampaignMaxUnavailable q) \<and>
     activeReservationsForCampaign l (rq_CampaignUID q)
       \<le> effectiveLimit (p_GlobalMaxConcurrentTransfers policy) (rq_CampaignMaxConcurrentTransfers q)"

definition within_domain_budgets :: "member gomap \<Rightarrow> ledger \<Rightarrow> policy \<Rightarrow> reservation_request \<Rightarrow> bool" where
  "within_domain_budgets cm l policy q \<longleftrightarrow>
     (\<forall>key ceiling. fmlookup (p_DomainBudgets policy) key = Some ceiling \<longrightarrow>
        int (card (down_ids cm l policy (\<lambda>m. gm_str (m_Domains m) key = gm_str (rq_Domains q) key)
                                        (\<lambda>r. gm_str (rq_Domains r) key = gm_str (rq_Domains q) key))) \<le> ceiling \<and>
        activeReservationsForCampaignInDomain l (rq_CampaignUID q) key (gm_str (rq_Domains q) key)
          \<le> effectiveLimit ceiling (gm_int (rq_CampaignLimits q) key)) \<and>
     (\<forall>key ceiling. fmlookup (p_DomainTransferBudgets policy) key = Some ceiling \<longrightarrow>
        activeReservationsInDomain l key (gm_str (rq_Domains q) key) \<le> ceiling \<and>
        activeReservationsForCampaignInDomain l (rq_CampaignUID q) key (gm_str (rq_Domains q) key)
          \<le> effectiveLimit ceiling (gm_int (rq_CampaignTransferLimits q) key))"

definition within_group_budgets :: "member gomap \<Rightarrow> ledger \<Rightarrow> policy \<Rightarrow> reservation_request \<Rightarrow> bool" where
  "within_group_budgets cm l policy q \<longleftrightarrow>
     (\<forall>grp \<in> set (rq_RiskGroups q). \<exists>budget. fmlookup (p_RiskGroupBudgets policy) grp = Some budget \<and>
        int (card (down_ids cm l policy (\<lambda>m. containsSorted (m_RiskGroups m) grp)
                                        (\<lambda>r. containsSorted (rq_RiskGroups r) grp))) \<le> b_MaxUnavailable budget \<and>
        activeReservationsInRiskGroup l grp \<le> b_MaxConcurrentTransfers budget)"

lemma exceeded_None [simp]: "exceeded used limit = None \<longleftrightarrow> used \<le> limit"
  by (auto simp: exceeded_def)

lemma put_new_simps [simp]:
  "l_Reservations (put_reservation k r l) = fmupd k r (l_Reservations l)"
  "l_UID (put_reservation k r l) = l_UID l" "l_Version (put_reservation k r l) = l_Version l"
  "l_LastReleaseFence (put_reservation k r l) = l_LastReleaseFence l"
  by (simp_all add: put_reservation_def)

lemma down_ids_put:
  "down_ids cm (put_reservation k r l) policy M R \<subseteq> insert (rq_PhysicalID r) (down_ids cm l policy M R)"
  by (auto simp: down_ids_def split: if_splits)

lemma card_down_ids_put:
  assumes "with_target q U \<le> limit" "down_ids cm l policy M R \<subseteq> fmdom' U"
  shows "int (card (down_ids cm (put_reservation (rq_ID q) (new_reservation q) l) policy M R)) \<le> limit"
proof -
  have "down_ids cm (put_reservation (rq_ID q) (new_reservation q) l) policy M R
      \<subseteq> insert (rq_PhysicalID q) (fmdom' U)" (is "?S \<subseteq> ?T")
    using down_ids_put [of cm "rq_ID q" "new_reservation q" l policy M R] assms(2) by auto
  then have "card ?S \<le> card ?T" by (intro card_mono) auto
  with assms(1) show ?thesis by (simp add: with_target_def gm_len_card)
qed

lemma admitted_global:
  assumes "admitted E l policy cm q"
  shows "within_global_budgets cm (put_reservation (rq_ID q) (new_reservation q) l) policy q"
proof -
  have new: "reservation_at l (rq_ID q) = None" and g: "global_err l policy cm q = None"
    using assms by (auto simp: admitted_def admission_err_def)
  have "down_ids cm l policy (\<lambda>_. True) (\<lambda>_. True) \<subseteq> fmdom' (unavailablePhysicalIDs cm l policy [] [])"
    by (auto simp: down_ids_def unavailablePhysicalIDs_def dom_collect)
  then show ?thesis
    using g new
    by (auto simp: within_global_budgets_def global_err_def Let_def gm_len_upd_new
        activeReservationsForCampaign_def gm_count_upd_new card_down_ids_put split: if_splits)
qed

lemma admitted_domains:
  assumes "admitted E l policy cm q"
  shows "within_domain_budgets cm (put_reservation (rq_ID q) (new_reservation q) l) policy q"
proof -
  have new: "reservation_at l (rq_ID q) = None"
    and d: "\<And>key. key \<in> set (domain_keys policy) \<Longrightarrow> domain_budget_err l policy cm q key = None"
    using assms by (auto simp: admitted_def admission_err_def)
  have sub: "down_ids cm l policy (\<lambda>m. gm_str (m_Domains m) key = v) (\<lambda>r. gm_str (rq_Domains r) key = v)
      \<subseteq> fmdom' (unavailablePhysicalIDs cm l policy key v)" for key v
    by (auto simp: down_ids_def unavailablePhysicalIDs_def dom_collect)
  have u: "domain_budget_err l policy cm q key = None" if "fmlookup (p_DomainBudgets policy) key = Some c" for key c
    using that d by (auto simp: set_domain_keys fmlookup_dom'_iff)
  have t: "domain_budget_err l policy cm q key = None" if "fmlookup (p_DomainTransferBudgets policy) key = Some c" for key c
    using that d by (auto simp: set_domain_keys fmlookup_dom'_iff)
  show ?thesis
    unfolding within_domain_budgets_def
  proof (intro conjI allI impI)
    fix key ceiling
    assume c: "fmlookup (p_DomainBudgets policy) key = Some ceiling"
    from u [OF c] c show "int (card (down_ids cm (put_reservation (rq_ID q) (new_reservation q) l) policy
        (\<lambda>m. gm_str (m_Domains m) key = gm_str (rq_Domains q) key)
        (\<lambda>r. gm_str (rq_Domains r) key = gm_str (rq_Domains q) key))) \<le> ceiling"
      by (intro card_down_ids_put [OF _ sub]) (simp add: domain_budget_err_def Let_def)
    from u [OF c] c new show "activeReservationsForCampaignInDomain (put_reservation (rq_ID q) (new_reservation q) l)
        (rq_CampaignUID q) key (gm_str (rq_Domains q) key) \<le> effectiveLimit ceiling (gm_int (rq_CampaignLimits q) key)"
      by (simp add: domain_budget_err_def Let_def activeReservationsForCampaignInDomain_def gm_count_upd_new)
  next
    fix key ceiling
    assume c: "fmlookup (p_DomainTransferBudgets policy) key = Some ceiling"
    from t [OF c] c new show "activeReservationsInDomain (put_reservation (rq_ID q) (new_reservation q) l)
        key (gm_str (rq_Domains q) key) \<le> ceiling"
      by (simp add: domain_budget_err_def Let_def activeReservationsInDomain_def gm_count_upd_new)
    from t [OF c] c new show "activeReservationsForCampaignInDomain (put_reservation (rq_ID q) (new_reservation q) l)
        (rq_CampaignUID q) key (gm_str (rq_Domains q) key)
        \<le> effectiveLimit ceiling (gm_int (rq_CampaignTransferLimits q) key)"
      by (simp add: domain_budget_err_def Let_def activeReservationsForCampaignInDomain_def gm_count_upd_new)
  qed
qed

lemma admitted_groups:
  assumes "admitted E l policy cm q"
  shows "within_group_budgets cm (put_reservation (rq_ID q) (new_reservation q) l) policy q"
  unfolding within_group_budgets_def
proof
  fix grp
  assume grp: "grp \<in> set (rq_RiskGroups q)"
  then have new: "reservation_at l (rq_ID q) = None" and g: "risk_group_err l policy cm q grp = None"
    using assms by (auto simp: admitted_def admission_err_def)
  have sorted: "sorted (rq_RiskGroups q)"
    using assms by (auto simp: admitted_def validateInputs_def validateRiskGroupNames_iff strict_sorted_imp_sorted)
  have sub: "down_ids cm l policy (\<lambda>m. containsSorted (m_RiskGroups m) grp) (\<lambda>r. containsSorted (rq_RiskGroups r) grp)
      \<subseteq> fmdom' (unavailablePhysicalIDsInRiskGroup cm l policy grp)"
    by (auto simp: down_ids_def unavailablePhysicalIDsInRiskGroup_def dom_collect)
  from g obtain budget where b: "fmlookup (p_RiskGroupBudgets policy) grp = Some budget"
    "with_target q (unavailablePhysicalIDsInRiskGroup cm l policy grp) \<le> b_MaxUnavailable budget"
    "activeReservationsInRiskGroup l grp + 1 \<le> b_MaxConcurrentTransfers budget"
    by (auto simp: risk_group_err_def split: option.splits)
  with card_down_ids_put [OF b(2) sub] new grp sorted
  show "\<exists>budget. fmlookup (p_RiskGroupBudgets policy) grp = Some budget \<and>
      int (card (down_ids cm (put_reservation (rq_ID q) (new_reservation q) l) policy
        (\<lambda>m. containsSorted (m_RiskGroups m) grp) (\<lambda>r. containsSorted (rq_RiskGroups r) grp))) \<le> b_MaxUnavailable budget \<and>
      activeReservationsInRiskGroup (put_reservation (rq_ID q) (new_reservation q) l) grp \<le> b_MaxConcurrentTransfers budget"
    by (simp add: activeReservationsInRiskGroup_def gm_count_upd_new containsSorted_iff)
qed

section \<open>Canonical members\<close>

definition unavailable_at :: "policy \<Rightarrow> member gomap \<Rightarrow> string \<Rightarrow> bool" where
  "unavailable_at policy cm x \<longleftrightarrow> (\<exists>m. fmlookup cm x = Some m \<and> member_unavailable m policy)"

lemma merge_observation_unavailable:
  "member_unavailable (merge_observation p m) policy \<longleftrightarrow> member_unavailable p policy \<or> member_unavailable m policy"
  by (auto simp: member_unavailable_def merge_observation_def)

lemma canonicalize_loop_sound:
  "canonicalize_loop E out ms = Inr cm \<Longrightarrow>
     fmdom' cm = fmdom' out \<union> m_PhysicalID ` set ms \<and>
     (\<forall>x. unavailable_at policy cm x \<longleftrightarrow>
        unavailable_at policy out x \<or> (\<exists>m \<in> set ms. m_PhysicalID m = x \<and> member_unavailable m policy))"
proof (induction ms arbitrary: out)
  case (Cons m ms)
  let ?x = "m_PhysicalID m"
  obtain n where n: "canonicalize_loop E (fmupd ?x n out) ms = Inr cm"
    and un: "member_unavailable n policy \<longleftrightarrow> unavailable_at policy out ?x \<or> member_unavailable m policy"
    using Cons.prems
    by (auto simp: merge_observation_unavailable unavailable_at_def split: if_splits option.splits)
  have step: "unavailable_at policy (fmupd ?x n out) x \<longleftrightarrow>
      unavailable_at policy out x \<or> (m_PhysicalID m = x \<and> member_unavailable m policy)" for x
    using un by (auto simp: unavailable_at_def)
  from Cons.IH [OF n] show ?case unfolding step by auto
qed simp

lemma canonicalizeMembers_sound:
  assumes "canonicalizeMembers E ms = Inr cm"
  shows "fmdom' cm = m_PhysicalID ` set ms"
    and "unavailable_at policy cm x \<longleftrightarrow> (\<exists>m \<in> set ms. m_PhysicalID m = x \<and> member_unavailable m policy)"
  using canonicalize_loop_sound [of E fmempty ms cm policy] assms
  by (auto simp: canonicalizeMembers_def unavailable_at_def)

end
