(* ===== verification/Ledger_Lifecycle.thy ===== *)
theory Ledger_Lifecycle
  imports Ledger_Reserve
begin

text \<open>
  The life of a reservation. Every operation of the ledger is one command; the relation
  \<open>lifecycle\<close> says, without the individual guards, what a command may do to the one reservation
  it addresses. Each operation of the program refines it, and the safety properties are
  proved once on the relation.
\<close>

subsection \<open>Commands\<close>

datatype ledger_op =
    OpReserve policy "member list" reservation_request
  | OpBindChild string string
  | OpBeginDrain string string string string "64 word" time
  | OpPromoteDrain string string string string "64 word" time
  | OpGrant string string string "64 word"
  | OpRevoke string "64 word"
  | OpRevokeDrain string string string string "64 word"
  | OpRevokeUnclaimed string string string "64 word" int
  | OpSettle string string string int bool bool
  | OpSettleDrained string string string string string int bool bool bool
  | OpReleaseUnclaimed string string string "64 word" int
  | OpFence string int string

fun apply_op :: "ext \<Rightarrow> ledger_op \<Rightarrow> ledger \<Rightarrow> outcome" where
  "apply_op E (OpReserve policy members request) l = Reserve E l policy members request"
| "apply_op E (OpBindChild rid childUID) l = BindChild l rid childUID"
| "apply_op E (OpBeginDrain rid ledgerUID childUID token revision t) l = BeginDrain E l rid ledgerUID childUID token revision t"
| "apply_op E (OpPromoteDrain rid ledgerUID childUID token revision t) l = PromoteDrain E l rid ledgerUID childUID token revision t"
| "apply_op E (OpGrant rid ledgerUID childUID revision) l = Grant l rid ledgerUID childUID revision"
| "apply_op E (OpRevoke rid revision) l = Revoke l rid revision"
| "apply_op E (OpRevokeDrain rid ledgerUID childUID token revision) l = RevokeDrain E l rid ledgerUID childUID token revision"
| "apply_op E (OpRevokeUnclaimed rid lock childUID revision epoch) l = RevokeUnclaimedAtEpoch l rid lock childUID revision epoch"
| "apply_op E (OpSettle rid lock childUID epoch resolved healthy) l = Settle l rid lock childUID epoch resolved healthy"
| "apply_op E (OpSettleDrained rid ledgerUID lock childUID token epoch resolved healthy recovered) l =
     SettleDrainedReservation E l rid ledgerUID lock childUID token epoch resolved healthy recovered"
| "apply_op E (OpReleaseUnclaimed rid lock childUID revision epoch) l = ReleaseUnclaimedAtEpoch l rid lock childUID revision epoch"
| "apply_op E (OpFence rid epoch lock) l = FenceUnboundAcquisition l rid epoch lock"

text \<open>The reservation a command addresses and the drain session it presents, if any.\<close>

fun op_target :: "ledger_op \<Rightarrow> string" where
  "op_target (OpReserve _ _ q) = rq_ID q"
| "op_target (OpBindChild rid _) = rid"
| "op_target (OpBeginDrain rid _ _ _ _ _) = rid"
| "op_target (OpPromoteDrain rid _ _ _ _ _) = rid"
| "op_target (OpGrant rid _ _ _) = rid"
| "op_target (OpRevoke rid _) = rid"
| "op_target (OpRevokeDrain rid _ _ _ _) = rid"
| "op_target (OpRevokeUnclaimed rid _ _ _ _) = rid"
| "op_target (OpSettle rid _ _ _ _ _) = rid"
| "op_target (OpSettleDrained rid _ _ _ _ _ _ _ _) = rid"
| "op_target (OpReleaseUnclaimed rid _ _ _ _) = rid"
| "op_target (OpFence rid _ _) = rid"

fun op_session :: "ledger_op \<Rightarrow> string option" where
  "op_session (OpBeginDrain _ _ _ token _ _) = Some token"
| "op_session (OpPromoteDrain _ _ _ token _ _) = Some token"
| "op_session (OpRevokeDrain _ _ _ token _) = Some token"
| "op_session (OpSettleDrained _ _ _ _ token _ _ _ _) = Some token"
| "op_session _ = None"

subsection \<open>What a command may do\<close>

definition fence_for :: "reservation \<Rightarrow> release_fence \<Rightarrow> bool" where
  "fence_for r f \<longleftrightarrow> f_PolicyEpoch f = rq_PolicyEpoch r \<and> f_TopologyLockID f = rq_TopologyLockID r"

inductive lifecycle :: "string \<Rightarrow> string option \<Rightarrow> ledger \<Rightarrow> ledger \<Rightarrow> bool"
  for rid :: string and session :: "string option" where
  stutter: "lifecycle rid session l l"
| reserve:
    "\<lbrakk> reservation_at l rid = None; r_State r = ReservationReserved; r_ChildUID r = []; \<not> hasDrainProvenance r;
       rq_ID r = rid; \<not> HasReleaseFence l rid (rq_PolicyEpoch r) (rq_TopologyLockID r);
       \<forall>k s. reservation_at l k = Some s \<longrightarrow> rq_PhysicalID s \<noteq> rq_PhysicalID r \<rbrakk>
     \<Longrightarrow> lifecycle rid session l (put_reservation rid r l)"
| bind:
    "\<lbrakk> reservation_at l rid = Some r; r_State r = ReservationReserved; r_ChildUID r = []; child \<noteq> [] \<rbrakk>
     \<Longrightarrow> lifecycle rid session l (put_reservation rid (r\<lparr> r_ChildUID := child, r_State := ReservationBound \<rparr>) l)"
| advance:
    "\<lbrakk> reservation_at l rid = Some r; r_State r \<in> {ReservationDraining, ReservationGranted};
       rq_ControlRevision r \<le> revision; in_drain r \<longrightarrow> session = Some (r_DrainSessionToken r) \<rbrakk>
     \<Longrightarrow> lifecycle rid session l (put_reservation rid (r\<lparr> rq_ControlRevision := revision \<rparr>) l)"
| drain:
    "\<lbrakk> reservation_at l rid = Some r; r_State r = ReservationBound; \<not> hasDrainProvenance r;
       session = Some token; started \<noteq> []; rq_ControlRevision r \<le> revision \<rbrakk>
     \<Longrightarrow> lifecycle rid session l (put_reservation rid
           (r\<lparr> rq_ControlRevision := revision, r_State := ReservationDraining,
              r_DrainSessionToken := token, r_DrainStartedAt := started \<rparr>) l)"
| promote:
    "\<lbrakk> reservation_at l rid = Some r; r_State r = ReservationDraining; r_DrainCompletedAt r = [];
       session = Some (r_DrainSessionToken r); completed \<noteq> []; rq_ControlRevision r \<le> revision \<rbrakk>
     \<Longrightarrow> lifecycle rid session l (put_reservation rid
           (r\<lparr> rq_ControlRevision := revision, r_State := ReservationGranted, r_DrainCompletedAt := completed \<rparr>) l)"
| grant:
    "\<lbrakk> reservation_at l rid = Some r; r_State r = ReservationBound; \<not> in_drain r; rq_ControlRevision r \<le> revision \<rbrakk>
     \<Longrightarrow> lifecycle rid session l (put_reservation rid
           (r\<lparr> rq_ControlRevision := revision, r_State := ReservationGranted \<rparr>) l)"
| revoke:
    "\<lbrakk> reservation_at l rid = Some r; r_State r \<in> {ReservationReserved, ReservationBound, ReservationDraining, ReservationGranted, ReservationRevoked};
       rq_ControlRevision r \<le> revision; r_State r = ReservationDraining \<or> r_DrainSessionToken r \<noteq> [] \<longrightarrow> session = Some (r_DrainSessionToken r) \<rbrakk>
     \<Longrightarrow> lifecycle rid session l (put_reservation rid (revoked revision r) l)"
| release:
    "\<lbrakk> reservation_at l rid = Some r; f_ReservationID f = rid; fence_for r f;
       r_State r \<in> {ReservationReserved, ReservationBound, ReservationDraining, ReservationGranted, ReservationRevoked};
       r_State r \<in> {ReservationBound, ReservationDraining} \<longrightarrow> session \<noteq> None;
       r_DrainSessionToken r \<noteq> [] \<longrightarrow> session = Some (r_DrainSessionToken r) \<and> f_DrainSessionToken f = r_DrainSessionToken r \<rbrakk>
     \<Longrightarrow> lifecycle rid session l ((delete_reservation rid l)\<lparr> l_LastReleaseFence := Some f \<rparr>)"
| fence:
    "\<lbrakk> reservation_at l rid = None; f_ReservationID f = rid \<rbrakk>
     \<Longrightarrow> lifecycle rid session l (l\<lparr> l_LastReleaseFence := Some f \<rparr>)"

inductive_cases lifecycleE: "lifecycle rid session l l'"

section \<open>Every operation refines the lifecycle\<close>

lemma TrimSpace_nonempty: "TrimSpace s \<noteq> [] \<Longrightarrow> s \<noteq> []"
  using TrimSpace_graphic [of "[]"] by auto

lemma canonicalLedgerTime_not_Nil [simp]: "canonicalLedgerTime t \<noteq> Inr []"
  using canonicalLedgerTime_nonempty by blast

lemma Reserve_lifecycle:
  assumes "Reserve E l policy ms q = (None, l')"
  shows "lifecycle (rq_ID q) None l l'"
  using assms
proof (cases rule: Reserve_success)
  case (replay existing)
  then show ?thesis by (simp add: lifecycle.stutter)
next
  case (admit cm data)
  from admit(2) have "\<forall>k s. reservation_at l k = Some s \<longrightarrow> rq_PhysicalID s \<noteq> rq_PhysicalID q"
    by (auto simp: admitted_def admission_err_def target_err_def set_gm_vals split: option.splits)
  then show ?thesis
    using admit(2) unfolding admit(3)
    by (intro lifecycle.reserve) (auto simp: admitted_def HasReleaseFence_def hasDrainProvenance_def)
qed

lemma BindChild_lifecycle: "BindChild l rid c = (None, l') \<Longrightarrow> lifecycle rid None l l'"
  by (auto simp: BindChild_def TrimSpace_nonempty split: option.splits if_splits intro!: lifecycle.intros)

lemma BeginDrain_lifecycle: "BeginDrain E l rid u c t revision s = (None, l') \<Longrightarrow> lifecycle rid (Some t) l l'"
  by (auto simp: BeginDrain_def not_less hasDrainProvenance_def canonicalLedgerTime_nonempty
      split: option.splits if_splits sum.splits intro!: lifecycle.advance lifecycle.drain)

lemma PromoteDrain_lifecycle: "PromoteDrain E l rid u c t revision s = (None, l') \<Longrightarrow> lifecycle rid (Some t) l l'"
  by (auto simp: PromoteDrain_def not_less canonicalLedgerTime_nonempty
      split: option.splits if_splits sum.splits intro!: lifecycle.advance lifecycle.promote)

lemma Grant_lifecycle: "Grant l rid u c revision = (None, l') \<Longrightarrow> lifecycle rid None l l'"
  by (auto simp: Grant_def not_less split: option.splits if_splits intro!: lifecycle.advance lifecycle.grant)

lemma Revoke_lifecycle: "Revoke l rid revision = (None, l') \<Longrightarrow> lifecycle rid None l l'"
  by (auto simp: Revoke_def in_drain_def not_le split: option.splits if_splits
      intro!: lifecycle.stutter lifecycle.revoke)

lemma RevokeDrain_lifecycle: "RevokeDrain E l rid u c t revision = (None, l') \<Longrightarrow> lifecycle rid (Some t) l l'"
  by (auto simp: RevokeDrain_def not_less split: option.splits if_splits
      intro!: lifecycle.stutter lifecycle.revoke)

lemma RevokeUnclaimed_lifecycle:
  "RevokeUnclaimedAtEpoch l rid k c revision e = (None, l') \<Longrightarrow> lifecycle rid None l l'"
  by (auto simp: RevokeUnclaimedAtEpoch_def not_less split: option.splits if_splits
      intro!: lifecycle.revoke)

text \<open>What the two ways of recording a fence leave behind.\<close>

lemma recordReleaseFence_success:
  assumes "recordReleaseFence l rid e k = (None, l')"
  obtains f where "l' = l\<lparr> l_LastReleaseFence := Some f \<rparr>" "f_ReservationID f = rid" "f_PolicyEpoch f = e"
    "f_TopologyLockID f = k" "f_DrainSessionToken f = []" "fence_err E f = None"
  using assms by (auto simp: recordReleaseFence_def fence_err_def split: if_splits)

lemma recordDrainReleaseFence_success:
  assumes "recordDrainReleaseFence E l rid e k c t = (None, l')"
  obtains f where "l' = l\<lparr> l_LastReleaseFence := Some f \<rparr>" "f_ReservationID f = rid" "f_PolicyEpoch f = e"
    "f_TopologyLockID f = k" "f_DrainSessionToken f = t" "f_DrainChildUID f = c"
proof (cases "releaseFenceMatches (l_LastReleaseFence l) rid e k")
  case True
  then obtain f where "l_LastReleaseFence l = Some f" "f_ReservationID f = rid" "f_PolicyEpoch f = e" "f_TopologyLockID f = k"
    by (auto simp: releaseFenceMatches_def split: option.splits)
  moreover from this(1) have "l\<lparr> l_LastReleaseFence := Some f \<rparr> = l" by simp
  ultimately show ?thesis
    using that [of f] assms True
    by (auto simp: recordDrainReleaseFence_def fence_token_def fence_child_def split: if_splits)
next
  case False
  then show ?thesis
    using assms that [of "\<lparr> f_ReservationID = rid, f_PolicyEpoch = e, f_TopologyLockID = k,
        f_DrainSessionToken = t, f_DrainChildUID = c \<rparr>"]
    by (auto simp: recordDrainReleaseFence_def split: if_splits)
qed

lemma then_delete_success:
  assumes "then_delete out rid = (None, l')"
  obtains l1 where "out = (None, l1)" "l' = delete_reservation rid l1"
  using assms by (cases out) (auto simp: then_delete_def split: option.splits)

lemma delete_with_fence:
  "delete_reservation rid (l\<lparr> l_LastReleaseFence := f \<rparr>) = (delete_reservation rid l)\<lparr> l_LastReleaseFence := f \<rparr>"
  by (simp add: delete_reservation_def)

lemma release_generic:
  assumes "then_delete (recordReleaseFence l rid (rq_PolicyEpoch r) (rq_TopologyLockID r)) rid = (None, l')"
    and "reservation_at l rid = Some r" "r_DrainSessionToken r = []"
    and "r_State r \<in> {ReservationReserved, ReservationGranted, ReservationRevoked}"
  shows "lifecycle rid None l l'"
proof -
  obtain l1 where l1: "recordReleaseFence l rid (rq_PolicyEpoch r) (rq_TopologyLockID r) = (None, l1)"
    "l' = delete_reservation rid l1"
    using assms(1) by (rule then_delete_success)
  obtain f where f: "l1 = l\<lparr> l_LastReleaseFence := Some f \<rparr>" "f_ReservationID f = rid"
    "f_PolicyEpoch f = rq_PolicyEpoch r" "f_TopologyLockID f = rq_TopologyLockID r"
    using l1(1) by (rule recordReleaseFence_success)
  then show ?thesis
    using assms(2-4) unfolding l1(2) f(1) delete_with_fence
    by (intro lifecycle.release) (auto simp: fence_for_def)
qed

lemma release_drained:
  assumes "then_delete (recordDrainReleaseFence E l rid (rq_PolicyEpoch r) (rq_TopologyLockID r) c t) rid = (None, l')"
    and "reservation_at l rid = Some r" "r_DrainSessionToken r \<noteq> [] \<longrightarrow> r_DrainSessionToken r = t"
    and "r_State r \<in> {ReservationBound, ReservationDraining, ReservationGranted, ReservationRevoked}"
  shows "lifecycle rid (Some t) l l'"
proof -
  obtain l1 where l1: "recordDrainReleaseFence E l rid (rq_PolicyEpoch r) (rq_TopologyLockID r) c t = (None, l1)"
    "l' = delete_reservation rid l1"
    using assms(1) by (rule then_delete_success)
  obtain f where f: "l1 = l\<lparr> l_LastReleaseFence := Some f \<rparr>" "f_ReservationID f = rid"
    "f_PolicyEpoch f = rq_PolicyEpoch r" "f_TopologyLockID f = rq_TopologyLockID r" "f_DrainSessionToken f = t"
    using l1(1) by (rule recordDrainReleaseFence_success)
  then show ?thesis
    using assms(2-4) unfolding l1(2) f(1) delete_with_fence
    by (intro lifecycle.release) (auto simp: fence_for_def)
qed

lemma fence_absent:
  assumes "recordReleaseFence l rid e k = (None, l')" "reservation_at l rid = None"
  shows "lifecycle rid session l l'"
  using assms(1) by (rule recordReleaseFence_success) (use assms(2) in \<open>auto intro: lifecycle.fence\<close>)

lemma Settle_lifecycle:
  assumes "Settle l rid k c e ok healthy = (None, l')"
  shows "lifecycle rid None l l'"
proof (cases "reservation_at l rid")
  case None
  with assms have "recordReleaseFence l rid e k = (None, l')" by (auto simp: Settle_def split: if_splits)
  then show ?thesis using None by (rule fence_absent)
next
  case (Some r)
  with assms show ?thesis
    by (intro release_generic [of l rid r]) (auto simp: Settle_def split: if_splits)
qed

lemma SettleDrained_lifecycle:
  assumes "SettleDrainedReservation E l rid u k c t e ok healthy recovered = (None, l')"
  shows "lifecycle rid (Some t) l l'"
proof (cases "reservation_at l rid")
  case None
  with assms have "recordDrainReleaseFence E l rid e k c t = (None, l')"
    by (auto simp: SettleDrainedReservation_def split: if_splits)
  then show ?thesis
    by (rule recordDrainReleaseFence_success) (use None in \<open>auto intro: lifecycle.fence\<close>)
next
  case (Some r)
  with assms show ?thesis
    by (intro release_drained [of E l rid r c t]) (auto simp: SettleDrainedReservation_def hasDrainProvenance_def split: if_splits)
qed

lemma ReleaseUnclaimed_lifecycle:
  assumes "ReleaseUnclaimedAtEpoch l rid k c revision e = (None, l')"
  shows "lifecycle rid None l l'"
proof (cases "reservation_at l rid")
  case None
  with assms have "recordReleaseFence l rid e k = (None, l')"
    by (auto simp: ReleaseUnclaimedAtEpoch_def releaseUnclaimed_def split: if_splits)
  then show ?thesis using None by (rule fence_absent)
next
  case (Some r)
  with assms show ?thesis
    by (intro release_generic [of l rid r])
      (auto simp: ReleaseUnclaimedAtEpoch_def releaseUnclaimed_def split: if_splits reservation_state.splits)
qed

lemma FenceUnbound_lifecycle:
  assumes "\<And>r. reservation_at l rid = Some r \<Longrightarrow> state_err r = None"
    and "FenceUnboundAcquisition l rid e k = (None, l')"
  shows "lifecycle rid None l l'"
proof (cases "reservation_at l rid")
  case None
  with assms(2) obtain l1 where l1: "recordReleaseFence l rid e k = (None, l1)" "l' = delete_reservation rid l1"
    by (auto simp: FenceUnboundAcquisition_def Let_def elim!: then_delete_success)
  then have "l' = l1"
    using None by (auto simp: delete_reservation_def fmdrop_idle' fmlookup_dom'_iff elim!: recordReleaseFence_success)
  with l1(1) None show ?thesis by (auto intro: fence_absent)
next
  case (Some r)
  then have "r_DrainSessionToken r = []" if "r_State r = ReservationReserved"
    using assms(1) that by (auto simp: state_err_def hasDrainProvenance_def)
  with Some assms(2) show ?thesis
    by (intro release_generic [of l rid r]) (auto simp: FenceUnboundAcquisition_def Let_def split: if_splits)
qed

lemma wf_state: "ledger_wf E l \<Longrightarrow> reservation_at l rid = Some r \<Longrightarrow> state_err r = None"
  by (auto simp: ledger_wf_def reservations_wf_def entry_wf_def validatePersistedReservation_iff)

lemmas op_lifecycles = Reserve_lifecycle BindChild_lifecycle BeginDrain_lifecycle PromoteDrain_lifecycle
  Grant_lifecycle Revoke_lifecycle RevokeDrain_lifecycle RevokeUnclaimed_lifecycle Settle_lifecycle
  SettleDrained_lifecycle ReleaseUnclaimed_lifecycle

lemma apply_op_lifecycle:
  "ledger_wf E l \<Longrightarrow> apply_op E op l = (None, l') \<Longrightarrow> lifecycle (op_target op) (op_session op) l l'"
  by (cases op) (auto intro: op_lifecycles FenceUnbound_lifecycle wf_state)

section \<open>Failed commands change nothing\<close>

lemma recordReleaseFence_error: "recordReleaseFence l rid e k = (Some x, l') \<Longrightarrow> l' = l"
  by (auto simp: recordReleaseFence_def split: if_splits)

lemma recordDrainReleaseFence_error: "recordDrainReleaseFence E l rid e k c t = (Some x, l') \<Longrightarrow> l' = l"
  by (auto simp: recordDrainReleaseFence_def split: if_splits)

lemma then_delete_error: "then_delete out rid = (Some x, l') \<Longrightarrow> out = (Some x, l')"
  by (cases out) (auto simp: then_delete_def split: option.splits)

lemmas fence_errors = recordReleaseFence_error recordDrainReleaseFence_error

lemma transition_errors:
  "BindChild l rid c = (Some x, l') \<Longrightarrow> l' = l"
  "BeginDrain E l rid u c t v s = (Some x, l') \<Longrightarrow> l' = l"
  "PromoteDrain E l rid u c t v s = (Some x, l') \<Longrightarrow> l' = l"
  "Grant l rid u c v = (Some x, l') \<Longrightarrow> l' = l"
  "Revoke l rid v = (Some x, l') \<Longrightarrow> l' = l"
  "RevokeDrain E l rid u c t v = (Some x, l') \<Longrightarrow> l' = l"
  "RevokeUnclaimedAtEpoch l rid k c v e = (Some x, l') \<Longrightarrow> l' = l"
  by (auto simp: BindChild_def BeginDrain_def PromoteDrain_def Grant_def Revoke_def RevokeDrain_def
      RevokeUnclaimedAtEpoch_def split: option.splits if_splits sum.splits)

lemma release_errors:
  "Settle l rid k c e ok healthy = (Some x, l') \<Longrightarrow> l' = l"
  "SettleDrainedReservation E l rid u k c t e ok healthy recovered = (Some x, l') \<Longrightarrow> l' = l"
  "ReleaseUnclaimedAtEpoch l rid k c v e = (Some x, l') \<Longrightarrow> l' = l"
  "FenceUnboundAcquisition l rid e k = (Some x, l') \<Longrightarrow> l' = l"
  by (auto simp: Settle_def SettleDrainedReservation_def ReleaseUnclaimedAtEpoch_def releaseUnclaimed_def
      FenceUnboundAcquisition_def Let_def split: option.splits if_splits reservation_state.splits
      dest: fence_errors dest!: then_delete_error)

lemma apply_op_error: "apply_op E op l = (Some x, l') \<Longrightarrow> l' = l"
  by (cases op) (auto dest: Reserve_error_keeps transition_errors release_errors)

section \<open>Laws of the lifecycle\<close>

definition identity_of :: "reservation \<Rightarrow> reservation_request" where
  "identity_of r = reservation_request.truncate (r\<lparr> rq_ControlRevision := 0 \<rparr>)"

lemma identity_of_simps [simp]:
  "identity_of (r\<lparr> r_ChildUID := c \<rparr>) = identity_of r" "identity_of (r\<lparr> r_State := s \<rparr>) = identity_of r"
  "identity_of (r\<lparr> rq_ControlRevision := v \<rparr>) = identity_of r"
  "identity_of (r\<lparr> r_DrainSessionToken := t \<rparr>) = identity_of r"
  "identity_of (r\<lparr> r_DrainStartedAt := t \<rparr>) = identity_of r"
  "identity_of (r\<lparr> r_DrainCompletedAt := t \<rparr>) = identity_of r"
  by (simp_all add: identity_of_def reservation_request.defs)

lemma delete_simps [simp]:
  "l_Reservations (delete_reservation k l) = fmdrop k (l_Reservations l)"
  "l_UID (delete_reservation k l) = l_UID l" "l_Version (delete_reservation k l) = l_Version l"
  "l_LastReleaseFence (delete_reservation k l) = l_LastReleaseFence l"
  by (simp_all add: delete_reservation_def)

lemma lifecycle_frame: "lifecycle rid s l l' \<Longrightarrow> k \<noteq> rid \<Longrightarrow> reservation_at l' k = reservation_at l k"
  by (cases rule: lifecycle.cases) auto

lemma lifecycle_ledger: "lifecycle rid s l l' \<Longrightarrow> l_UID l' = l_UID l \<and> l_Version l' = l_Version l"
  by (cases rule: lifecycle.cases) auto

lemma lifecycle_kept:
  assumes "lifecycle rid s l l'" "reservation_at l rid = Some r" "reservation_at l' rid = Some r'"
  shows "identity_of r' = identity_of r \<and> rq_ControlRevision r \<le> rq_ControlRevision r' \<and>
    (r_ChildUID r \<noteq> [] \<longrightarrow> r_ChildUID r' = r_ChildUID r)"
  using assms by (cases rule: lifecycle.cases) (auto simp: revoked_def)

lemma lifecycle_removed:
  assumes "lifecycle rid s l l'" "reservation_at l rid = Some r" "reservation_at l' rid = None"
  shows "HasReleaseFence l' rid (rq_PolicyEpoch r) (rq_TopologyLockID r)"
  using assms
  by (cases rule: lifecycle.cases) (auto simp: HasReleaseFence_def releaseFenceMatches_def fence_for_def)

lemma lifecycle_session_bound:
  assumes "lifecycle rid s l l'" "reservation_at l rid = Some r" "state_err r = None"
    and "r_DrainSessionToken r \<noteq> []" "s \<noteq> Some (r_DrainSessionToken r)"
  shows "reservation_at l' rid = Some r"
  using assms
  by (cases rule: lifecycle.cases) (auto simp: state_err_def hasDrainProvenance_def in_drain_def split: if_splits)

text \<open>The legal moves between the phases of a reservation; \<^const>\<open>None\<close> is its absence.\<close>

inductive phase_step :: "reservation_state option \<Rightarrow> reservation_state option \<Rightarrow> bool" where
  "phase_step p p"
| "phase_step None (Some ReservationReserved)"
| "phase_step (Some ReservationReserved) (Some ReservationBound)"
| "phase_step (Some ReservationBound) (Some ReservationDraining)"
| "phase_step (Some ReservationBound) (Some ReservationGranted)"
| "phase_step (Some ReservationDraining) (Some ReservationGranted)"
| "p \<in> {ReservationReserved, ReservationBound, ReservationDraining, ReservationGranted}
     \<Longrightarrow> phase_step (Some p) (Some ReservationRevoked)"
| "phase_step (Some p) None"

lemma lifecycle_phase:
  "lifecycle rid s l l' \<Longrightarrow>
     phase_step (map_option r_State (reservation_at l rid)) (map_option r_State (reservation_at l' rid))"
  by (cases rule: lifecycle.cases) (auto simp: revoked_def intro: phase_step.intros)

end
