(* ===== verification/Ledger_Preserve.thy ===== *)
theory Ledger_Preserve
  imports Ledger_Lifecycle
begin

text \<open>
  Preservation: an operation applied to a well-formed ledger with arguments in range leaves
  a ledger that \<^verbatim>\<open>validatePersistedLedger\<close> accepts, so a committed mutation is
  never refused by the validation that precedes the write.
\<close>

section \<open>Operations keep the ledger well formed\<close>

lemma unique_identity_upd:
  assumes "unique_identity f m"
    and "(\<exists>r. fmlookup m k = Some r \<and> f r' = f r) \<or> (\<forall>k' s. k' \<noteq> k \<and> fmlookup m k' = Some s \<and> f r' \<noteq> None \<longrightarrow> f s \<noteq> f r')"
  shows "unique_identity f (fmupd k r' m)"
  using assms unfolding unique_identity_def by (auto split: if_splits) metis+

lemma ledger_wf_update:
  assumes wf: "ledger_wf E l" and r: "reservation_at l rid = Some r"
    and same: "rq_ID r' = rq_ID r" "rq_PhysicalID r' = rq_PhysicalID r" "rq_DeviceUID r' = rq_DeviceUID r"
      "rq_NodeUID r' = rq_NodeUID r" "childKey r' = childKey r"
    and child: "r_ChildUID r' = r_ChildUID r \<or> (\<forall>k s. k \<noteq> rid \<and> reservation_at l k = Some s \<longrightarrow> r_ChildUID s \<noteq> r_ChildUID r')"
    and valid: "validatePersistedReservation E r' = None"
  shows "ledger_wf E (put_reservation rid r' l)"
proof -
  have e: "entry_wf E rid r'"
    using wf r same valid by (auto simp: ledger_wf_def reservations_wf_def entry_wf_def)
  have "unique_identity f (fmupd rid r' (l_Reservations l))"
    if "f \<in> {physical_of, device_of, node_of, child_of, childUID_of}" for f
  proof (rule unique_identity_upd)
    show "unique_identity f (l_Reservations l)" using wf that by (simp add: ledger_wf_def reservations_wf_def) blast
    show "(\<exists>r. fmlookup (l_Reservations l) rid = Some r \<and> f r' = f r) \<or>
      (\<forall>k' s. k' \<noteq> rid \<and> fmlookup (l_Reservations l) k' = Some s \<and> f r' \<noteq> None \<longrightarrow> f s \<noteq> f r')"
      using that r same child
      by (elim insertE) (auto simp: identity_defs childUID_of_def)
  qed
  then show ?thesis
    using wf r e by (auto simp: ledger_wf_def reservations_wf_def gm_len_upd_old)
qed

lemma unique_identity_drop: "unique_identity f m \<Longrightarrow> unique_identity f (fmdrop k m)"
  unfolding unique_identity_def fmlookup_drop by (metis option.distinct(1))

lemma ledger_wf_release:
  assumes "ledger_wf E l" "fence_wf E f"
  shows "ledger_wf E ((delete_reservation rid l)\<lparr> l_LastReleaseFence := f \<rparr>)"
  using assms gm_len_drop_le [of rid "l_Reservations l"]
  by (simp add: ledger_wf_def reservations_wf_def unique_identity_drop)

text \<open>
  What the caller owes: identities within their bounds and not in use, revisions within the
  signed range, and times the canonical format can represent. A revocation must not address a
  reservation that was never bound.
\<close>

abbreviation revision_ok :: "64 word \<Rightarrow> bool" where
  "revision_ok revision \<equiv> revision \<le> MaxInt64"

fun op_ok :: "ledger_op \<Rightarrow> ledger \<Rightarrow> bool" where
  "op_ok (OpBindChild rid childUID) l \<longleftrightarrow> validBoundedIdentity childUID 128 \<and>
     list_all (\<lambda>(k, s). k \<noteq> rid \<longrightarrow> r_ChildUID s \<noteq> childUID) (gm_entries (l_Reservations l))"
| "op_ok (OpBeginDrain rid ledgerUID childUID token revision t) l \<longleftrightarrow> revision_ok revision \<and> in_format_range t"
| "op_ok (OpPromoteDrain rid ledgerUID childUID token revision t) l \<longleftrightarrow> revision_ok revision \<and> in_format_range t"
| "op_ok (OpGrant rid ledgerUID childUID revision) l \<longleftrightarrow> revision_ok revision"
| "op_ok (OpRevoke rid revision) l \<longleftrightarrow> revision_ok revision \<and>
     map_option r_State (reservation_at l rid) \<noteq> Some ReservationReserved"
| "op_ok (OpRevokeDrain rid ledgerUID childUID token revision) l \<longleftrightarrow> revision_ok revision"
| "op_ok (OpRevokeUnclaimed rid lock childUID revision epoch) l \<longleftrightarrow> revision_ok revision"
| "op_ok _ l \<longleftrightarrow> True"

lemma wf_valid: "ledger_wf E l \<Longrightarrow> reservation_at l rid = Some r \<Longrightarrow> validatePersistedReservation E r = None"
  by (auto simp: ledger_wf_def reservations_wf_def entry_wf_def)

text \<open>Validity of an updated reservation: the request part is untouched except the revision.\<close>

lemma valid_update:
  assumes "validatePersistedReservation E r = None" "identity_of r' = identity_of r"
    and "rq_ControlRevision r' \<le> MaxInt64" "drain_provenance_err E r' = None" "state_err r' = None"
  shows "validatePersistedReservation E r' = None"
  using assms
  by (simp add: validatePersistedReservation_iff identity_of_def reservation_request.defs bounded_fields_def)

lemma update_keeps_wf:
  assumes "ledger_wf E l" "reservation_at l rid = Some r" "identity_of r' = identity_of r"
    and "rq_ControlRevision r' \<le> MaxInt64" "drain_provenance_err E r' = None" "state_err r' = None"
    and "r_ChildUID r' = r_ChildUID r \<or> (\<forall>k s. k \<noteq> rid \<and> reservation_at l k = Some s \<longrightarrow> r_ChildUID s \<noteq> r_ChildUID r')"
  shows "ledger_wf E (put_reservation rid r' l)"
proof (rule ledger_wf_update [OF assms(1,2) _ _ _ _ _ assms(7)])
  show "validatePersistedReservation E r' = None"
    by (rule valid_update [OF wf_valid [OF assms(1,2)] assms(3-6)])
qed (use assms(3) in \<open>simp_all add: identity_of_def reservation_request.defs childKey_def\<close>)

lemma bound_state: "state_err r = None \<Longrightarrow> r_State r \<noteq> ReservationReserved \<Longrightarrow> validBoundedIdentity (r_ChildUID r) 128"
  by (cases "r_State r") (auto simp: state_err_def split: if_splits)

lemma wf_drain: "ledger_wf E l \<Longrightarrow> reservation_at l rid = Some r \<Longrightarrow> drain_provenance_err E r = None"
  using wf_valid by (fastforce simp: validatePersistedReservation_iff)

lemma no_provenance [simp]: "\<not> hasDrainProvenance r \<Longrightarrow> drain_provenance_err E r = None"
  by (simp add: drain_provenance_err_def)

lemma revision_irrelevant [simp]:
  "state_err (r\<lparr> rq_ControlRevision := v \<rparr>) = state_err r"
  "drain_provenance_err E (r\<lparr> rq_ControlRevision := v \<rparr>) = drain_provenance_err E r"
  by (cases "r_State r"; simp add: state_err_def hasDrainProvenance_def)
    (simp add: drain_provenance_err_def hasDrainProvenance_def cong: sum.case_cong if_cong)

lemma state_irrelevant [simp]: "drain_provenance_err E (r\<lparr> r_State := st \<rparr>) = drain_provenance_err E r"
  by (simp add: drain_provenance_err_def hasDrainProvenance_def cong: sum.case_cong if_cong)

lemma BindChild_wf:
  assumes "ledger_wf E l" "BindChild l rid c = (None, l')" "op_ok (OpBindChild rid c) l"
  shows "ledger_wf E l'"
proof (cases "l' = l")
  case False
  then obtain r where r: "reservation_at l rid = Some r" "r_State r = ReservationReserved"
    "l' = put_reservation rid (r\<lparr> r_ChildUID := c, r_State := ReservationBound \<rparr>) l"
    using assms(2) by (auto simp: BindChild_def split: option.splits if_splits)
  have "\<not> hasDrainProvenance r"
    using wf_state [OF assms(1) r(1)] r(2) by (auto simp: state_err_def)
  then show ?thesis
    unfolding r(3) using assms(3) wf_valid [OF assms(1) r(1)]
    by (intro update_keeps_wf [OF assms(1) r(1)])
      (auto simp: state_err_def hasDrainProvenance_def validatePersistedReservation_iff list_all_iff in_gm_entries_iff)
qed (use assms(1) in simp)

lemma advance_wf:
  assumes "ledger_wf E l" "reservation_at l rid = Some r" "revision_ok revision"
  shows "ledger_wf E (put_reservation rid (r\<lparr> rq_ControlRevision := revision \<rparr>) l)"
  using assms wf_state [OF assms(1,2)] wf_drain [OF assms(1,2)]
  by (intro update_keeps_wf [OF assms(1,2)]) simp_all

lemma revoked_wf:
  assumes "ledger_wf E l" "reservation_at l rid = Some r" "revision_ok revision" "r_State r \<noteq> ReservationReserved"
  shows "ledger_wf E (put_reservation rid (revoked revision r) l)"
  using assms(3,4) bound_state [OF wf_state [OF assms(1,2)]] wf_drain [OF assms(1,2)]
  by (intro update_keeps_wf [OF assms(1,2)])
    (simp_all add: revoked_def state_err_def)

lemma BeginDrain_wf:
  assumes wf: "ledger_wf E l" and ok: "BeginDrain E l rid u c t revision s = (None, l')"
    and range: "revision_ok revision" "in_format_range s"
  shows "ledger_wf E l'"
proof -
  obtain r stamp where r: "reservation_at l rid = Some r" "canonicalLedgerTime s = Inr stamp" "validDrainSessionToken E t"
    and l': "l' = put_reservation rid (r\<lparr> rq_ControlRevision := revision \<rparr>) l \<or>
       r_State r = ReservationBound \<and> r_DrainCompletedAt r = [] \<and>
       l' = put_reservation rid (r\<lparr> rq_ControlRevision := revision, r_State := ReservationDraining,
                         r_DrainSessionToken := t, r_DrainStartedAt := stamp \<rparr>) l"
    using ok by (auto simp: BeginDrain_def split: option.splits if_splits sum.splits)
  have start: "parseCanonicalLedgerTime stamp = Inr s" "stamp \<noteq> []"
    using parseCanonicalLedgerTime_canonical [OF r(2) range(2)] canonicalLedgerTime_nonempty [OF r(2)] by auto
  from l' show ?thesis
  proof
    assume "l' = put_reservation rid (r\<lparr> rq_ControlRevision := revision \<rparr>) l"
    then show ?thesis using advance_wf [OF wf r(1) range(1)] by simp
  next
    assume new: "r_State r = ReservationBound \<and> r_DrainCompletedAt r = [] \<and>
       l' = put_reservation rid (r\<lparr> rq_ControlRevision := revision, r_State := ReservationDraining,
                         r_DrainSessionToken := t, r_DrainStartedAt := stamp \<rparr>) l"
    then have "validBoundedIdentity (r_ChildUID r) 128" using bound_state [OF wf_state [OF wf r(1)]] by simp
    with new show ?thesis
      using r(3) start range(1) unfolding conjunct2 [OF conjunct2 [OF new]]
      by (intro update_keeps_wf [OF wf r(1)])
        (auto simp: state_err_def drain_provenance_err_def hasDrainProvenance_def)
  qed
qed

lemma PromoteDrain_wf:
  assumes wf: "ledger_wf E l" and ok: "PromoteDrain E l rid u c t revision s = (None, l')"
    and range: "revision_ok revision" "in_format_range s"
  shows "ledger_wf E l'"
proof -
  obtain r stamp where r: "reservation_at l rid = Some r" "canonicalLedgerTime s = Inr stamp" "validDrainSessionToken E t"
      "r_DrainSessionToken r = t"
    and l': "l' = put_reservation rid (r\<lparr> rq_ControlRevision := revision \<rparr>) l \<or>
       (\<exists>started. r_State r = ReservationDraining \<and> parseCanonicalLedgerTime (r_DrainStartedAt r) = Inr started \<and>
         started \<le> s \<and>
         l' = put_reservation rid (r\<lparr> rq_ControlRevision := revision, r_State := ReservationGranted,
                         r_DrainCompletedAt := stamp \<rparr>) l)"
    using ok by (auto simp: PromoteDrain_def split: option.splits if_splits sum.splits)
  have done_at: "parseCanonicalLedgerTime stamp = Inr s" "stamp \<noteq> []"
    using parseCanonicalLedgerTime_canonical [OF r(2) range(2)] canonicalLedgerTime_nonempty [OF r(2)] by auto
  from l' show ?thesis
  proof
    assume "l' = put_reservation rid (r\<lparr> rq_ControlRevision := revision \<rparr>) l"
    then show ?thesis using advance_wf [OF wf r(1) range(1)] by simp
  next
    assume "\<exists>started. r_State r = ReservationDraining \<and> parseCanonicalLedgerTime (r_DrainStartedAt r) = Inr started \<and>
         started \<le> s \<and>
         l' = put_reservation rid (r\<lparr> rq_ControlRevision := revision, r_State := ReservationGranted,
                         r_DrainCompletedAt := stamp \<rparr>) l"
    then obtain started where st: "r_State r = ReservationDraining"
        "parseCanonicalLedgerTime (r_DrainStartedAt r) = Inr started" "started \<le> s"
      and l': "l' = put_reservation rid (r\<lparr> rq_ControlRevision := revision, r_State := ReservationGranted,
                         r_DrainCompletedAt := stamp \<rparr>) l" by blast
    have "validBoundedIdentity (r_ChildUID r) 128" using bound_state [OF wf_state [OF wf r(1)]] st(1) by simp
    then show ?thesis
      unfolding l' using r(3,4) st done_at range(1)
      by (intro update_keeps_wf [OF wf r(1)])
        (auto simp: state_err_def drain_provenance_err_def hasDrainProvenance_def)
  qed
qed

lemma Grant_wf:
  assumes wf: "ledger_wf E l" and ok: "Grant l rid u c revision = (None, l')" and range: "revision_ok revision"
  shows "ledger_wf E l'"
proof -
  obtain r where r: "reservation_at l rid = Some r" "\<not> in_drain r"
    and l': "l' = put_reservation rid (r\<lparr> rq_ControlRevision := revision \<rparr>) l \<or>
       r_State r = ReservationBound \<and>
       l' = put_reservation rid (r\<lparr> rq_ControlRevision := revision, r_State := ReservationGranted \<rparr>) l"
    using ok by (auto simp: Grant_def split: option.splits if_splits)
  have "validBoundedIdentity (r_ChildUID r) 128" if "r_State r = ReservationBound"
    using bound_state [OF wf_state [OF wf r(1)]] that by simp
  then have "ledger_wf E (put_reservation rid (r\<lparr> rq_ControlRevision := revision, r_State := ReservationGranted \<rparr>) l)"
    if "r_State r = ReservationBound"
    using that r(2) range wf_drain [OF wf r(1)]
    by (intro update_keeps_wf [OF wf r(1)]) (simp_all add: state_err_def hasDrainProvenance_def in_drain_def)
  then show ?thesis using l' advance_wf [OF wf r(1) range] by auto
qed

lemma revocations_wf:
  assumes wf: "ledger_wf E l" and range: "revision_ok revision"
  shows "Revoke l rid revision = (None, l') \<Longrightarrow> map_option r_State (reservation_at l rid) \<noteq> Some ReservationReserved \<Longrightarrow> ledger_wf E l'"
    and "RevokeDrain E l rid u c t revision = (None, l') \<Longrightarrow> ledger_wf E l'"
    and "RevokeUnclaimedAtEpoch l rid k c revision e = (None, l') \<Longrightarrow> ledger_wf E l'"
  using assms
  by (auto simp: Revoke_def RevokeDrain_def RevokeUnclaimedAtEpoch_def
      split: option.splits if_splits intro: revoked_wf)

lemma recordReleaseFence_wf:
  assumes "ledger_wf E l" "recordReleaseFence l rid e k = (None, l')"
  shows "\<exists>f. l' = l\<lparr> l_LastReleaseFence := f \<rparr> \<and> fence_wf E f"
  using assms(2) by (rule recordReleaseFence_success [where E = E]) (auto simp: fence_wf_def)

lemma recordDrainReleaseFence_wf:
  assumes "ledger_wf E l" "uuid_rejects_empty E" "recordDrainReleaseFence E l rid e k c t = (None, l')"
  shows "\<exists>f. l' = l\<lparr> l_LastReleaseFence := f \<rparr> \<and> fence_wf E f"
proof (cases "l' = l")
  case True
  then have "l' = l\<lparr> l_LastReleaseFence := l_LastReleaseFence l \<rparr>" by simp
  then show ?thesis using assms(1) unfolding ledger_wf_def by blast
next
  case False
  let ?f = "\<lparr> f_ReservationID = rid, f_PolicyEpoch = e, f_TopologyLockID = k,
    f_DrainSessionToken = t, f_DrainChildUID = c \<rparr>"
  from False assms(3) have f: "l' = l\<lparr> l_LastReleaseFence := Some ?f \<rparr>"
    and ok: "validBoundedIdentity rid 64" "1 \<le> e" "validTopologyLockID k" "validBoundedIdentity c 128"
      "validDrainSessionToken E t"
    by (auto simp: recordDrainReleaseFence_def split: if_splits)
  have "t \<noteq> []" "c \<noteq> []"
    using ok validDrainSessionToken_nonempty [OF assms(2)] by (auto simp: validBoundedIdentity_iff)
  then have "fence_err E ?f = None" using ok by (simp add: fence_err_def)
  with f show ?thesis unfolding fence_wf_def by blast
qed

lemma fence_only_wf:
  "ledger_wf E l \<Longrightarrow> \<exists>f. l' = l\<lparr> l_LastReleaseFence := f \<rparr> \<and> fence_wf E f \<Longrightarrow> ledger_wf E l'"
  by (auto simp: ledger_wf_def)

lemma then_delete_wf:
  assumes "ledger_wf E l" "then_delete out rid = (None, l')"
    and "\<And>l1. out = (None, l1) \<Longrightarrow> \<exists>f. l1 = l\<lparr> l_LastReleaseFence := f \<rparr> \<and> fence_wf E f"
  shows "ledger_wf E l'"
proof -
  obtain l1 where l1: "out = (None, l1)" "l' = delete_reservation rid l1"
    using assms(2) by (rule then_delete_success)
  then show ?thesis using assms(1,3) ledger_wf_release by (force simp: delete_with_fence)
qed

lemma releases_wf:
  assumes wf: "ledger_wf E l" and E: "uuid_rejects_empty E"
  shows "Settle l rid k c e ok healthy = (None, l') \<Longrightarrow> ledger_wf E l'"
    and "SettleDrainedReservation E l rid u k c t e ok healthy recovered = (None, l') \<Longrightarrow> ledger_wf E l'"
    and "ReleaseUnclaimedAtEpoch l rid k c revision e = (None, l') \<Longrightarrow> ledger_wf E l'"
    and "FenceUnboundAcquisition l rid e k = (None, l') \<Longrightarrow> ledger_wf E l'"
  using wf recordReleaseFence_wf [OF wf] recordDrainReleaseFence_wf [OF wf E]
  by (auto simp: Settle_def SettleDrainedReservation_def ReleaseUnclaimedAtEpoch_def releaseUnclaimed_def
      FenceUnboundAcquisition_def Let_def split: option.splits if_splits reservation_state.splits
      intro: fence_only_wf then_delete_wf)

lemma Reserve_wf:
  "ledger_wf E l \<Longrightarrow> Reserve E l policy ms q = (None, l') \<Longrightarrow> ledger_wf E l'"
  by (erule Reserve_success) auto

lemma apply_op_wf:
  assumes "ledger_wf E l" "uuid_rejects_empty E" "op_ok op l" "apply_op E op l = (None, l')"
  shows "ledger_wf E l'"
proof (cases op)
  case (OpReserve p ms q)
  with assms(3,4) show ?thesis by (intro Reserve_wf [OF assms(1)]) auto
next
  case (OpBindChild rid c)
  with assms(3,4) show ?thesis by (intro BindChild_wf [OF assms(1)]) auto
next
  case (OpBeginDrain rid u c t v s)
  with assms(3,4) show ?thesis by (intro BeginDrain_wf [OF assms(1)]) auto
next
  case (OpPromoteDrain rid u c t v s)
  with assms(3,4) show ?thesis by (intro PromoteDrain_wf [OF assms(1)]) auto
next
  case (OpGrant rid u c v)
  with assms(3,4) show ?thesis by (intro Grant_wf [OF assms(1)]) auto
next
  case (OpRevoke rid v)
  with assms(3,4) show ?thesis by (intro revocations_wf(1) [OF assms(1)]) auto
next
  case (OpRevokeDrain rid u c t v)
  with assms(3,4) show ?thesis by (intro revocations_wf(2) [OF assms(1)]) auto
next
  case (OpRevokeUnclaimed rid k c v e)
  with assms(3,4) show ?thesis by (intro revocations_wf(3) [OF assms(1)]) auto
next
  case (OpSettle rid k c e ok healthy)
  with assms(3,4) show ?thesis by (intro releases_wf(1) [OF assms(1,2)]) auto
next
  case (OpSettleDrained rid u k c t e ok healthy recovered)
  with assms(3,4) show ?thesis by (intro releases_wf(2) [OF assms(1,2)]) auto
next
  case (OpReleaseUnclaimed rid k c v e)
  with assms(3,4) show ?thesis by (intro releases_wf(3) [OF assms(1,2)]) auto
next
  case (OpFence rid e k)
  with assms(3,4) show ?thesis by (intro releases_wf(4) [OF assms(1,2)]) auto
qed

section \<open>Operations keep the ledger storable\<close>

text \<open>Arguments of Go type \<^verbatim>\<open>int64\<close>, and the epoch a command releases.\<close>

fun op_epoch :: "ledger_op \<Rightarrow> int option" where
  "op_epoch (OpReserve _ _ q) = Some (rq_PolicyEpoch q)"
| "op_epoch (OpRevokeUnclaimed _ _ _ _ e) = Some e"
| "op_epoch (OpSettle _ _ _ e _ _) = Some e"
| "op_epoch (OpSettleDrained _ _ _ _ _ e _ _ _) = Some e"
| "op_epoch (OpReleaseUnclaimed _ _ _ _ e) = Some e"
| "op_epoch (OpFence _ e _) = Some e"
| "op_epoch _ = None"

definition op_typed :: "ledger_op \<Rightarrow> bool" where
  "op_typed op \<longleftrightarrow> (case op_epoch op of None \<Rightarrow> True | Some e \<Rightarrow> e < 2 ^ 63)"

definition fence_kept_or :: "int \<Rightarrow> ledger \<Rightarrow> ledger \<Rightarrow> bool" where
  "fence_kept_or e l l' \<longleftrightarrow> l_LastReleaseFence l' = l_LastReleaseFence l \<or>
     (\<exists>f. l_LastReleaseFence l' = Some f \<and> f_PolicyEpoch f = e)"

lemma records_fence:
  "recordReleaseFence l rid e k = (None, l') \<Longrightarrow> fence_kept_or e l l'"
  "recordDrainReleaseFence E l rid e k c t = (None, l') \<Longrightarrow> fence_kept_or e l l'"
  by (auto simp: fence_kept_or_def recordReleaseFence_def recordDrainReleaseFence_def split: if_splits)

lemma deletes_fence:
  "then_delete (recordReleaseFence l rid e k) x = (None, l') \<Longrightarrow> fence_kept_or e l l'"
  "then_delete (recordDrainReleaseFence E l rid e k c t) x = (None, l') \<Longrightarrow> fence_kept_or e l l'"
  by (erule then_delete_success, use records_fence in \<open>fastforce simp: fence_kept_or_def\<close>)+

lemma releases_fence:
  "Settle l rid k c e ok healthy = (None, l') \<Longrightarrow> fence_kept_or e l l'"
  "SettleDrainedReservation E l rid u k c t e ok healthy recovered = (None, l') \<Longrightarrow> fence_kept_or e l l'"
  "ReleaseUnclaimedAtEpoch l rid k c revision e = (None, l') \<Longrightarrow> fence_kept_or e l l'"
  "FenceUnboundAcquisition l rid e k = (None, l') \<Longrightarrow> fence_kept_or e l l'"
  by (auto simp: Settle_def SettleDrainedReservation_def ReleaseUnclaimedAtEpoch_def releaseUnclaimed_def
      FenceUnboundAcquisition_def Let_def split: option.splits if_splits reservation_state.splits
      intro: records_fence deletes_fence)

lemma put_keeps_fence: "fence_kept_or e l (put_reservation k r l)"
  by (simp add: fence_kept_or_def)

lemma transitions_keep_fence:
  "BindChild l rid c = (None, l') \<Longrightarrow> fence_kept_or e l l'"
  "BeginDrain E l rid u c t v s = (None, l') \<Longrightarrow> fence_kept_or e l l'"
  "PromoteDrain E l rid u c t v s = (None, l') \<Longrightarrow> fence_kept_or e l l'"
  "Grant l rid u c v = (None, l') \<Longrightarrow> fence_kept_or e l l'"
  "Revoke l rid v = (None, l') \<Longrightarrow> fence_kept_or e l l'"
  "RevokeDrain E l rid u c t v = (None, l') \<Longrightarrow> fence_kept_or e l l'"
  "RevokeUnclaimedAtEpoch l rid k c v x = (None, l') \<Longrightarrow> fence_kept_or e l l'"
  "Reserve E l policy ms q = (None, l') \<Longrightarrow> fence_kept_or e l l'"
  by (auto simp: BindChild_def BeginDrain_def PromoteDrain_def Grant_def Revoke_def RevokeDrain_def
      RevokeUnclaimedAtEpoch_def fence_kept_or_def split: option.splits if_splits sum.splits
      elim!: Reserve_success)

lemma apply_op_fence:
  "apply_op E op l = (None, l') \<Longrightarrow> fence_kept_or (case op_epoch op of None \<Rightarrow> 0 | Some e \<Rightarrow> e) l l'"
  by (cases op) (auto intro: transitions_keep_fence releases_fence)

lemma storable_identity: "identity_of r' = identity_of r \<Longrightarrow> storable r' = storable r"
  by (simp add: storable_def identity_of_def reservation_request.defs)

lemma lifecycle_reservation_storable:
  assumes "lifecycle rid s l l'" "reservation_at l' k = Some r'"
    and "\<And>k r. reservation_at l k = Some r \<Longrightarrow> storable r"
    and "reservation_at l rid = None \<Longrightarrow> reservation_at l' rid = Some r' \<Longrightarrow> storable r'"
  shows "storable r'"
proof (cases "k = rid")
  case True
  show ?thesis
  proof (cases "reservation_at l rid")
    case None
    then show ?thesis using assms(2,4) True by simp
  next
    case (Some r)
    then show ?thesis
      using lifecycle_kept [OF assms(1) Some] assms(2,3) True storable_identity by blast
  qed
next
  case False
  then show ?thesis using lifecycle_frame [OF assms(1) False] assms(2,3) by simp
qed

lemma records_keep_reservations:
  "recordReleaseFence l rid e k = (None, l') \<Longrightarrow> l_Reservations l' = l_Reservations l"
  "recordDrainReleaseFence E l rid e k c t = (None, l') \<Longrightarrow> l_Reservations l' = l_Reservations l"
  by (auto simp: recordReleaseFence_def recordDrainReleaseFence_def split: if_splits)

lemma releases_absent:
  assumes "reservation_at l rid = None"
  shows "Settle l rid k c e ok healthy = (None, l') \<Longrightarrow> reservation_at l' rid = None"
    and "SettleDrainedReservation E l rid u k c t e ok healthy recovered = (None, l') \<Longrightarrow> reservation_at l' rid = None"
    and "ReleaseUnclaimedAtEpoch l rid k c revision e = (None, l') \<Longrightarrow> reservation_at l' rid = None"
    and "FenceUnboundAcquisition l rid e k = (None, l') \<Longrightarrow> reservation_at l' rid = None"
  using assms
  by (auto simp: Settle_def SettleDrainedReservation_def ReleaseUnclaimedAtEpoch_def releaseUnclaimed_def
      FenceUnboundAcquisition_def Let_def records_keep_reservations split: if_splits elim!: then_delete_success)

lemma transitions_absent:
  assumes "reservation_at l rid = None"
  shows "BindChild l rid c \<noteq> (None, l')" "BeginDrain E l rid u c t v s \<noteq> (None, l')"
    "PromoteDrain E l rid u c t v s \<noteq> (None, l')" "Grant l rid u c v \<noteq> (None, l')" "Revoke l rid v \<noteq> (None, l')"
    "RevokeDrain E l rid u c t v \<noteq> (None, l')" "RevokeUnclaimedAtEpoch l rid k c v e \<noteq> (None, l')"
  using assms
  by (auto simp: BindChild_def BeginDrain_def PromoteDrain_def Grant_def Revoke_def RevokeDrain_def
      RevokeUnclaimedAtEpoch_def split: sum.splits)

lemma only_Reserve_creates:
  assumes "apply_op E op l = (None, l')" "reservation_at l (op_target op) = None"
    and "reservation_at l' (op_target op) = Some r'"
  shows "\<exists>policy ms q. op = OpReserve policy ms q \<and> r' = new_reservation q"
proof (cases op)
  case (OpReserve policy ms q)
  with assms(1) have "Reserve E l policy ms q = (None, l')" by simp
  then show ?thesis
    by (rule Reserve_success) (use assms(2,3) OpReserve in auto)
qed (use assms in \<open>auto simp: transitions_absent dest: releases_absent\<close>)

lemma apply_op_storable:
  assumes "apply_op E op l = (None, l')" "op_typed op" "ledger_wf E l" "ledger_storable l"
  shows "ledger_storable l'"
proof -
  have rs: "storable r'" if "reservation_at l' k = Some r'" for k r'
  proof (rule lifecycle_reservation_storable [OF apply_op_lifecycle [OF assms(3,1)] that])
    show "storable r" if "reservation_at l k = Some r" for k r
      using assms(4) that by (auto simp: ledger_storable_iff)
    show "storable r'" if "reservation_at l (op_target op) = None" "reservation_at l' (op_target op) = Some r'"
      using only_Reserve_creates [OF assms(1) that] assms(2) by (auto simp: op_typed_def new_reservation_storable)
  qed
  have "f_PolicyEpoch f < 2 ^ 63" if "l_LastReleaseFence l' = Some f" for f
    using apply_op_fence [OF assms(1)] assms(2,4) that
    by (auto simp: fence_kept_or_def op_typed_def ledger_storable_iff split: option.splits)
  with rs show ?thesis by (auto simp: ledger_storable_iff)
qed

end
