(* ===== verification/Ledger_Store.thy ===== *)
theory Ledger_Store
  imports Ledger_Preserve
begin

text \<open>
  The persistence of the ledger, \<^verbatim>\<open>internal/topologyrollout/store.go\<close>: one
  ConfigMap, read uncached and written with a patch that is conditional on its resource
  version, retried on conflict. The Kubernetes client is not part of the repository; it is the
  record \<open>api\<close> of the two calls the store makes, acting on an abstract world that other
  writers change between the calls of one attempt.
\<close>

subsection \<open>The client\<close>

record config_map =
  cm_UID :: string
  cm_ResourceVersion :: string
  cm_Data :: "string gomap"

datatype api_error = Conflict | ApiError string

record 'w api =
  api_get :: "'w \<Rightarrow> api_error + config_map"
  api_patch :: "config_map \<Rightarrow> config_map \<Rightarrow> 'w \<Rightarrow> api_error option \<times> 'w"

text \<open>
  Documented behaviour of a patch with an optimistic lock: it is applied only when the stored
  object still has the resource version of the copy it was computed from, and then the object
  holds the new data; otherwise nothing changes.
\<close>

definition optimistic :: "'w api \<Rightarrow> bool" where
  "optimistic A \<longleftrightarrow>
     (\<forall>before after w w'. api_patch A before after w = (None, w') \<longrightarrow>
        (\<exists>cur. api_get A w = Inr cur \<and> cm_ResourceVersion cur = cm_ResourceVersion before \<and>
          (\<exists>new. api_get A w' = Inr new \<and> cm_UID new = cm_UID cur \<and> cm_Data new = cm_Data after))) \<and>
     (\<forall>before after w w' e. api_patch A before after w = (Some e, w') \<longrightarrow> api_get A w' = api_get A w)"

text \<open>
  A resource version names one state of the object: two worlds a store can observe that show
  the same version show the same object.
\<close>

definition versioned :: "'w api \<Rightarrow> ('w \<Rightarrow> bool) \<Rightarrow> bool" where
  "versioned A W \<longleftrightarrow>
     (\<forall>w w' a b. W w \<and> W w' \<and> api_get A w = Inr a \<and> api_get A w' = Inr b \<and>
        cm_ResourceVersion a = cm_ResourceVersion b \<longrightarrow> a = b)"

subsection \<open>The store\<close>

record store =
  s_HasClient :: bool
  s_KeyNamespace :: string
  s_KeyName :: string
  s_ExpectedUID :: string

abbreviation LedgerDataKey :: string where "LedgerDataKey \<equiv> ''ledger.json''"

datatype store_err = Refused rollout_err | Failed api_error

definition Read :: "'w api \<Rightarrow> ext \<Rightarrow> store \<Rightarrow> 'w \<Rightarrow> store_err + config_map \<times> ledger" where
  "Read A E s w =
     (if \<not> s_HasClient s \<or> s_ExpectedUID s = [] \<or> s_KeyName s = [] \<or> s_KeyNamespace s = []
      then Inl (Refused (Wrapped ErrLedgerIdentity ''store is incomplete''))
      else case api_get A w of
        Inl e \<Rightarrow> Inl (Failed e)
      | Inr cm \<Rightarrow>
          if cm_UID cm \<noteq> s_ExpectedUID s
          then Inl (Refused (Wrapped ErrLedgerIdentity ''object UID''))
          else case Decode E (gm_str (cm_Data cm) LedgerDataKey) (s_ExpectedUID s) of
            Inl e \<Rightarrow> Inl (Refused e)
          | Inr l \<Rightarrow> Inr (cm, l))"

text \<open>
  One attempt of \<^verbatim>\<open>Mutate\<close>: it reads in the world \<open>w\<close>, and by the time it
  patches, other writers have brought the world to \<open>w1\<close>. The callback leaves the ledger it is
  given in the state it returns.
\<close>

definition attempt ::
  "'w api \<Rightarrow> ext \<Rightarrow> store \<Rightarrow> (ledger \<Rightarrow> outcome) \<Rightarrow> 'w \<Rightarrow> 'w \<Rightarrow> store_err option \<times> 'w" where
  "attempt A E s mutate w w1 =
     (case Read A E s w of
        Inl e \<Rightarrow> (Some e, w1)
      | Inr (cm, l) \<Rightarrow>
          (case mutate l of
             (Some e, _) \<Rightarrow> (Some (Refused e), w1)
           | (None, l') \<Rightarrow>
               (case validatePersistedLedger E l' of
                  Some e \<Rightarrow> (Some (Refused e), w1)
                | None \<Rightarrow>
                    if l_UID l' \<noteq> s_ExpectedUID s
                    then (Some (Refused (Wrapped ErrLedgerIdentity ''mutation changed ledger UID'')), w1)
                    else case Encode l' DefaultMaxSerializedBytes of
                      Inl e \<Rightarrow> (Some (Refused e), w1)
                    | Inr encoded \<Rightarrow>
                        if gm_str (cm_Data cm) LedgerDataKey = encoded then (None, w1)
                        else (case api_patch A cm (cm\<lparr> cm_Data := fmupd LedgerDataKey encoded (cm_Data cm) \<rparr>) w1 of
                                (None, w2) \<Rightarrow> (None, w2)
                              | (Some e, w2) \<Rightarrow> (Some (Failed e), w2)))))"

text \<open>
  \<^verbatim>\<open>retry.RetryOnConflict\<close> with a backoff of the given number of steps: the callback
  runs again only after a conflict. \<open>env n\<close> is what the other writers do during the attempt
  that has \<open>n\<close> steps left, \<open>idle n\<close> what they do while the retry sleeps after it.
\<close>

fun Mutate ::
  "nat \<Rightarrow> 'w api \<Rightarrow> ext \<Rightarrow> store \<Rightarrow> (ledger \<Rightarrow> outcome) \<Rightarrow> (nat \<Rightarrow> 'w \<Rightarrow> 'w) \<Rightarrow> (nat \<Rightarrow> 'w \<Rightarrow> 'w) \<Rightarrow> 'w
     \<Rightarrow> store_err option \<times> 'w" where
  "Mutate 0 A E s mutate env idle w = (Some (Failed Conflict), w)"
| "Mutate (Suc n) A E s mutate env idle w =
     (case attempt A E s mutate w (env n w) of
        (Some (Failed Conflict), w') \<Rightarrow> if n = 0 then (Some (Failed Conflict), w')
                                        else Mutate n A E s mutate env idle (idle n w')
      | result \<Rightarrow> result)"

subsection \<open>The committed effect of a command\<close>

text \<open>
  What a successful \<^verbatim>\<open>Mutate\<close> of a command does to the ledger as a whole: the
  command and the validation that precedes the write.
\<close>

definition commit_op :: "ext \<Rightarrow> ledger_op \<Rightarrow> ledger \<Rightarrow> outcome" where
  "commit_op E op l =
     (case apply_op E op l of
        (Some e, _) \<Rightarrow> fails e l
      | (None, l') \<Rightarrow>
          (case validatePersistedLedger E l' of Some e \<Rightarrow> fails e l | None \<Rightarrow> succeeds l'))"

section \<open>Stored forms\<close>

text \<open>
  What the store relies on from the codec: decoding yields values within the invariant, and a
  value within the invariant survives being written. The second law may depend on a condition
  on the environment.
\<close>

locale stored_form =
  fixes enc :: "'a \<Rightarrow> 'e + string" and dec :: "string \<Rightarrow> 'e + 'a" and inv :: "'a \<Rightarrow> bool" and ok :: bool
  assumes dec_inv: "dec d = Inr x \<Longrightarrow> inv x"
    and dec_enc: "ok \<Longrightarrow> inv x \<Longrightarrow> enc x = Inr d \<Longrightarrow> dec d = Inr x"
begin

lemma enc_inj: "ok \<Longrightarrow> inv x \<Longrightarrow> inv y \<Longrightarrow> enc x = Inr d \<Longrightarrow> enc y = Inr d \<Longrightarrow> x = y"
  using dec_enc [of x d] dec_enc [of y d] by simp

lemma unchanged: "ok \<Longrightarrow> dec d = Inr x \<Longrightarrow> inv y \<Longrightarrow> enc y = Inr d \<Longrightarrow> y = x"
  using dec_enc [of y d] by simp

end

interpretation codec: stored_form "\<lambda>l. Encode l DefaultMaxSerializedBytes" "\<lambda>d. Decode E d uid"
  "\<lambda>l. ledger_wf E l \<and> ledger_storable l \<and> l_UID l = uid" "ext_ascii E" for E uid
  by unfold_locales (use Decode_sound Decode_Encode in blast)+

section \<open>Attempts commit atomically\<close>

definition stores :: "'w api \<Rightarrow> ext \<Rightarrow> store \<Rightarrow> 'w \<Rightarrow> ledger \<Rightarrow> bool" where
  "stores A E s w l \<longleftrightarrow> (\<exists>cm. Read A E s w = Inr (cm, l))"

lemma Read_Inr_iff:
  "Read A E s w = Inr (cm, l) \<longleftrightarrow>
     s_HasClient s \<and> s_ExpectedUID s \<noteq> [] \<and> s_KeyName s \<noteq> [] \<and> s_KeyNamespace s \<noteq> [] \<and>
     api_get A w = Inr cm \<and> cm_UID cm = s_ExpectedUID s \<and>
     Decode E (gm_str (cm_Data cm) LedgerDataKey) (s_ExpectedUID s) = Inr l"
  by (auto simp: Read_def split: if_splits sum.splits)

lemma stores_unique: "stores A E s w l \<Longrightarrow> stores A E s w l' \<Longrightarrow> l' = l"
  by (auto simp: stores_def)

lemma attempt_success:
  assumes "attempt A E s mutate w w1 = (None, w2)"
  obtains cm l l' encoded where "Read A E s w = Inr (cm, l)" "mutate l = (None, l')" "ledger_wf E l'"
    "l_UID l' = s_ExpectedUID s" "Encode l' DefaultMaxSerializedBytes = Inr encoded"
    "gm_str (cm_Data cm) LedgerDataKey = encoded \<and> w2 = w1 \<or>
     api_patch A cm (cm\<lparr> cm_Data := fmupd LedgerDataKey encoded (cm_Data cm) \<rparr>) w1 = (None, w2)"
  using assms
  by (auto simp: attempt_def validatePersistedLedger_iff split: sum.splits prod.splits option.splits if_splits)

lemma optimistic_fail: "optimistic A \<Longrightarrow> api_patch A before after w = (Some e, w') \<Longrightarrow> api_get A w' = api_get A w"
  unfolding optimistic_def by blast

lemma optimistic_ok:
  assumes "optimistic A" "api_patch A before after w = (None, w')"
  obtains cur new where "api_get A w = Inr cur" "cm_ResourceVersion cur = cm_ResourceVersion before"
    "api_get A w' = Inr new" "cm_UID new = cm_UID cur" "cm_Data new = cm_Data after"
  using assms unfolding optimistic_def by blast

lemma attempt_error_world:
  assumes "attempt A E s mutate w w1 = (Some e, w2)"
  shows "w2 = w1 \<or> (\<exists>before after x. api_patch A before after w1 = (Some x, w2))"
  using assms
  by (auto simp: attempt_def split: sum.splits prod.splits option.splits if_splits)

lemma attempt_failure:
  assumes "optimistic A" "attempt A E s mutate w w1 = (Some e, w2)"
  shows "api_get A w2 = api_get A w1"
  using attempt_error_world [OF assms(2)] optimistic_fail [OF assms(1)] by blast

text \<open>
  A successful attempt takes effect at one instant: either it found that nothing had to be
  written, or the ledger it computed from is the one stored right before the write and its
  result the one stored right after.
\<close>

definition commits ::
  "'w api \<Rightarrow> ext \<Rightarrow> store \<Rightarrow> (ledger \<Rightarrow> outcome) \<Rightarrow> 'w \<Rightarrow> 'w \<Rightarrow> 'w \<Rightarrow> bool" where
  "commits A E s mutate w w1 w2 \<longleftrightarrow>
     (\<exists>l l'. mutate l = (None, l') \<and> ledger_wf E l' \<and>
        (stores A E s w1 l \<and> stores A E s w2 l' \<or> stores A E s w l \<and> l' = l \<and> w2 = w1))"

definition keeps_storable :: "ext \<Rightarrow> (ledger \<Rightarrow> outcome) \<Rightarrow> bool" where
  "keeps_storable E mutate \<longleftrightarrow>
     (\<forall>l l'. ledger_wf E l \<and> ledger_storable l \<and> mutate l = (None, l') \<longrightarrow> ledger_storable l')"

lemma attempt_commits:
  assumes api: "optimistic A" "versioned A W" "W w" "W w1"
    and E: "ext_ascii E" and keeps: "keeps_storable E mutate"
    and ok: "attempt A E s mutate w w1 = (None, w2)"
  shows "commits A E s mutate w w1 w2"
  using ok
proof (rule attempt_success)
  fix cm l l' encoded
  assume r: "Read A E s w = Inr (cm, l)" and m: "mutate l = (None, l')" and wf: "ledger_wf E l'"
    and uid: "l_UID l' = s_ExpectedUID s" and enc: "Encode l' DefaultMaxSerializedBytes = Inr encoded"
    and how: "gm_str (cm_Data cm) LedgerDataKey = encoded \<and> w2 = w1 \<or>
     api_patch A cm (cm\<lparr> cm_Data := fmupd LedgerDataKey encoded (cm_Data cm) \<rparr>) w1 = (None, w2)"
  have l: "ledger_wf E l" "ledger_storable l" "Decode E (gm_str (cm_Data cm) LedgerDataKey) (s_ExpectedUID s) = Inr l"
    using r codec.dec_inv [of E _ "s_ExpectedUID s" l] by (auto simp: Read_Inr_iff)
  have l': "ledger_wf E l' \<and> ledger_storable l' \<and> l_UID l' = s_ExpectedUID s"
    using keeps l m wf uid by (auto simp: keeps_storable_def)
  from how show ?thesis
  proof
    assume "gm_str (cm_Data cm) LedgerDataKey = encoded \<and> w2 = w1"
    then have "l' = l" "w2 = w1" using codec.unchanged [OF E l(3) l'] enc by auto
    with r m wf show ?thesis unfolding commits_def stores_def by blast
  next
    assume p: "api_patch A cm (cm\<lparr> cm_Data := fmupd LedgerDataKey encoded (cm_Data cm) \<rparr>) w1 = (None, w2)"
    then obtain cur new where cur: "api_get A w1 = Inr cur" "cm_ResourceVersion cur = cm_ResourceVersion cm"
      and new: "api_get A w2 = Inr new" "cm_UID new = cm_UID cur" "cm_Data new = fmupd LedgerDataKey encoded (cm_Data cm)"
      using optimistic_ok [OF api(1) p] by auto
    have "cur = cm" using api(2-4) cur r unfolding versioned_def Read_Inr_iff by metis
    then have "Read A E s w1 = Inr (cm, l)" using r cur(1) by (simp add: Read_Inr_iff)
    moreover have "gm_str (cm_Data new) LedgerDataKey = encoded" using new(3) by (simp add: gm_str_def)
    then have "Read A E s w2 = Inr (new, l')"
      using r cur(1) new(1,2) \<open>cur = cm\<close> codec.dec_enc [OF E l' enc] by (simp add: Read_Inr_iff)
    ultimately show ?thesis using m wf unfolding commits_def stores_def by blast
  qed
qed

lemma Mutate_commits:
  assumes api: "optimistic A" "versioned A W"
    and closed: "\<And>n w. W w \<Longrightarrow> W (env n w)" "\<And>n w. W w \<Longrightarrow> W (idle n w)"
      "\<And>before after w e w'. W w \<Longrightarrow> api_patch A before after w = (Some e, w') \<Longrightarrow> W w'"
    and E: "ext_ascii E" and keeps: "keeps_storable E mutate"
  shows "Mutate n A E s mutate env idle w = (None, w2) \<Longrightarrow> W w \<Longrightarrow>
    \<exists>v k. W v \<and> k < n \<and> commits A E s mutate v (env k v) w2"
proof (induction n arbitrary: w)
  case (Suc n)
  show ?case
  proof (cases "attempt A E s mutate w (env n w) = (None, w2)")
    case True
    then have "commits A E s mutate w (env n w) w2"
      using attempt_commits [OF api Suc.prems(2) closed(1) [OF Suc.prems(2)] E keeps] by simp
    with Suc.prems(2) show ?thesis by blast
  next
    case False
    then obtain w' where w': "attempt A E s mutate w (env n w) = (Some (Failed Conflict), w')"
      "Mutate n A E s mutate env idle (idle n w') = (None, w2)"
      using Suc.prems(1)
      by (auto split: option.splits prod.splits store_err.splits api_error.splits if_splits)
    have "W w'"
      using attempt_error_world [OF w'(1)] Suc.prems(2) closed(1,3) by metis
    then obtain v k where "W v \<and> k < n \<and> commits A E s mutate v (env k v) w2"
      using Suc.IH [OF w'(2)] closed(2) by blast
    then show ?thesis using less_SucI by blast
  qed
qed simp

lemma apply_op_keeps_storable: "op_typed op \<Longrightarrow> keeps_storable E (apply_op E op)"
  using apply_op_storable by (auto simp: keeps_storable_def)

section \<open>Sequences of committed commands\<close>

fun run_ops :: "('op \<Rightarrow> ledger \<Rightarrow> outcome) \<Rightarrow> 'op list \<Rightarrow> ledger \<Rightarrow> ledger" where
  "run_ops step [] l = l"
| "run_ops step (op # ops) l = run_ops step ops (snd (step op l))"

locale ledger_machine =
  fixes step :: "'op \<Rightarrow> ledger \<Rightarrow> outcome" and target :: "'op \<Rightarrow> string" and session :: "'op \<Rightarrow> string option"
    and inv :: "ledger \<Rightarrow> bool"
  assumes step_error: "step op l = (Some e, l') \<Longrightarrow> l' = l"
    and step_lifecycle: "inv l \<Longrightarrow> step op l = (None, l') \<Longrightarrow> lifecycle (target op) (session op) l l'"
    and step_inv: "inv l \<Longrightarrow> step op l = (None, l') \<Longrightarrow> inv l'"
    and inv_state: "inv l \<Longrightarrow> reservation_at l k = Some r \<Longrightarrow> state_err r = None"
begin

lemma step_keeps: "inv l \<Longrightarrow> inv (snd (step op l))"
  using step_error [of op l] step_inv [of l op] by (cases "step op l"; cases "fst (step op l)") auto

lemma step_relation: "inv l \<Longrightarrow> lifecycle (target op) (session op) l (snd (step op l))"
  using step_error [of op l] step_lifecycle [of l op] lifecycle.stutter
  by (cases "step op l"; cases "fst (step op l)") auto

lemma run_inv: "inv l \<Longrightarrow> inv (run_ops step ops l)"
  by (induction ops arbitrary: l) (auto simp: step_keeps)

lemma run_frame: "inv l \<Longrightarrow> k \<notin> target ` set ops \<Longrightarrow> reservation_at (run_ops step ops l) k = reservation_at l k"
proof (induction ops arbitrary: l)
  case (Cons op ops)
  then show ?case using lifecycle_frame [OF step_relation [of l op], of k] step_keeps [of l op] by auto
qed simp

lemma run_session_bound:
  assumes "inv l" "reservation_at l k = Some r" "r_DrainSessionToken r \<noteq> []"
    and "\<forall>op \<in> set ops. target op = k \<longrightarrow> session op \<noteq> Some (r_DrainSessionToken r)"
  shows "reservation_at (run_ops step ops l) k = Some r"
  using assms
proof (induction ops arbitrary: l)
  case (Cons op ops)
  let ?l = "snd (step op l)"
  have "reservation_at ?l k = Some r"
  proof (cases "target op = k")
    case True
    then show ?thesis
      using lifecycle_session_bound [OF step_relation [OF Cons.prems(1), of op]] Cons.prems inv_state by auto
  next
    case False
    then show ?thesis
      using lifecycle_frame [OF step_relation [OF Cons.prems(1), of op]] Cons.prems by auto
  qed
  then show ?case using Cons.IH [of ?l] Cons.prems step_keeps by auto
qed simp

lemma run_uid: "inv l \<Longrightarrow> l_UID (run_ops step ops l) = l_UID l"
proof (induction ops arbitrary: l)
  case (Cons op ops)
  then show ?case using lifecycle_ledger [OF step_relation [of l op]] step_keeps [of l op] by auto
qed simp

end

lemma commit_op_success:
  "commit_op E op l = (None, l') \<longleftrightarrow> apply_op E op l = (None, l') \<and> ledger_wf E l'"
  using validatePersistedLedger_iff [of E l']
  by (auto simp: commit_op_def split: prod.splits option.splits)

interpretation committed: ledger_machine "commit_op E" op_target op_session "ledger_wf E" for E
proof unfold_locales
  show "l' = l" if "commit_op E op l = (Some e, l')" for op l e l'
    using that by (auto simp: commit_op_def split: prod.splits option.splits)
qed (auto simp: commit_op_success intro: apply_op_lifecycle wf_state)

end
