(* ===== verification/Rollout_Examples.thy ===== *)
theory Rollout_Examples
  imports Ledger_Store
begin

text \<open>
  A small concrete fleet for evaluating the ledger: two switches in two racks, a policy that
  lets one of them be upgraded at a time, and a request for the first.
\<close>

definition ex_policy :: policy where
  "ex_policy =
     \<lparr> p_UID = ''policy-uid'', p_Version = ''7'', p_Epoch = 3, p_GlobalMaxConcurrentTransfers = 2,
       p_GlobalMaxUnavailable = 1, p_DomainTransferBudgets = fmempty,
       p_DomainBudgets = fmap_of_list [(''rack'', 1)],
       p_RiskGroupBudgets = fmap_of_list [(''core'', \<lparr> b_MaxConcurrentTransfers = 1, b_MaxUnavailable = 1 \<rparr>)],
       p_MaxActiveRecords = 8, p_MaxSerializedBytes = 65536, p_RequiredHealthFreshBy = 0 \<rparr>"

definition ex_member :: "string \<Rightarrow> string \<Rightarrow> member" where
  "ex_member name rack =
     \<lparr> m_PhysicalID = name, m_DeviceUID = ''dev-'' @ name, m_NodeUID = ''node-'' @ name,
       m_Domains = fmap_of_list [(''rack'', rack)], m_RiskGroups = [''core''], m_HealthKnown = True,
       m_Healthy = True, m_Maintenance = False, m_HealthObserved = 5 \<rparr>"

definition ex_request :: "string \<Rightarrow> string \<Rightarrow> reservation_request" where
  "ex_request name rack =
     \<lparr> rq_ID = ''res-'' @ name, rq_CampaignUID = ''campaign-1'',
       rq_PlanHash = ''sha256:'' @ replicate 64 CHR ''a'',
       rq_PolicyUID = ''policy-uid'', rq_PolicyVersion = ''7'', rq_PolicyEpoch = 3,
       rq_TopologyLockID = replicate 32 CHR ''b'', rq_PhysicalID = name, rq_DeviceUID = ''dev-'' @ name,
       rq_NodeUID = ''node-'' @ name, rq_ChildNamespace = ''fleet'', rq_ChildName = ''leaf-'' @ name,
       rq_Domains = fmap_of_list [(''rack'', rack)], rq_RiskGroups = [''core''],
       rq_CampaignMaxConcurrentTransfers = 1, rq_CampaignMaxUnavailable = 1,
       rq_CampaignTransferLimits = fmempty, rq_CampaignLimits = fmempty, rq_ControlRevision = 0 \<rparr>"

definition ex_members :: "member list" where
  "ex_members = [ex_member ''sw1'' ''r1'', ex_member ''sw2'' ''r2'']"

definition ex_empty :: ledger where
  "ex_empty = \<lparr> l_Version = ''v1'', l_UID = ''ledger-uid'', l_Reservations = fmempty, l_LastReleaseFence = None \<rparr>"

text \<open>The ledger after the first switch has been reserved, bound, and drained.\<close>

definition ex_reserved :: ledger where
  "ex_reserved = put_reservation ''res-sw1'' (new_reservation (ex_request ''sw1'' ''r1'')) ex_empty"

definition ex_token :: string where
  "ex_token = ''0a1b2c3d-0000-4000-8000-000000000001''"

text \<open>A moment of the year 1997, in nanoseconds since the year 1.\<close>

definition ex_start :: time where
  "ex_start = 63000000000000000000"

definition ex_bound :: ledger where
  "ex_bound = snd (BindChild ex_reserved ''res-sw1'' ''child-1'')"

definition ex_draining :: ledger where
  "ex_draining = snd (BeginDrain example_ext ex_bound ''res-sw1'' ''ledger-uid'' ''child-1'' ex_token 1 ex_start)"

text \<open>
  A client whose world is the stored object itself: a patch computed from the current resource
  version replaces the data and takes the next version, any other patch conflicts.
\<close>

definition cell_api :: "config_map api" where
  "cell_api =
     \<lparr> api_get = (\<lambda>w. Inr w),
       api_patch = (\<lambda>before after w.
         if cm_ResourceVersion before = cm_ResourceVersion w
         then (None, w\<lparr> cm_Data := cm_Data after, cm_ResourceVersion := cm_ResourceVersion w @ ''+'' \<rparr>)
         else (Some Conflict, w)) \<rparr>"

definition ex_store :: store where
  "ex_store = \<lparr> s_HasClient = True, s_KeyNamespace = ''fleet'', s_KeyName = ''rollout'', s_ExpectedUID = ''ledger-uid'' \<rparr>"

definition ex_world :: config_map where
  "ex_world = \<lparr> cm_UID = ''ledger-uid'', cm_ResourceVersion = ''1'',
     cm_Data = fmap_of_list [(''ledger.json'', render (ledger_json ex_empty))] \<rparr>"

section \<open>Facts about the examples\<close>

lemma ex_Reserve: "Reserve example_ext ex_empty ex_policy ex_members (ex_request ''sw1'' ''r1'') = (None, ex_reserved)"
  by code_simp

lemma ex_empty_wf: "ledger_wf example_ext ex_empty"
  unfolding validatePersistedLedger_iff [symmetric] by code_simp

lemma ex_reserved_wf: "ledger_wf example_ext ex_reserved"
  by (rule Reserve_wf [OF ex_empty_wf ex_Reserve])

lemma ex_BindChild: "BindChild ex_reserved ''res-sw1'' ''child-1'' = (None, ex_bound)"
proof -
  have "fst (BindChild ex_reserved ''res-sw1'' ''child-1'') = None" by code_simp
  then show ?thesis by (metis ex_bound_def prod.collapse)
qed

lemma ex_BeginDrain:
  "BeginDrain example_ext ex_bound ''res-sw1'' ''ledger-uid'' ''child-1'' ex_token 1 ex_start = (None, ex_draining)"
proof -
  have "fst (BeginDrain example_ext ex_bound ''res-sw1'' ''ledger-uid'' ''child-1'' ex_token 1 ex_start) = None"
    by code_simp
  then show ?thesis by (metis ex_draining_def prod.collapse)
qed

lemma ex_bound_wf: "ledger_wf example_ext ex_bound"
  by (rule BindChild_wf [OF ex_reserved_wf ex_BindChild]) code_simp

lemma ex_draining_wf: "ledger_wf example_ext ex_draining"
  by (rule BeginDrain_wf [OF ex_bound_wf ex_BeginDrain]) code_simp+

lemma optimistic_cell: "optimistic cell_api"
  by (auto simp: optimistic_def cell_api_def split: if_splits)

lemma versioned_cell: "versioned cell_api (\<lambda>w. w = v)"
  by (simp add: versioned_def cell_api_def)

lemma cell_closed: "\<forall>before after w e w'. w = v \<and> api_patch cell_api before after w = (Some e, w') \<longrightarrow> w' = v"
  by (auto simp: cell_api_def split: if_splits)

lemma simple_name_ascii: "list_all name_char s \<Longrightarrow> ascii s"
  by (auto simp: ascii_def list_all_iff name_char_def is_digit_def)

lemma canonical_uuid_ascii:
  assumes "canonical_uuid s"
  shows "ascii s"
proof -
  have "byte_of (s ! i) < 0x80" if "i < length s" for i
  proof -
    from assms that have "s ! i = CHR ''-'' \<or> is_lower_hex (s ! i)"
      unfolding canonical_uuid_def by (metis atLeastLessThan_iff le0 set_upt)
    then show ?thesis by (auto simp: is_lower_hex_def is_digit_def)
  qed
  then show ?thesis by (simp add: ascii_def list_all_length)
qed

lemma example_ext_ascii: "ext_ascii example_ext"
  unfolding ext_ascii_def example_ext_def
  by (auto simp: simple_name_def simple_name_ascii canonical_uuid_ascii split: if_splits)
    (auto simp: ascii_def list_all_iff name_char_def is_digit_def)

end
