(* ===== verification/Rollout_Properties.thy ===== *)
theory Rollout_Properties
  imports Rollout_Examples
begin

text \<open>
  What the rollout ledger promises: admission within every budget, atomic failure, a fenced
  and session-bound life of each reservation, and a persistence that loses no update.
\<close>

subsection \<open>Admission\<close>

text \<open>
  C1. When \<^verbatim>\<open>Reserve\<close> admits a new reservation, the ledger it leaves is within every
  budget of the administrator and of the campaign: globally, in each budgeted topology domain of
  the target, and in each of its risk groups. Devices found unavailable and devices already
  reserved both count.
\<close>

theorem reserve_within_budgets:
  assumes "Reserve E l policy ms q = (None, l')" "reservation_at l (rq_ID q) = None"
  shows "\<exists>cm. canonicalizeMembers E ms = Inr cm \<and> within_global_budgets cm l' policy q \<and>
    within_domain_budgets cm l' policy q \<and> within_group_budgets cm l' policy q"
  using assms(1)
  by (rule Reserve_success)
    (use assms(2) admitted_global admitted_domains admitted_groups in auto)

theorem reserve_within_budgets_witness:
  "\<exists>cm. canonicalizeMembers example_ext ex_members = Inr cm \<and>
     within_global_budgets cm ex_reserved ex_policy (ex_request ''sw1'' ''r1'') \<and>
     within_domain_budgets cm ex_reserved ex_policy (ex_request ''sw1'' ''r1'') \<and>
     within_group_budgets cm ex_reserved ex_policy (ex_request ''sw1'' ''r1'')"
  by (rule reserve_within_budgets [OF ex_Reserve]) (simp add: ex_empty_def)

text \<open>
  C2. The members \<^verbatim>\<open>canonicalizeMembers\<close> returns are exactly the physical devices
  observed, and repeated observations are never merged optimistically: a device counts as
  unavailable if and only if one of its observations does.
\<close>

theorem canonical_members_pessimistic:
  assumes "canonicalizeMembers E ms = Inr cm"
  shows "fmdom' cm = m_PhysicalID ` set ms \<and>
    (\<forall>x. (\<exists>m. fmlookup cm x = Some m \<and> member_unavailable m policy) \<longleftrightarrow>
         (\<exists>m \<in> set ms. m_PhysicalID m = x \<and> member_unavailable m policy))"
  using canonicalizeMembers_sound [OF assms] by (simp add: unavailable_at_def)

theorem canonical_members_pessimistic_witness:
  "\<exists>cm. canonicalizeMembers example_ext (ex_members @ [(ex_member ''sw2'' ''r2'')\<lparr> m_Healthy := False \<rparr>]) = Inr cm \<and>
     (\<exists>m. fmlookup cm ''sw2'' = Some m \<and> member_unavailable m ex_policy)"
proof -
  let ?ms = "ex_members @ [(ex_member ''sw2'' ''r2'')\<lparr> m_Healthy := False \<rparr>]"
  have "\<not> isl (canonicalizeMembers example_ext ?ms)" by code_simp
  then obtain cm where "canonicalizeMembers example_ext ?ms = Inr cm" by (cases "canonicalizeMembers example_ext ?ms") auto
  with canonical_members_pessimistic [OF this, of ex_policy] show ?thesis
    by (auto simp: ex_members_def ex_member_def member_unavailable_def)
qed

text \<open>
  C3. Replaying a successful request is harmless: \<^verbatim>\<open>Reserve\<close> with the same request
  succeeds again and leaves the ledger as it is.
\<close>

theorem reserve_replay:
  assumes "Reserve E l policy ms q = (None, l')"
  shows "Reserve E l' policy ms' q = (None, l')"
  using assms
proof (rule Reserve_success)
  fix existing
  assume "reservation_at l (rq_ID q) = Some existing" "sameRequest existing q" "l' = l"
  with assms show ?thesis by (auto simp: Reserve_def split: option.splits if_splits)
next
  fix cm data
  assume "admitted E l policy cm q" and l': "l' = put_reservation (rq_ID q) (new_reservation q) l"
  moreover have "sameRequest (new_reservation q) q"
    by (simp add: sameRequest_def request_members_def clearCampaignLimits_def)
  moreover have "validateInputs E l' policy q = validateInputs E l policy q"
    by (simp add: validateInputs_def l')
  ultimately show ?thesis by (simp add: Reserve_def admitted_def)
qed

theorem reserve_replay_witness:
  "Reserve example_ext ex_reserved ex_policy [] (ex_request ''sw1'' ''r1'') = (None, ex_reserved)"
  by (rule reserve_replay [OF ex_Reserve])

text \<open>
  C4. \<^verbatim>\<open>containsSorted\<close>, a binary search, decides membership in a sorted list.
\<close>

theorem containsSorted_member: "sorted vs \<Longrightarrow> containsSorted vs v \<longleftrightarrow> v \<in> set vs"
  by (rule containsSorted_iff)

theorem containsSorted_member_witness: "containsSorted [''a'', ''core'', ''edge''] ''core''"
  using containsSorted_member [of "[''a'', ''core'', ''edge'']" "''core''"] by code_simp

subsection \<open>The persisted form\<close>

text \<open>
  C5. The traversal of \<^verbatim>\<open>validatePersistedLedger\<close> with its five maps of identities
  already seen accepts a ledger exactly when it is well formed: every entry is filed under its own
  identifier and valid, and no two entries share a physical, device, node, child or child UID.
\<close>

theorem validation_exact: "validatePersistedLedger E l = None \<longleftrightarrow> ledger_wf E l"
  by (rule validatePersistedLedger_iff)

text \<open>
  C6. Writing and reading a ledger is lossless: a well-formed ledger that \<^verbatim>\<open>Encode\<close>
  accepts is returned unchanged by \<^verbatim>\<open>Decode\<close>. It needs that the names accepted by the
  external validators are ASCII, and that the fields excluded from the JSON form are unset.
\<close>

theorem ledger_roundtrip:
  assumes "ext_ascii E" "ledger_wf E l" "ledger_storable l" "Encode l maxBytes = Inr data"
  shows "Decode E data (l_UID l) = Inr l"
  using assms by (rule Decode_Encode)

theorem ledger_roundtrip_witness:
  "\<exists>data. Encode ex_draining 65536 = Inr data \<and> Decode example_ext data (l_UID ex_draining) = Inr ex_draining"
proof -
  have "ledger_storable ex_draining" "\<not> isl (Encode ex_draining 65536)" by code_simp+
  then obtain data where "Encode ex_draining 65536 = Inr data" by (cases "Encode ex_draining 65536") auto
  with ledger_roundtrip [OF example_ext_ascii ex_draining_wf] \<open>ledger_storable ex_draining\<close>
  show ?thesis by blast
qed

text \<open>
  C7. Whatever bytes are stored, a ledger that \<^verbatim>\<open>Decode\<close> returns is well formed and
  carries the expected identity; hostile input is refused, never interpreted leniently.
\<close>

theorem decode_fails_closed:
  assumes "Decode E data uid = Inr l"
  shows "ledger_wf E l \<and> l_UID l = uid \<and> l_Version l = ''v1'' \<and> int (length data) \<le> 262144"
proof -
  have "int (length data) \<le> DefaultMaxSerializedBytes"
    using assms by (auto simp: Decode_def split: if_splits)
  with Decode_sound [OF assms] show ?thesis by (auto simp: ledger_wf_def)
qed

theorem decode_fails_closed_witness:
  "Decode example_ext (render (ledger_json ex_empty)) ''ledger-uid'' = Inr ex_empty \<and> l_Version ex_empty = ''v1''"
proof -
  have "Decode example_ext (render (ledger_json ex_empty)) ''ledger-uid'' = Inr ex_empty" by code_simp
  with decode_fails_closed [OF this] show ?thesis by blast
qed

subsection \<open>Commands\<close>

text \<open>
  C8. Failure is atomic: a command that returns an error, admission and settlement included,
  leaves the ledger exactly as it was.
\<close>

theorem failed_command_changes_nothing: "apply_op E op l = (Some e, l') \<Longrightarrow> l' = l"
  by (rule apply_op_error)

theorem failed_command_changes_nothing_witness:
  "snd (apply_op example_ext (OpGrant ''res-sw1'' ''ledger-uid'' ''child-1'' 5) ex_draining) = ex_draining"
proof -
  let ?out = "apply_op example_ext (OpGrant ''res-sw1'' ''ledger-uid'' ''child-1'' 5) ex_draining"
  have "fst ?out \<noteq> None" by code_simp
  then obtain e where "?out = (Some e, snd ?out)" by (metis option.exhaust prod.collapse)
  from failed_command_changes_nothing [OF this] show ?thesis .
qed



text \<open>
  C10. Every successful command moves the one reservation it addresses along the lifecycle
  (absent, reserved, bound, draining, granted, revoked) and leaves all others alone. In
  particular a revoked reservation is never granted again.
\<close>

theorem command_follows_lifecycle:
  assumes "ledger_wf E l" "apply_op E op l = (None, l')"
  shows "phase_step (map_option r_State (reservation_at l (op_target op)))
                    (map_option r_State (reservation_at l' (op_target op))) \<and>
    (\<forall>k. k \<noteq> op_target op \<longrightarrow> reservation_at l' k = reservation_at l k)"
  using lifecycle_phase [OF apply_op_lifecycle [OF assms]] lifecycle_frame [OF apply_op_lifecycle [OF assms]]
  by blast

theorem command_follows_lifecycle_witness:
  "phase_step (map_option r_State (reservation_at ex_bound ''res-sw1''))
              (map_option r_State (reservation_at ex_draining ''res-sw1''))"
  using command_follows_lifecycle [OF ex_bound_wf,
      of "OpBeginDrain ''res-sw1'' ''ledger-uid'' ''child-1'' ex_token 1 ex_start" ex_draining]
    ex_BeginDrain by simp

text \<open>
  C11. While a reservation exists, its identity is fixed, its control revision never decreases,
  and a child UID once bound is never replaced.
\<close>

theorem command_monotone:
  assumes "ledger_wf E l" "apply_op E op l = (None, l')"
    and "reservation_at l k = Some r" "reservation_at l' k = Some r'"
  shows "identity_of r' = identity_of r \<and> rq_ControlRevision r \<le> rq_ControlRevision r' \<and>
    (r_ChildUID r \<noteq> [] \<longrightarrow> r_ChildUID r' = r_ChildUID r)"
proof (cases "k = op_target op")
  case True
  show ?thesis
    by (rule lifecycle_kept [OF apply_op_lifecycle [OF assms(1,2)] assms(3,4) [unfolded True]])
next
  case False
  then have "r' = r" using lifecycle_frame [OF apply_op_lifecycle [OF assms(1,2)] False] assms(3,4) by simp
  then show ?thesis by simp
qed

theorem command_monotone_witness:
  "\<exists>r r'. reservation_at ex_bound ''res-sw1'' = Some r \<and> reservation_at ex_draining ''res-sw1'' = Some r' \<and>
     identity_of r' = identity_of r \<and> r_ChildUID r' = r_ChildUID r"
proof -
  have "reservation_at ex_bound ''res-sw1'' \<noteq> None" "reservation_at ex_draining ''res-sw1'' \<noteq> None"
    "map_option r_ChildUID (reservation_at ex_bound ''res-sw1'') = Some ''child-1''" by code_simp+
  then obtain r r' where r: "reservation_at ex_bound ''res-sw1'' = Some r" "reservation_at ex_draining ''res-sw1'' = Some r'"
    "r_ChildUID r \<noteq> []" by auto
  then show ?thesis
    using command_monotone [OF ex_bound_wf _ r(1,2),
        of "OpBeginDrain ''res-sw1'' ''ledger-uid'' ''child-1'' ex_token 1 ex_start"] ex_BeginDrain by auto
qed

text \<open>
  C12. Drain provenance is never laundered: a reservation that carries a drain session survives,
  unchanged, every sequence of committed commands that do not present its own session token.
\<close>

theorem drain_session_survives:
  assumes "ledger_wf E l" "reservation_at l k = Some r" "r_DrainSessionToken r \<noteq> []"
    and "\<forall>op \<in> set ops. op_target op = k \<longrightarrow> op_session op \<noteq> Some (r_DrainSessionToken r)"
  shows "reservation_at (run_ops (commit_op E) ops l) k = Some r"
  using assms by (rule committed.run_session_bound)

abbreviation ex_attacks :: "ledger_op list" where
  "ex_attacks \<equiv>
     [OpRevoke ''res-sw1'' 9, OpFence ''res-sw1'' 3 (replicate 32 CHR ''b''),
      OpSettle ''res-sw1'' (replicate 32 CHR ''b'') ''child-1'' 3 True True]"

theorem drain_session_survives_witness:
  "\<exists>r. reservation_at ex_draining ''res-sw1'' = Some r \<and>
     reservation_at (run_ops (commit_op example_ext) ex_attacks ex_draining) ''res-sw1'' = Some r"
proof -
  have "map_option (\<lambda>r. r_DrainSessionToken r \<noteq> []) (reservation_at ex_draining ''res-sw1'') = Some True" by code_simp
  then obtain r where "reservation_at ex_draining ''res-sw1'' = Some r" "r_DrainSessionToken r \<noteq> []" by auto
  with drain_session_survives [OF ex_draining_wf this, of ex_attacks] show ?thesis by simp
qed

text \<open>
  C13. A released acquisition cannot come back: the command that removes a reservation leaves a
  fence for exactly that acquisition, and \<^verbatim>\<open>Reserve\<close> refuses a request that repeats
  its identifier, policy epoch and topology lock.
\<close>

theorem release_fences_acquisition:
  assumes "ledger_wf E l" "apply_op E op l = (None, l')"
    and "reservation_at l (op_target op) = Some r" "reservation_at l' (op_target op) = None"
    and "rq_ID q = op_target op" "rq_PolicyEpoch q = rq_PolicyEpoch r" "rq_TopologyLockID q = rq_TopologyLockID r"
  shows "HasReleaseFence l' (rq_ID q) (rq_PolicyEpoch q) (rq_TopologyLockID q) \<and> fst (Reserve E l' policy ms q) \<noteq> None"
proof -
  have "HasReleaseFence l' (rq_ID q) (rq_PolicyEpoch q) (rq_TopologyLockID q)"
    using lifecycle_removed [OF apply_op_lifecycle [OF assms(1,2)] assms(3,4)] assms(5-7) by simp
  then show ?thesis by (simp add: Reserve_def HasReleaseFence_def split: option.split)
qed

abbreviation ex_release :: ledger_op where
  "ex_release \<equiv> OpFence ''res-sw1'' 3 (replicate 32 CHR ''b'')"

theorem release_fences_acquisition_witness:
  "fst (Reserve example_ext (snd (apply_op example_ext ex_release ex_reserved)) ex_policy ex_members
     (ex_request ''sw1'' ''r1'')) \<noteq> None"
proof -
  let ?l = "snd (apply_op example_ext ex_release ex_reserved)"
  have "fst (apply_op example_ext ex_release ex_reserved) = None" by code_simp
  then have ok: "apply_op example_ext ex_release ex_reserved = (None, ?l)" by (metis prod.collapse)
  have r: "reservation_at ex_reserved (op_target ex_release) = Some (new_reservation (ex_request ''sw1'' ''r1''))"
    by (simp add: ex_reserved_def)
  have "map_option r_State (reservation_at ?l (op_target ex_release)) = None" by code_simp
  then have none: "reservation_at ?l (op_target ex_release) = None" by simp
  show ?thesis
    by (rule release_fences_acquisition [OF ex_reserved_wf ok r none, THEN conjunct2]) (simp_all add: ex_request_def)
qed

text \<open>
  C14. \<^verbatim>\<open>Revoke\<close> accepts a reservation that was never bound to a child, but the ledger
  it produces is one the validation before the write always refuses, so such a revocation can
  never be committed.
\<close>

theorem revoke_unbound_uncommittable:
  assumes "ledger_wf E l" "reservation_at l rid = Some r" "r_State r = ReservationReserved"
    and "Revoke l rid revision = (None, l')"
  shows "validatePersistedLedger E l' \<noteq> None"
proof -
  have "r_ChildUID r = []" using wf_state [OF assms(1,2)] assms(3) by (auto simp: state_err_def)
  moreover have "l' = put_reservation rid (revoked revision r) l"
    using assms(2-4) by (auto simp: Revoke_def split: if_splits)
  ultimately have "reservation_at l' rid = Some (revoked revision r)" "state_err (revoked revision r) \<noteq> None"
    by (auto simp: revoked_def state_err_def validBoundedIdentity_def)
  then show ?thesis using wf_state [of E l' rid] by (auto simp: validatePersistedLedger_iff)
qed

theorem revoke_unbound_uncommittable_witness:
  "fst (Revoke ex_reserved ''res-sw1'' 1) = None \<and>
   validatePersistedLedger example_ext (snd (Revoke ex_reserved ''res-sw1'' 1)) \<noteq> None"
proof -
  have ok: "fst (Revoke ex_reserved ''res-sw1'' 1) = None" by code_simp
  have "reservation_at ex_reserved ''res-sw1'' = Some (new_reservation (ex_request ''sw1'' ''r1''))"
    by (simp add: ex_reserved_def)
  with revoke_unbound_uncommittable [OF ex_reserved_wf this, of 1] ok show ?thesis by (metis new_reservation_fields(16) prod.collapse)
qed

subsection \<open>The store\<close>

text \<open>
  C15. \<^verbatim>\<open>Mutate\<close> loses no update. Whatever other writers do between its read and its
  write and between its retries, a successful call took effect at a single instant: either the
  command had no effect on the ledger it read, or the ledger it computed from is the one stored
  right before its write and its result is the one stored right after.
\<close>

theorem mutate_linearizable:
  assumes "optimistic A" "versioned A W" "W w"
    and "\<forall>n w. W w \<longrightarrow> W (env n w) \<and> W (idle n w)"
    and "\<forall>before after w e w'. W w \<and> api_patch A before after w = (Some e, w') \<longrightarrow> W w'"
    and "ext_ascii E" "op_typed op"
    and "Mutate n A E s (apply_op E op) env idle w = (None, w2)"
  shows "\<exists>v k l l'. k < n \<and> W v \<and> commit_op E op l = (None, l') \<and>
    (stores A E s (env k v) l \<and> stores A E s w2 l' \<or> stores A E s v l \<and> l' = l \<and> w2 = env k v)"
proof -
  obtain v k where "W v" "k < n" "commits A E s (apply_op E op) v (env k v) w2"
    using Mutate_commits [OF assms(1,2) _ _ _ assms(6) apply_op_keeps_storable [OF assms(7)] assms(8,3)] assms(4,5)
    by metis
  then show ?thesis unfolding commits_def commit_op_success by blast
qed

theorem mutate_linearizable_witness:
  "\<exists>w2 l l'. Mutate 4 cell_api example_ext ex_store (apply_op example_ext ex_release) (\<lambda>_ w. w) (\<lambda>_ w. w) ex_world = (None, w2) \<and>
     commit_op example_ext ex_release l = (None, l') \<and> stores cell_api example_ext ex_store ex_world l"
proof -
  let ?m = "Mutate 4 cell_api example_ext ex_store (apply_op example_ext ex_release) (\<lambda>_ w. w) (\<lambda>_ w. w) ex_world"
  have "fst ?m = None" by code_simp
  then have m: "?m = (None, snd ?m)" by (metis prod.collapse)
  have typed: "op_typed ex_release" by (simp add: op_typed_def)
  have env: "\<forall>(n::nat) w. w = ex_world \<longrightarrow> w = ex_world \<and> w = ex_world" by simp
  obtain v l l' where "v = ex_world" "commit_op example_ext ex_release l = (None, l')"
    "stores cell_api example_ext ex_store v l"
    using mutate_linearizable [OF optimistic_cell versioned_cell refl env cell_closed example_ext_ascii typed m]
    by blast
  with m show ?thesis by blast
qed



subsection \<open>Times\<close>

text \<open>
  C17. The canonical time stamps of the ledger are lossless: a non-zero time of the years the
  format can represent is read back exactly from its canonical text.
\<close>

theorem ledger_time_roundtrip:
  assumes "canonicalLedgerTime t = Inr s" "in_format_range t"
  shows "parseCanonicalLedgerTime s = Inr t"
  using assms by (rule parseCanonicalLedgerTime_canonical)

theorem ledger_time_roundtrip_witness:
  "\<exists>s. canonicalLedgerTime ex_start = Inr s \<and> parseCanonicalLedgerTime s = Inr ex_start"
proof -
  have r: "in_format_range ex_start" by code_simp
  have "canonicalLedgerTime ex_start = Inr (format_rfc3339nano ex_start)"
    by (simp add: canonicalLedgerTime_def ex_start_def IsZero_def)
  with ledger_time_roundtrip [OF this r] show ?thesis by blast
qed

end
