(* ===== verification/Go_Sha256.thy ===== *)
theory Go_Sha256
  imports Go_Text
begin

text \<open>
  \<^verbatim>\<open>crypto/sha256\<close>: the hash function of FIPS 180-4 on bytes, and its
  hexadecimal form as the components print it.
\<close>

unbundle bit_operations_syntax

definition rotr :: "nat \<Rightarrow> 32 word \<Rightarrow> 32 word" where
  "rotr n x = drop_bit n x OR push_bit (32 - n) x"

text \<open>
  The constants are the first 32 bits of the fractional parts of the cube roots of the first 64
  primes and of the square roots of the first eight. \<open>iroot k n b 0\<close> is the integer \<open>k\<close>-th root
  of \<open>n\<close>, found bit by bit from \<open>2 ^ (b - 1)\<close> down; the conversion to 32 bits drops the integer part.
\<close>

fun iroot :: "nat \<Rightarrow> nat \<Rightarrow> nat \<Rightarrow> nat \<Rightarrow> nat" where
  "iroot k n 0 r = r"
| "iroot k n (Suc b) r = iroot k n b (if (r + 2 ^ b) ^ k \<le> n then r + 2 ^ b else r)"

definition root_bits :: "nat \<Rightarrow> nat \<Rightarrow> 32 word" where
  "root_bits k p = of_nat (iroot k (p * 2 ^ (32 * k)) 36 0)"

definition sha_primes :: "nat list" where
  "sha_primes =
     [2, 3, 5, 7, 11, 13, 17, 19, 23, 29, 31, 37, 41, 43, 47, 53,
      59, 61, 67, 71, 73, 79, 83, 89, 97, 101, 103, 107, 109, 113, 127, 131,
      137, 139, 149, 151, 157, 163, 167, 173, 179, 181, 191, 193, 197, 199, 211, 223,
      227, 229, 233, 239, 241, 251, 257, 263, 269, 271, 277, 281, 283, 293, 307, 311]"

definition sha_k :: "32 word list" where
  "sha_k = map (root_bits 3) sha_primes"

datatype sha_state = Sha "32 word" "32 word" "32 word" "32 word" "32 word" "32 word" "32 word" "32 word"

definition sha_init :: sha_state where
  "sha_init = Sha (root_bits 2 2) (root_bits 2 3) (root_bits 2 5) (root_bits 2 7)
     (root_bits 2 11) (root_bits 2 13) (root_bits 2 17) (root_bits 2 19)"

text \<open>The message schedule, most recent word first.\<close>

fun extend_schedule :: "nat \<Rightarrow> 32 word list \<Rightarrow> 32 word list" where
  "extend_schedule 0 ws = ws"
| "extend_schedule (Suc n) ws =
     (let w2 = ws ! 1; w7 = ws ! 6; w15 = ws ! 14; w16 = ws ! 15;
          s1 = rotr 17 w2 XOR rotr 19 w2 XOR drop_bit 10 w2;
          s0 = rotr 7 w15 XOR rotr 18 w15 XOR drop_bit 3 w15
      in extend_schedule n ((s1 + w7 + s0 + w16) # ws))"

fun sha_round :: "sha_state \<Rightarrow> 32 word \<times> 32 word \<Rightarrow> sha_state" where
  "sha_round (Sha a b c d e f g h) (k, w) =
     (let t1 = h + (rotr 6 e XOR rotr 11 e XOR rotr 25 e) + ((e AND f) XOR (NOT e AND g)) + k + w;
          t2 = (rotr 2 a XOR rotr 13 a XOR rotr 22 a) + ((a AND b) XOR (a AND c) XOR (b AND c))
      in Sha (t1 + t2) a b c (d + t1) e f g)"

fun sha_add :: "sha_state \<Rightarrow> sha_state \<Rightarrow> sha_state" where
  "sha_add (Sha a b c d e f g h) (Sha a' b' c' d' e' f' g' h') =
     Sha (a + a') (b + b') (c + c') (d + d') (e + e') (f + f') (g + g') (h + h')"

definition word_be :: "8 word list \<Rightarrow> 32 word" where
  "word_be bs = foldl (\<lambda>w b. push_bit 8 w OR ucast b) 0 bs"

definition bytes_be :: "32 word \<Rightarrow> 8 word list" where
  "bytes_be w = map (\<lambda>n. ucast (drop_bit n w)) [24, 16, 8, 0]"

function words_of :: "8 word list \<Rightarrow> 32 word list" where
  "words_of bs = (if bs = [] then [] else word_be (take 4 bs) # words_of (drop 4 bs))"
  by pat_completeness auto
termination by (relation "measure length") auto

declare words_of.simps [simp del]

definition sha_block :: "sha_state \<Rightarrow> 8 word list \<Rightarrow> sha_state" where
  "sha_block s bs = sha_add s (foldl sha_round s (zip sha_k (rev (extend_schedule 48 (rev (words_of bs))))))"

text \<open>The padding: a one bit, zeros, and the length in bits as 64 bits, to a multiple of 64 bytes.\<close>

definition sha_pad :: "8 word list \<Rightarrow> 8 word list" where
  "sha_pad bs =
     (let n = length bs; zeros = (119 - n mod 64) mod 64
      in bs @ [0x80] @ replicate zeros 0 @ map (\<lambda>i. of_nat (8 * n div 256 ^ (7 - i))) [0..<8])"

function sha_blocks :: "sha_state \<Rightarrow> 8 word list \<Rightarrow> sha_state" where
  "sha_blocks s bs = (if length bs < 64 then s else sha_blocks (sha_block s (take 64 bs)) (drop 64 bs))"
  by pat_completeness auto
termination by (relation "measure (\<lambda>(s, bs). length bs)") auto

declare sha_blocks.simps [simp del]

fun sha_bytes :: "sha_state \<Rightarrow> 8 word list" where
  "sha_bytes (Sha a b c d e f g h) = concat (map bytes_be [a, b, c, d, e, f, g, h])"

definition Sum256 :: "8 word list \<Rightarrow> 8 word list" where
  "Sum256 bs = sha_bytes (sha_blocks sha_init (sha_pad bs))"

definition bytes_of :: "string \<Rightarrow> 8 word list" where
  "bytes_of s = map (\<lambda>c. of_nat (byte_of c)) s"

definition sha256_hex :: "string \<Rightarrow> string" where
  "sha256_hex s = hex_encode (Sum256 (bytes_of s))"

section \<open>Lemmas\<close>

lemma length_bytes_be [simp]: "length (bytes_be w) = 4"
  by (simp add: bytes_be_def)

lemma length_Sum256 [simp]: "length (Sum256 bs) = 32"
  by (cases "sha_blocks sha_init (sha_pad bs)") (simp add: Sum256_def)

lemma length_sha_pad: "length (sha_pad bs) mod 64 = 0"
proof -
  let ?m = "length bs mod 64"
  have "(?m + ((119 - ?m) mod 64 + 9)) mod 64 = 0"
  proof (cases "?m \<le> 55")
    case True
    then have "119 - ?m = (55 - ?m) + 64" by simp
    then have "(119 - ?m) mod 64 = 55 - ?m" by (simp only: mod_add_self2) simp
    with True show ?thesis by simp
  next
    case False
    moreover have "?m < 64" by simp
    ultimately have "(119 - ?m) mod 64 = 119 - ?m" by simp
    with False \<open>?m < 64\<close> show ?thesis by simp
  qed
  then have "(length bs + ((119 - ?m) mod 64 + 9)) mod 64 = 0"
    by (metis mod_add_left_eq)
  then show ?thesis by (simp add: sha_pad_def Let_def ac_simps)
qed

lemma length_hex_encode [simp]: "length (hex_encode bs) = 2 * length bs"
  by (induction bs) (simp_all add: hex_encode_def)

lemma hex_digit_lower: "n < 16 \<Longrightarrow> is_lower_hex (hex_digit n)"
  by (auto simp: hex_digit_def is_lower_hex_def is_digit_def)

lemma hex_encode_lower: "list_all is_lower_hex (hex_encode bs)"
proof (induction bs)
  case (Cons b bs)
  have "unat b < 256" using unsigned_less [of b, where ?'a = nat] by simp
  then have "unat b div 16 < 16" by (simp add: div_less_iff_less_mult)
  with Cons show ?case by (simp add: hex_encode_def hex_digit_lower)
qed (simp add: hex_encode_def)

lemma length_sha256_hex [simp]: "length (sha256_hex s) = 64"
  by (simp add: sha256_hex_def)

lemma sha256_hex_lower: "list_all is_lower_hex (sha256_hex s)"
  by (simp add: sha256_hex_def hex_encode_lower)

end
