(* ===== verification/Admin_Policy.thy ===== *)
theory Admin_Policy
  imports Ledger_Store Go_Sha256
begin

text \<open>
  The administrator policy of \<^verbatim>\<open>internal/topologyrollout/policy.go\<close>: its data, its
  validation with the defaults it fills in, and the decisions taken from it (admission budgets,
  risk-group membership, transfer rates, workload drain limits, disruption protection).
  Validation returns the configuration as the code leaves it. A nil policy is no value of the
  model. The traversal of a Go map is in ascending order of its keys, and error texts are
  reduced to their constant part.
\<close>

subsection \<open>Data\<close>

record admin_protection =
  d_Name :: string
  d_Reason :: string
  d_Selector :: label_selector

record admin_risk_group =
  g_Name :: string
  g_Selector :: label_selector
  g_MaxConcurrentTransfers :: int
  g_MaxUnavailable :: int
  g_MaxAggregateTransferBytesPerSecond :: int

record admin_drain =
  dr_Enabled :: bool
  dr_AllowedNamespaces :: "string list"
  dr_MaxTimeoutSeconds :: int
  dr_MaxPods :: int
  dr_MaxTerminationGraceSeconds :: int

text \<open>A nil slice of projected keys is \<open>None\<close>: it is printed differently from an empty one.\<close>

record admin_config =
  c_AppHostingServiceAccountName :: string
  c_NetworkManagementServiceAccountName :: string
  c_ConfigLeaseNamespace :: string
  c_Version :: string
  c_FleetSelector :: label_selector
  c_RequiredTopologyKeys :: "string list"
  c_ProjectedTopologyKeys :: "string list option"
  c_GlobalMaxConcurrentTransfers :: int
  c_GlobalMaxUnavailable :: int
  c_DomainMaxConcurrentTransfers :: "int gomap"
  c_DomainMaxUnavailable :: "int gomap"
  c_HealthFreshnessSeconds :: int
  c_MaxCampaignTargets :: int
  c_MaxActiveReservations :: int
  c_MaxLedgerBytes :: int
  c_WorkloadDrain :: "admin_drain option"
  c_DisruptionProtections :: "admin_protection list"
  c_RiskGroups :: "admin_risk_group list"
  c_LedgerName :: string

record parsed_policy =
  pp_Config :: admin_config
  pp_Selector :: "string gomap \<Rightarrow> bool"
  pp_Namespace :: string
  pp_Name :: string
  pp_LedgerUID :: string
  pp_PolicyUID :: string
  pp_ResourceVersion :: string
  pp_HealthFreshness :: duration
  pp_AdmissionPrefix :: string

text \<open>The drain request of a campaign, \<^verbatim>\<open>IOSXESoftwareRolloutWorkloadSpec\<close>.\<close>

record drain_spec =
  ds_Namespaces :: "string list"
  ds_TimeoutSeconds :: int
  ds_MaxPods :: int
  ds_MaxTerminationGraceSeconds :: int

record workload_spec =
  w_Policy :: string
  w_Drain :: "drain_spec option"

abbreviation DefaultMaxCampaignTargets :: int where "DefaultMaxCampaignTargets \<equiv> 100"
abbreviation MaxProjectedTopologyKeys :: int where "MaxProjectedTopologyKeys \<equiv> 16"
abbreviation drainCompletionBuffer :: int where "drainCompletionBuffer \<equiv> 120"

abbreviation projected_keys :: "admin_config \<Rightarrow> string list" where
  "projected_keys cfg \<equiv> (case c_ProjectedTopologyKeys cfg of None \<Rightarrow> [] | Some ks \<Rightarrow> ks)"

definition outside :: "int \<Rightarrow> int \<Rightarrow> int \<Rightarrow> bool" where
  "outside lo hi x \<longleftrightarrow> x < lo \<or> x > hi"

subsection \<open>Validation\<close>

text \<open>
  The loop that validates a list of named items: the item's own check of its name, a repeated
  name, then the other checks of the item.
\<close>

fun named_items_err ::
  "('a \<Rightarrow> string) \<Rightarrow> ('a \<Rightarrow> 'e option) \<Rightarrow> 'e \<Rightarrow> ('a \<Rightarrow> 'e option) \<Rightarrow> string list \<Rightarrow> 'a list \<Rightarrow> 'e option" where
  "named_items_err name pre dup post seen [] = None"
| "named_items_err name pre dup post seen (x # xs) =
     or_err (pre x) (or_err (err_if (name x \<in> set seen) dup)
       (or_err (post x) (named_items_err name pre dup post (name x # seen) xs)))"

definition selector_err :: "ext \<Rightarrow> string list \<Rightarrow> label_selector \<Rightarrow> rollout_err option" where
  "selector_err E required sel =
     or_err (err_if (gm_len (MatchLabels sel) = 0 \<and> MatchExpressions sel = []) (Plain ''selector must be non-empty''))
    (or_err (err_if (gm_len (MatchLabels sel) > 32 \<or> length (MatchExpressions sel) > 32)
               (Plain ''selector supports at most 32 matchLabels and 32 matchExpressions''))
    (or_err (first_err (\<lambda>(key, value).
               or_err (err_if (key \<notin> set required) (Plain ''selector key must be present in requiredTopologyKeys''))
                 (err_if (length key > 96 \<or> length value > 63)
                    (Plain ''selector keys and values must be at most 96 and 63 characters'')))
               (gm_entries (MatchLabels sel)))
    (or_err (first_err (\<lambda>requirement.
               or_err (err_if (req_Key requirement \<notin> set required)
                         (Plain ''selector key must be present in requiredTopologyKeys''))
              (or_err (err_if (length (req_Key requirement) > 96 \<or> length (req_Values requirement) > 32)
                         (Plain ''expressions support 96-character keys and at most 32 values''))
                 (first_err (\<lambda>value. err_if (length value > 63)
                    (Plain ''expression values must be at most 63 characters'')) (req_Values requirement))))
               (MatchExpressions sel))
            (err_if (LabelSelectorAsSelector E sel = None) (Plain ''selector is invalid'')))))"

definition protection_err :: "ext \<Rightarrow> string list \<Rightarrow> admin_protection \<Rightarrow> rollout_err option" where
  "protection_err E required rule =
     or_err (err_if (d_Reason rule \<noteq> ''CriticalService'' \<and> d_Reason rule \<noteq> ''SingletonPath'')
               (Plain ''reason must be CriticalService or SingletonPath''))
            (selector_err E required (d_Selector rule))"

definition validateDisruptionProtections :: "ext \<Rightarrow> admin_config \<Rightarrow> rollout_err option" where
  "validateDisruptionProtections E cfg =
     or_err (err_if (length (c_DisruptionProtections cfg) > 16) (Plain ''disruptionProtections may contain at most 16 rules''))
       (named_items_err d_Name
          (\<lambda>rule. err_if (\<not> IsDNS1123Label E (d_Name rule)) (Plain ''disruptionProtections name is invalid''))
          (Plain ''disruptionProtections contains duplicate name'')
          (protection_err E (c_RequiredTopologyKeys cfg)) [] (c_DisruptionProtections cfg))"

definition group_err :: "ext \<Rightarrow> string list \<Rightarrow> admin_risk_group \<Rightarrow> rollout_err option" where
  "group_err E required grp =
     or_err (err_if (outside 1 DefaultMaxCampaignTargets (g_MaxConcurrentTransfers grp))
               (Plain ''maxConcurrentTransfers must be between 1 and 100''))
    (or_err (err_if (outside 1 DefaultMaxCampaignTargets (g_MaxUnavailable grp))
               (Plain ''maxUnavailable must be between 1 and 100''))
    (or_err (err_if (outside 0 (2 ^ 40) (g_MaxAggregateTransferBytesPerSecond grp))
               (Plain ''maxAggregateTransferBytesPerSecond is out of range''))
    (or_err (err_if (g_MaxAggregateTransferBytesPerSecond grp > 0 \<and>
                     g_MaxAggregateTransferBytesPerSecond grp < g_MaxConcurrentTransfers grp)
               (Plain ''maxAggregateTransferBytesPerSecond must provide at least one byte per second for every transfer slot''))
            (selector_err E required (g_Selector grp)))))"

definition validateRiskGroups :: "ext \<Rightarrow> admin_config \<Rightarrow> rollout_err option" where
  "validateRiskGroups E cfg =
     or_err (err_if (length (c_RiskGroups cfg) > 16) (Plain ''riskGroups may contain at most 16 groups''))
       (named_items_err g_Name
          (\<lambda>grp. err_if (\<not> IsDNS1123Label E (g_Name grp)) (Plain ''riskGroups name is invalid''))
          (Plain ''riskGroups contains duplicate name'')
          (group_err E (c_RequiredTopologyKeys cfg)) [] (c_RiskGroups cfg))"

abbreviation topology_prefix :: string where "topology_prefix \<equiv> ''topology.cisco.vk/''"
abbreviation operations_prefix :: string where "operations_prefix \<equiv> ''operations.cisco.vk/''"
abbreviation distribution_prefix :: string where "distribution_prefix \<equiv> ''distribution.cisco.vk/''"

definition topology_key_err :: "ext \<Rightarrow> string \<Rightarrow> rollout_err option" where
  "topology_key_err E key =
     or_err (err_if (key \<noteq> ''topology.kubernetes.io/region'' \<and> key \<noteq> ''topology.kubernetes.io/zone'' \<and>
                     \<not> HasPrefix key topology_prefix \<and> \<not> HasPrefix key operations_prefix \<and>
                     \<not> HasPrefix key distribution_prefix) (Plain ''unsupported key''))
            (err_if (\<not> IsQualifiedName E key) (Plain ''invalid key''))"

definition validateTopologyKeys :: "ext \<Rightarrow> string list \<Rightarrow> rollout_err option" where
  "validateTopologyKeys E keys =
     named_items_err (\<lambda>key. key) (\<lambda>key. err_if (length key > 96) (Plain ''key longer than 96 characters''))
       (Plain ''duplicate'') (topology_key_err E) [] keys"

definition accounts_err :: "ext \<Rightarrow> admin_config \<Rightarrow> rollout_err option" where
  "accounts_err E cfg =
     or_err (err_if (c_Version cfg \<noteq> ''v1'') (Plain ''unsupported administrator topology policy version''))
    (or_err (err_if (\<not> IsDNS1123Label E (c_AppHostingServiceAccountName cfg))
               (Plain ''appHostingServiceAccountName is invalid''))
    (or_err (err_if (\<not> IsDNS1123Label E (c_NetworkManagementServiceAccountName cfg))
               (Plain ''networkManagementServiceAccountName is invalid''))
    (or_err (err_if (c_AppHostingServiceAccountName cfg = c_NetworkManagementServiceAccountName cfg)
               (Plain ''appHostingServiceAccountName and networkManagementServiceAccountName must be different''))
            (err_if (c_ConfigLeaseNamespace cfg \<noteq> [] \<and> \<not> IsDNS1123Label E (c_ConfigLeaseNamespace cfg))
               (Plain ''configLeaseNamespace is invalid'')))))"

definition fleet_selector_err :: "ext \<Rightarrow> label_selector \<Rightarrow> rollout_err option" where
  "fleet_selector_err E sel =
     or_err (err_if (gm_len (MatchLabels sel) = 0 \<and> MatchExpressions sel = []) (Plain ''fleetSelector must be non-empty''))
    (or_err (err_if (gm_len (MatchLabels sel) > 32 \<or> length (MatchExpressions sel) > 32)
               (Plain ''fleetSelector supports at most 32 matchLabels and 32 matchExpressions''))
    (or_err (first_err (\<lambda>(key, value).
               or_err (err_if (length key > 96 \<or> length value > 63)
                         (Plain ''fleetSelector matchLabels keys and values must be at most 96 and 63 characters''))
                 (err_if (\<not> HasPrefix key topology_prefix) (Plain ''fleetSelector key must use the protected prefix'')))
               (gm_entries (MatchLabels sel)))
    (or_err (first_err (\<lambda>requirement.
               or_err (err_if (length (req_Key requirement) > 96 \<or> length (req_Values requirement) > 32)
                         (Plain ''fleetSelector expressions support 96-character keys and at most 32 values''))
              (or_err (err_if (\<not> HasPrefix (req_Key requirement) topology_prefix)
                         (Plain ''fleetSelector key must use the protected prefix''))
                 (first_err (\<lambda>value. err_if (length value > 63)
                    (Plain ''fleetSelector expression values must be at most 63 characters'')) (req_Values requirement))))
               (MatchExpressions sel))
            (err_if (LabelSelectorAsSelector E sel = None) (Plain ''fleetSelector is invalid'')))))"

text \<open>The defaults: zero limits, and a disabled drain policy that counts as none.\<close>

definition with_defaults :: "admin_config \<Rightarrow> admin_config" where
  "with_defaults cfg = cfg
     \<lparr> c_MaxCampaignTargets := (if c_MaxCampaignTargets cfg = 0 then DefaultMaxCampaignTargets
                                else c_MaxCampaignTargets cfg),
       c_MaxActiveReservations := (if c_MaxActiveReservations cfg = 0 then DefaultMaxActiveRecords
                                   else c_MaxActiveReservations cfg),
       c_MaxLedgerBytes := (if c_MaxLedgerBytes cfg = 0 then DefaultMaxSerializedBytes else c_MaxLedgerBytes cfg),
       c_WorkloadDrain := (case c_WorkloadDrain cfg of
                             None \<Rightarrow> None
                           | Some drain \<Rightarrow> if dr_Enabled drain then Some drain else None) \<rparr>"

definition limits_err :: "admin_config \<Rightarrow> rollout_err option" where
  "limits_err cfg =
     or_err (err_if (outside 1 DefaultMaxCampaignTargets (c_GlobalMaxUnavailable cfg))
               (Plain ''globalMaxUnavailable must be between 1 and 100''))
    (or_err (err_if (outside 1 DefaultMaxCampaignTargets (c_GlobalMaxConcurrentTransfers cfg))
               (Plain ''globalMaxConcurrentTransfers must be between 1 and 100''))
    (or_err (err_if (outside 1 DefaultMaxCampaignTargets (c_MaxCampaignTargets cfg))
               (Plain ''maxCampaignTargets must be between 1 and 100''))
    (or_err (err_if (outside 1 DefaultMaxActiveRecords (c_MaxActiveReservations cfg))
               (Plain ''maxActiveReservations must be between 1 and 256''))
    (or_err (err_if (outside 4096 DefaultMaxSerializedBytes (c_MaxLedgerBytes cfg))
               (Plain ''maxLedgerBytes must be between 4096 and 262144''))
            (err_if (outside 30 3600 (c_HealthFreshnessSeconds cfg))
               (Plain ''healthFreshnessSeconds must be between 30 and 3600''))))))"

definition drain_policy_err :: "ext \<Rightarrow> admin_drain \<Rightarrow> rollout_err option" where
  "drain_policy_err E drain =
     or_err (err_if (outside 1 16 (int (length (dr_AllowedNamespaces drain))))
               (Plain ''workloadDrain.allowedNamespaces must contain between 1 and 16 entries''))
    (or_err (named_items_err (\<lambda>ns. ns)
               (\<lambda>ns. err_if (\<not> IsDNS1123Label E ns) (Plain ''workloadDrain.allowedNamespaces contains invalid namespace''))
               (Plain ''workloadDrain.allowedNamespaces contains duplicate'') (\<lambda>ns. None) [] (dr_AllowedNamespaces drain))
    (or_err (err_if (outside 300 7200 (dr_MaxTimeoutSeconds drain))
               (Plain ''workloadDrain.maxTimeoutSeconds must be between 300 and 7200''))
    (or_err (err_if (outside 1 32 (dr_MaxPods drain)) (Plain ''workloadDrain.maxPods must be between 1 and 32''))
    (or_err (err_if (outside 30 600 (dr_MaxTerminationGraceSeconds drain))
               (Plain ''workloadDrain.maxTerminationGraceSeconds must be between 30 and 600''))
            (err_if (dr_MaxTimeoutSeconds drain < dr_MaxTerminationGraceSeconds drain + drainCompletionBuffer)
               (Plain ''workloadDrain.maxTimeoutSeconds must be at least maxTerminationGraceSeconds plus 120 seconds''))))))"

definition projected_key_err :: "string list \<Rightarrow> string \<Rightarrow> rollout_err option" where
  "projected_key_err required key =
     or_err (err_if (HasPrefix key operations_prefix \<or> HasPrefix key distribution_prefix)
               (Plain ''non-scheduling key cannot be projected to scheduler-visible Node labels''))
            (err_if (key \<notin> set required) (Plain ''projected topology key must also be required''))"

definition domain_limits_err :: "string list \<Rightarrow> int gomap \<Rightarrow> rollout_err option" where
  "domain_limits_err required limits =
     first_err (\<lambda>(key, value).
       or_err (err_if (key \<notin> set required) (Plain ''budget key must be present in requiredTopologyKeys''))
              (err_if (outside 1 DefaultMaxCampaignTargets value) (Plain ''budget must be between 1 and 100'')))
       (gm_entries limits)"

definition topology_err :: "ext \<Rightarrow> admin_config \<Rightarrow> rollout_err option" where
  "topology_err E cfg =
     or_err (err_if (c_RequiredTopologyKeys cfg = [] \<or> int (length (c_RequiredTopologyKeys cfg)) > MaxProjectedTopologyKeys)
               (Plain ''requiredTopologyKeys must contain between 1 and 16 entries''))
    (or_err (err_if (int (length (projected_keys cfg)) > MaxProjectedTopologyKeys)
               (Plain ''projectedTopologyKeys exceeds 16 entries''))
    (or_err (validateTopologyKeys E (c_RequiredTopologyKeys cfg))
    (or_err (validateTopologyKeys E (projected_keys cfg))
            (first_err (projected_key_err (c_RequiredTopologyKeys cfg)) (sort (projected_keys cfg))))))"

definition domain_budgets_err :: "admin_config \<Rightarrow> rollout_err option" where
  "domain_budgets_err cfg =
     or_err (err_if (gm_len (c_DomainMaxUnavailable cfg) = 0 \<or> gm_len (c_DomainMaxConcurrentTransfers cfg) = 0)
               (Plain ''domainMaxUnavailable and domainMaxConcurrentTransfers must be non-empty''))
    (or_err (err_if (gm_len (c_DomainMaxUnavailable cfg) > MaxProjectedTopologyKeys \<or>
                     gm_len (c_DomainMaxConcurrentTransfers cfg) > MaxProjectedTopologyKeys)
               (Plain ''domain budget maps may each contain at most 16 entries''))
    (or_err (domain_limits_err (c_RequiredTopologyKeys cfg) (c_DomainMaxUnavailable cfg))
    (or_err (domain_limits_err (c_RequiredTopologyKeys cfg) (c_DomainMaxConcurrentTransfers cfg))
            (err_if (int (length (remdups (gm_keys (c_DomainMaxUnavailable cfg) @ gm_keys (c_DomainMaxConcurrentTransfers cfg))))
                       > MaxProjectedTopologyKeys)
               (Plain ''combined domain budgets may contain at most 16 topology keys'')))))"

definition config_err :: "ext \<Rightarrow> admin_config \<Rightarrow> rollout_err option" where
  "config_err E cfg =
     or_err (accounts_err E cfg)
    (or_err (fleet_selector_err E (c_FleetSelector cfg))
    (or_err (limits_err cfg)
    (or_err (case c_WorkloadDrain cfg of None \<Rightarrow> None | Some drain \<Rightarrow> drain_policy_err E drain)
    (or_err (validateDisruptionProtections E cfg)
    (or_err (validateRiskGroups E cfg)
    (or_err (err_if (\<not> IsDNS1123Subdomain E (c_LedgerName cfg)) (Plain ''ledgerName is invalid''))
    (or_err (topology_err E cfg)
            (domain_budgets_err cfg))))))))"

definition validateAdminPolicyConfig :: "ext \<Rightarrow> admin_config \<Rightarrow> rollout_err + admin_config" where
  "validateAdminPolicyConfig E cfg =
     (case config_err E (with_defaults cfg) of
        Some e \<Rightarrow> Inl e
      | None \<Rightarrow> Inr (with_defaults cfg))"

subsection \<open>Decisions\<close>

definition cloneIntMap :: "int gomap \<Rightarrow> int gomap" where
  "cloneIntMap m = foldl (\<lambda>out (key, value). fmupd key value out) fmempty (gm_entries m)"

definition AdmissionPolicy :: "parsed_policy \<Rightarrow> time \<Rightarrow> policy" where
  "AdmissionPolicy p now =
     (let cfg = pp_Config p;
          riskGroups = foldl (\<lambda>m grp. fmupd (g_Name grp)
             \<lparr> b_MaxConcurrentTransfers = g_MaxConcurrentTransfers grp, b_MaxUnavailable = g_MaxUnavailable grp \<rparr> m)
             fmempty (c_RiskGroups cfg)
      in \<lparr> p_UID = pp_PolicyUID p, p_Version = pp_ResourceVersion p, p_Epoch = 1,
           p_GlobalMaxConcurrentTransfers = c_GlobalMaxConcurrentTransfers cfg,
           p_GlobalMaxUnavailable = c_GlobalMaxUnavailable cfg,
           p_DomainTransferBudgets = cloneIntMap (c_DomainMaxConcurrentTransfers cfg),
           p_DomainBudgets = cloneIntMap (c_DomainMaxUnavailable cfg),
           p_RiskGroupBudgets = riskGroups,
           p_MaxActiveRecords = c_MaxActiveReservations cfg,
           p_MaxSerializedBytes = c_MaxLedgerBytes cfg,
           p_RequiredHealthFreshBy = now - pp_HealthFreshness p \<rparr>)"

fun matching_groups :: "ext \<Rightarrow> string gomap \<Rightarrow> admin_risk_group list \<Rightarrow> rollout_err + string list" where
  "matching_groups E deviceLabels [] = Inr []"
| "matching_groups E deviceLabels (grp # grps) =
     (case LabelSelectorAsSelector E (g_Selector grp) of
        None \<Rightarrow> Inl (Plain ''risk group selector is invalid'')
      | Some matches \<Rightarrow>
          (case matching_groups E deviceLabels grps of
             Inl e \<Rightarrow> Inl e
           | Inr names \<Rightarrow> Inr (if matches deviceLabels then g_Name grp # names else names)))"

definition RiskGroups :: "ext \<Rightarrow> parsed_policy \<Rightarrow> string gomap \<Rightarrow> rollout_err + string list" where
  "RiskGroups E p deviceLabels =
     (case validateRiskGroups E (pp_Config p) of
        Some e \<Rightarrow> Inl e
      | None \<Rightarrow>
          (case matching_groups E deviceLabels (c_RiskGroups (pp_Config p)) of
             Inl e \<Rightarrow> Inl e
           | Inr names \<Rightarrow> Inr (sort names)))"

fun transfer_share :: "ext \<Rightarrow> string gomap \<Rightarrow> int \<Rightarrow> admin_risk_group list \<Rightarrow> rollout_err + int" where
  "transfer_share E deviceLabels effective [] = Inr effective"
| "transfer_share E deviceLabels effective (grp # grps) =
     (if g_MaxAggregateTransferBytesPerSecond grp = 0 then transfer_share E deviceLabels effective grps
      else case LabelSelectorAsSelector E (g_Selector grp) of
        None \<Rightarrow> Inl (Plain ''risk group selector is invalid'')
      | Some matches \<Rightarrow>
          if \<not> matches deviceLabels then transfer_share E deviceLabels effective grps
          else let share = go_div (g_MaxAggregateTransferBytesPerSecond grp) (g_MaxConcurrentTransfers grp)
               in transfer_share E deviceLabels
                    (if effective = 0 \<or> share < effective then share else effective) grps)"

definition MaxTransferBytesPerSecond :: "ext \<Rightarrow> parsed_policy \<Rightarrow> string gomap \<Rightarrow> rollout_err + int" where
  "MaxTransferBytesPerSecond E p deviceLabels =
     (case validateRiskGroups E (pp_Config p) of
        Some e \<Rightarrow> Inl e
      | None \<Rightarrow> transfer_share E deviceLabels 0 (c_RiskGroups (pp_Config p)))"

definition drain_request_err :: "ext \<Rightarrow> admin_drain \<Rightarrow> drain_spec \<Rightarrow> rollout_err option" where
  "drain_request_err E cap drain =
     or_err (err_if (outside 1 16 (int (length (ds_Namespaces drain))))
               (Plain ''drain namespaces must contain between 1 and 16 entries''))
    (or_err (named_items_err (\<lambda>ns. ns) (\<lambda>ns. err_if (\<not> IsDNS1123Label E ns) (Plain ''drain namespace is invalid''))
               (Plain ''drain namespaces contains duplicate'')
               (\<lambda>ns. err_if (ns \<notin> set (dr_AllowedNamespaces cap))
                       (Plain ''drain namespace is not allowed by administrator policy'')) [] (ds_Namespaces drain))
    (or_err (err_if (outside 300 7200 (ds_TimeoutSeconds drain))
               (Plain ''drain timeoutSeconds must be between 300 and 7200''))
    (or_err (err_if (ds_TimeoutSeconds drain > dr_MaxTimeoutSeconds cap)
               (Plain ''drain timeoutSeconds exceeds administrator cap''))
    (or_err (err_if (outside 1 32 (ds_MaxPods drain)) (Plain ''drain maxPods must be between 1 and 32''))
    (or_err (err_if (ds_MaxPods drain > dr_MaxPods cap) (Plain ''drain maxPods exceeds administrator cap''))
    (or_err (err_if (outside 30 600 (ds_MaxTerminationGraceSeconds drain))
               (Plain ''drain maxTerminationGraceSeconds must be between 30 and 600''))
    (or_err (err_if (ds_MaxTerminationGraceSeconds drain > dr_MaxTerminationGraceSeconds cap)
               (Plain ''drain maxTerminationGraceSeconds exceeds administrator cap''))
            (err_if (ds_TimeoutSeconds drain < ds_MaxTerminationGraceSeconds drain + drainCompletionBuffer)
               (Plain ''drain timeoutSeconds must be at least maxTerminationGraceSeconds plus 120 seconds'')))))))))"

definition ValidateWorkloadPolicy :: "ext \<Rightarrow> parsed_policy \<Rightarrow> workload_spec \<Rightarrow> rollout_err option" where
  "ValidateWorkloadPolicy E p workloads =
     (case validateAdminPolicyConfig E (pp_Config p) of
        Inl e \<Rightarrow> Some e
      | Inr cfg \<Rightarrow>
          let pol = (if w_Policy workloads = [] then ''BlockIfRunning'' else w_Policy workloads)
          in if pol = ''BlockIfRunning'' then
               err_if (w_Drain workloads \<noteq> None)
                 (Plain ''drain configuration is forbidden when workload policy is BlockIfRunning'')
             else if pol = ''Drain'' then
               (case w_Drain workloads of
                  None \<Rightarrow> Some (Plain ''drain configuration is required when workload policy is Drain'')
                | Some drain \<Rightarrow>
                    (case c_WorkloadDrain cfg of
                       None \<Rightarrow> Some (Plain ''administrator topology policy does not enable workload drain'')
                     | Some cap \<Rightarrow> drain_request_err E cap drain))
             else Some (Plain ''unsupported workload policy''))"

fun matching_protection ::
  "ext \<Rightarrow> string gomap \<Rightarrow> admin_protection option \<Rightarrow> admin_protection list \<Rightarrow> rollout_err + admin_protection option" where
  "matching_protection E deviceLabels matched [] = Inr matched"
| "matching_protection E deviceLabels matched (rule # rules) =
     (case LabelSelectorAsSelector E (d_Selector rule) of
        None \<Rightarrow> Inl (Plain ''disruption protection selector is invalid'')
      | Some matches \<Rightarrow>
          matching_protection E deviceLabels
            (if matches deviceLabels \<and> (case matched of None \<Rightarrow> True | Some m \<Rightarrow> d_Name rule < d_Name m)
             then Some rule else matched) rules)"

definition DisruptionProtection ::
  "ext \<Rightarrow> parsed_policy \<Rightarrow> string gomap \<Rightarrow> rollout_err + admin_protection option" where
  "DisruptionProtection E p deviceLabels =
     (if c_DisruptionProtections (pp_Config p) = [] then Inr None
      else case validateDisruptionProtections E (pp_Config p) of
        Some e \<Rightarrow> Inl e
      | None \<Rightarrow> matching_protection E deviceLabels None (c_DisruptionProtections (pp_Config p)))"

section \<open>What validation guarantees\<close>

named_theorems policy_iff "when a check of the administrator policy passes"

lemma named_items_err_None [policy_iff]:
  "named_items_err name pre dup post seen xs = None \<longleftrightarrow>
     (\<forall>x \<in> set xs. pre x = None \<and> post x = None) \<and> distinct (map name xs) \<and> set (map name xs) \<inter> set seen = {}"
  by (induction xs arbitrary: seen) auto

lemma outside_iff [simp]: "\<not> outside lo hi x \<longleftrightarrow> lo \<le> x \<and> x \<le> hi"
  by (auto simp: outside_def)

lemma selector_err_None [policy_iff]:
  "selector_err E required sel = None \<longleftrightarrow>
     \<not> (gm_len (MatchLabels sel) = 0 \<and> MatchExpressions sel = []) \<and>
     gm_len (MatchLabels sel) \<le> 32 \<and> length (MatchExpressions sel) \<le> 32 \<and>
     (\<forall>k v. fmlookup (MatchLabels sel) k = Some v \<longrightarrow> k \<in> set required \<and> length k \<le> 96 \<and> length v \<le> 63) \<and>
     (\<forall>q \<in> set (MatchExpressions sel). req_Key q \<in> set required \<and> length (req_Key q) \<le> 96 \<and>
        length (req_Values q) \<le> 32 \<and> (\<forall>v \<in> set (req_Values q). length v \<le> 63)) \<and>
     LabelSelectorAsSelector E sel \<noteq> None"
  unfolding selector_err_def or_err_None err_if_None first_err_None
  by (auto simp: set_gm_entries not_less)

lemma validateDisruptionProtections_None [policy_iff]:
  "validateDisruptionProtections E cfg = None \<longleftrightarrow>
     length (c_DisruptionProtections cfg) \<le> 16 \<and> distinct (map d_Name (c_DisruptionProtections cfg)) \<and>
     (\<forall>rule \<in> set (c_DisruptionProtections cfg). IsDNS1123Label E (d_Name rule) \<and>
        (d_Reason rule = ''CriticalService'' \<or> d_Reason rule = ''SingletonPath'') \<and>
        selector_err E (c_RequiredTopologyKeys cfg) (d_Selector rule) = None)"
  by (auto simp: validateDisruptionProtections_def protection_err_def named_items_err_None)

definition group_ok :: "ext \<Rightarrow> string list \<Rightarrow> admin_risk_group \<Rightarrow> bool" where
  "group_ok E required grp \<longleftrightarrow>
     IsDNS1123Label E (g_Name grp) \<and>
     1 \<le> g_MaxConcurrentTransfers grp \<and> g_MaxConcurrentTransfers grp \<le> 100 \<and>
     1 \<le> g_MaxUnavailable grp \<and> g_MaxUnavailable grp \<le> 100 \<and>
     0 \<le> g_MaxAggregateTransferBytesPerSecond grp \<and> g_MaxAggregateTransferBytesPerSecond grp \<le> 2 ^ 40 \<and>
     (g_MaxAggregateTransferBytesPerSecond grp = 0 \<or>
        g_MaxConcurrentTransfers grp \<le> g_MaxAggregateTransferBytesPerSecond grp) \<and>
     selector_err E required (g_Selector grp) = None"

lemma validateRiskGroups_None [policy_iff]:
  "validateRiskGroups E cfg = None \<longleftrightarrow>
     length (c_RiskGroups cfg) \<le> 16 \<and> distinct (map g_Name (c_RiskGroups cfg)) \<and>
     (\<forall>grp \<in> set (c_RiskGroups cfg). group_ok E (c_RequiredTopologyKeys cfg) grp)"
  unfolding validateRiskGroups_def or_err_None err_if_None named_items_err_None group_err_def outside_iff group_ok_def
  by (auto simp: not_less)

lemma validateTopologyKeys_None [policy_iff]:
  "validateTopologyKeys E keys = None \<longleftrightarrow>
     distinct keys \<and> (\<forall>key \<in> set keys. length key \<le> 96 \<and> topology_key_err E key = None)"
  by (auto simp: validateTopologyKeys_def named_items_err_None not_less)

lemma domain_limits_err_None [policy_iff]:
  "domain_limits_err required limits = None \<longleftrightarrow>
     (\<forall>k v. fmlookup limits k = Some v \<longrightarrow> k \<in> set required \<and> 1 \<le> v \<and> v \<le> 100)"
  by (auto simp: domain_limits_err_def set_gm_entries)

definition config_ok :: "ext \<Rightarrow> admin_config \<Rightarrow> bool" where
  "config_ok E cfg \<longleftrightarrow> config_err E cfg = None"

lemma validateAdminPolicyConfig_Inr:
  "validateAdminPolicyConfig E cfg = Inr cfg' \<longleftrightarrow> cfg' = with_defaults cfg \<and> config_ok E cfg'"
  by (auto simp: validateAdminPolicyConfig_def config_ok_def split: option.splits)

lemma with_defaults_idem [simp]: "with_defaults (with_defaults cfg) = with_defaults cfg"
  by (simp add: with_defaults_def split: option.splits)

lemma config_ok_parts:
  assumes "config_ok E cfg"
  shows "accounts_err E cfg = None" "fleet_selector_err E (c_FleetSelector cfg) = None" "limits_err cfg = None"
    "validateDisruptionProtections E cfg = None" "validateRiskGroups E cfg = None"
    "IsDNS1123Subdomain E (c_LedgerName cfg)" "topology_err E cfg = None" "domain_budgets_err cfg = None"
    "\<And>drain. c_WorkloadDrain cfg = Some drain \<Longrightarrow> drain_policy_err E drain = None"
  using assms by (auto simp: config_ok_def config_err_def)

text \<open>A valid configuration already has its defaults, except for a disabled drain policy.\<close>

lemma limits_err_None [policy_iff]:
  "limits_err cfg = None \<longleftrightarrow>
     1 \<le> c_GlobalMaxUnavailable cfg \<and> c_GlobalMaxUnavailable cfg \<le> 100 \<and>
     1 \<le> c_GlobalMaxConcurrentTransfers cfg \<and> c_GlobalMaxConcurrentTransfers cfg \<le> 100 \<and>
     1 \<le> c_MaxCampaignTargets cfg \<and> c_MaxCampaignTargets cfg \<le> 100 \<and>
     1 \<le> c_MaxActiveReservations cfg \<and> c_MaxActiveReservations cfg \<le> 256 \<and>
     4096 \<le> c_MaxLedgerBytes cfg \<and> c_MaxLedgerBytes cfg \<le> 262144 \<and>
     30 \<le> c_HealthFreshnessSeconds cfg \<and> c_HealthFreshnessSeconds cfg \<le> 3600"
  unfolding limits_err_def or_err_None err_if_None outside_iff by auto

section \<open>Decisions are sound\<close>

lemma cloneIntMap_id [simp]: "cloneIntMap m = m"
  by (simp add: cloneIntMap_def foldl_gm_entries)

definition matches :: "ext \<Rightarrow> label_selector \<Rightarrow> string gomap \<Rightarrow> bool" where
  "matches E sel ls \<longleftrightarrow> (case LabelSelectorAsSelector E sel of None \<Rightarrow> False | Some f \<Rightarrow> f ls)"

lemma matching_groups_Inr:
  "matching_groups E ls grps = Inr names \<Longrightarrow>
     names = map g_Name (filter (\<lambda>grp. matches E (g_Selector grp) ls) grps)"
  by (induction grps arbitrary: names) (auto simp: matches_def split: option.splits sum.splits)

lemma matching_groups_total:
  "\<forall>grp \<in> set grps. LabelSelectorAsSelector E (g_Selector grp) \<noteq> None \<Longrightarrow> \<exists>names. matching_groups E ls grps = Inr names"
  by (induction grps) (auto split: option.splits)

lemma group_ok_selector: "group_ok E required grp \<Longrightarrow> LabelSelectorAsSelector E (g_Selector grp) \<noteq> None"
  by (simp add: group_ok_def selector_err_None)

lemma RiskGroups_spec:
  "RiskGroups E p ls =
     (case validateRiskGroups E (pp_Config p) of
        Some e \<Rightarrow> Inl e
      | None \<Rightarrow> Inr (sort (map g_Name (filter (\<lambda>grp. matches E (g_Selector grp) ls) (c_RiskGroups (pp_Config p))))))"
proof (cases "validateRiskGroups E (pp_Config p)")
  case None
  then have "\<forall>grp \<in> set (c_RiskGroups (pp_Config p)). LabelSelectorAsSelector E (g_Selector grp) \<noteq> None"
    by (auto simp: validateRiskGroups_None dest: group_ok_selector)
  from matching_groups_total [OF this, of ls] obtain names
    where names: "matching_groups E ls (c_RiskGroups (pp_Config p)) = Inr names" ..
  with None matching_groups_Inr [OF names] show ?thesis by (simp add: RiskGroups_def)
qed (simp add: RiskGroups_def)

lemma RiskGroups_valid:
  assumes "RiskGroups E p ls = Inr names"
  shows "validateRiskGroupNames E names = None"
    and "set names = g_Name ` {grp \<in> set (c_RiskGroups (pp_Config p)). matches E (g_Selector grp) ls}"
proof -
  let ?grps = "c_RiskGroups (pp_Config p)" and ?sel = "\<lambda>grp. matches E (g_Selector grp) ls"
  have ok: "validateRiskGroups E (pp_Config p) = None" and names: "names = sort (map g_Name (filter ?sel ?grps))"
    using assms by (auto simp: RiskGroups_spec split: option.splits)
  have "distinct (map g_Name (filter ?sel ?grps))"
    using ok by (simp add: validateRiskGroups_None distinct_map_filter)
  then have "sorted_wrt (<) names"
    by (simp add: names strict_sorted_iff)
  moreover have "length names \<le> 16"
    using ok by (auto simp: names validateRiskGroups_None intro: order_trans [OF length_filter_le])
  moreover have "list_all (IsDNS1123Label E) names"
    using ok by (auto simp: names list_all_iff validateRiskGroups_None group_ok_def)
  ultimately show "validateRiskGroupNames E names = None" by (simp add: validateRiskGroupNames_iff)
  show "set names = g_Name ` {grp \<in> set ?grps. ?sel grp}" by (auto simp: names)
qed

text \<open>The transfer rate is positive as soon as a limited group matches, and bounded by each share.\<close>

definition limited :: "ext \<Rightarrow> string gomap \<Rightarrow> admin_risk_group \<Rightarrow> bool" where
  "limited E ls grp \<longleftrightarrow> g_MaxAggregateTransferBytesPerSecond grp \<noteq> 0 \<and> matches E (g_Selector grp) ls"

lemma share_bounds:
  assumes "group_ok E required grp" "g_MaxAggregateTransferBytesPerSecond grp \<noteq> 0"
  shows "1 \<le> go_div (g_MaxAggregateTransferBytesPerSecond grp) (g_MaxConcurrentTransfers grp)"
    and "go_div (g_MaxAggregateTransferBytesPerSecond grp) (g_MaxConcurrentTransfers grp) * g_MaxConcurrentTransfers grp
      \<le> g_MaxAggregateTransferBytesPerSecond grp"
proof -
  let ?a = "g_MaxAggregateTransferBytesPerSecond grp" and ?n = "g_MaxConcurrentTransfers grp"
  have n: "1 \<le> ?n" "?n \<le> ?a" using assms by (auto simp: group_ok_def)
  then have div: "go_div ?a ?n = ?a div ?n" by (simp add: go_div_def)
  show "1 \<le> go_div ?a ?n" using n pos_imp_zdiv_pos_iff [of ?n ?a] by (simp add: div)
  show "go_div ?a ?n * ?n \<le> ?a" using n by (simp add: div mult.commute [of _ ?n] pos_mod_sign minus_mod_eq_mult_div [symmetric])
qed

lemma transfer_share_Inr:
  assumes "transfer_share E ls acc grps = Inr r" "\<forall>grp \<in> set grps. group_ok E required grp" "0 \<le> acc"
  shows "(acc = 0 \<or> r \<le> acc) \<and> (r = 0 \<longleftrightarrow> acc = 0 \<and> (\<forall>grp \<in> set grps. \<not> limited E ls grp)) \<and> 0 \<le> r \<and>
    (\<forall>grp \<in> set grps. limited E ls grp \<longrightarrow> r * g_MaxConcurrentTransfers grp \<le> g_MaxAggregateTransferBytesPerSecond grp)"
  using assms
proof (induction grps arbitrary: acc)
  case (Cons grp grps)
  have grp: "group_ok E required grp" and rest: "\<forall>grp \<in> set grps. group_ok E required grp"
    using Cons.prems(2) by auto
  show ?case
  proof (cases "limited E ls grp")
    case False
    then have "transfer_share E ls acc grps = Inr r"
      using Cons.prems(1) by (auto simp: limited_def matches_def split: if_splits option.splits)
    from Cons.IH [OF this rest Cons.prems(3)] False show ?thesis by simp
  next
    case True
    let ?share = "go_div (g_MaxAggregateTransferBytesPerSecond grp) (g_MaxConcurrentTransfers grp)"
    let ?acc = "if acc = 0 \<or> ?share < acc then ?share else acc"
    have step: "transfer_share E ls ?acc grps = Inr r"
      using Cons.prems(1) True by (auto simp: limited_def matches_def Let_def split: if_splits option.splits)
    note bounds = share_bounds [OF grp] True [unfolded limited_def]
    have pos: "1 \<le> ?acc" and le: "?acc \<le> ?share" using bounds Cons.prems(3) by auto
    note IH = Cons.IH [OF step rest]
    have r: "0 < r" "r \<le> ?acc" using IH pos by auto
    have n: "0 \<le> g_MaxConcurrentTransfers grp" using grp by (simp add: group_ok_def)
    have "r \<le> ?share" using r le by linarith
    then have "r * g_MaxConcurrentTransfers grp \<le> ?share * g_MaxConcurrentTransfers grp"
      using n by (rule mult_right_mono)
    then have "r * g_MaxConcurrentTransfers grp \<le> g_MaxAggregateTransferBytesPerSecond grp"
      using bounds by linarith
    moreover have "acc = 0 \<or> r \<le> acc" using r(2) Cons.prems(3) by (auto split: if_splits)
    ultimately show ?thesis using IH r True pos by auto
  qed
qed simp

lemma matching_protection_Inr:
  assumes "matching_protection E ls matched rules = Inr r"
  shows "(r = None \<longleftrightarrow> matched = None \<and> (\<forall>rule \<in> set rules. \<not> matches E (d_Selector rule) ls)) \<and>
    (\<forall>m. r = Some m \<longrightarrow> (matched = Some m \<or> m \<in> set rules \<and> matches E (d_Selector m) ls) \<and>
      (\<forall>rule \<in> set rules. matches E (d_Selector rule) ls \<longrightarrow> d_Name m \<le> d_Name rule) \<and>
      (\<forall>m'. matched = Some m' \<longrightarrow> d_Name m \<le> d_Name m'))"
  using assms
proof (induction rules arbitrary: matched)
  case (Cons rule rules)
  obtain f where f: "LabelSelectorAsSelector E (d_Selector rule) = Some f"
    using Cons.prems by (auto split: option.splits)
  let ?next = "if f ls \<and> (case matched of None \<Rightarrow> True | Some m \<Rightarrow> d_Name rule < d_Name m) then Some rule else matched"
  have step: "matching_protection E ls ?next rules = Inr r" using Cons.prems f by simp
  have this_rule: "matches E (d_Selector rule) ls = f ls" by (simp add: matches_def f)
  show ?case
  proof (cases "f ls")
    case False
    with Cons.IH [OF step] this_rule show ?thesis by auto
  next
    case True
    then show ?thesis
    proof (cases matched)
      case None
      with True Cons.IH [OF step] this_rule show ?thesis by auto
    next
      case (Some m0)
      define n where "n = (if d_Name rule < d_Name m0 then rule else m0)"
      have n: "?next = Some n" "n = rule \<or> n = m0" "d_Name n \<le> d_Name rule" "d_Name n \<le> d_Name m0"
        using True Some by (auto simp: n_def)
      note IH = Cons.IH [OF step, unfolded n(1)]
      then obtain m where m: "r = Some m" by (cases r) auto
      have "n = m \<or> m \<in> set rules \<and> matches E (d_Selector m) ls" "d_Name m \<le> d_Name n"
        "\<forall>rule \<in> set rules. matches E (d_Selector rule) ls \<longrightarrow> d_Name m \<le> d_Name rule"
        using IH m by auto
      moreover have "d_Name m \<le> d_Name rule" "d_Name m \<le> d_Name m0"
        using \<open>d_Name m \<le> d_Name n\<close> n(3,4) by (blast intro: order_trans)+
      ultimately show ?thesis using m n(2) Some True this_rule by auto
    qed
  qed
qed auto

end
