(* ===== verification/Go_Values.thy ===== *)
theory Go_Values
  imports Go_Reflect
begin

text \<open>
  The values of documents: how lists and maps of the models appear as Go values and are read back,
  and when such values have their type. The components describe their structs with these.
\<close>

subsection \<open>Building and reading values\<close>

text \<open>An empty slice or map is nil here; where both can occur the two print alike.\<close>

definition slice_val :: "('a \<Rightarrow> goval) \<Rightarrow> 'a list \<Rightarrow> goval" where
  "slice_val f xs = GSlice (xs \<noteq> []) (map f xs) []"

definition map_val :: "('a \<Rightarrow> goval) \<Rightarrow> 'a gomap \<Rightarrow> goval" where
  "map_val f m = GMap (if gm_entries m = [] then None else Some (map (\<lambda>(k, v). (k, f v)) (gm_entries m)))"

fun val_str :: "goval \<Rightarrow> string" where
  "val_str (GStr s) = s"
| "val_str _ = []"

fun val_int :: "goval \<Rightarrow> int" where
  "val_int (GInt i) = i"
| "val_int _ = 0"

fun val_bool :: "goval \<Rightarrow> bool" where
  "val_bool (GBool b) = b"
| "val_bool _ = False"

fun val_list :: "(goval \<Rightarrow> 'a) \<Rightarrow> goval \<Rightarrow> 'a list" where
  "val_list f (GSlice a vs bk) = map f vs"
| "val_list f _ = []"

fun val_map :: "(goval \<Rightarrow> 'a) \<Rightarrow> goval \<Rightarrow> 'a gomap" where
  "val_map f (GMap (Some es)) = fmap_of_list (map (\<lambda>(k, v). (k, f v)) es)"
| "val_map f _ = fmempty"

fun val_opt :: "(goval \<Rightarrow> 'a) \<Rightarrow> goval \<Rightarrow> 'a option" where
  "val_opt f (GPtr p) = map_option f p"
| "val_opt f _ = None"

fun val_field :: "goval \<Rightarrow> nat \<Rightarrow> goval" where
  "val_field (GStruct vs) i = (if i < length vs then vs ! i else GPtr None)"
| "val_field _ i = GPtr None"

section \<open>Reading a value back\<close>

named_theorems doc_simps "reading a component of a document back from its value"

lemma val_list_slice [doc_simps]: "(\<And>x. f (g x) = x) \<Longrightarrow> val_list f (slice_val g xs) = xs"
  by (simp add: slice_val_def comp_def)

lemma fmap_of_entries: "fmap_of_list (gm_entries m) = m"
  by (rule fmap_ext) (simp add: fmlookup_of_list gm_entries_map_of)

lemma val_map_map_val [doc_simps]:
  assumes "\<And>x. f (g x) = x"
  shows "val_map f (map_val g m) = m"
proof (cases "gm_entries m = []")
  case True
  then show ?thesis using fmap_of_entries [of m] by (simp add: map_val_def)
next
  case False
  have "map (\<lambda>(k, v). (k, f v)) (map (\<lambda>(k, v). (k, g v)) (gm_entries m)) = gm_entries m"
    by (simp add: comp_def case_prod_unfold assms)
  with False show ?thesis by (simp add: map_val_def fmap_of_entries del: map_map)
qed

section \<open>Values of a type\<close>

lemma typed_slice_val:
  "typed (TSlice t) (slice_val f xs) \<longleftrightarrow> list_all (\<lambda>x. typed t (f x)) xs"
  by (simp add: slice_val_def list_all_iff)

lemma typed_map_val:
  "typed (TMap t) (map_val f m) \<longleftrightarrow> list_all (\<lambda>(k, v). ascii k \<and> typed t (f v)) (gm_entries m)"
proof -
  have "sorted_wrt (<) (gm_keys m)" by (simp add: strict_sorted_iff sorted_gm_keys distinct_gm_keys)
  then have "sorted_wrt (<) (map (fst \<circ> (\<lambda>(k, v). (k, f v))) (gm_entries m))"
    by (simp add: gm_keys_def comp_def case_prod_unfold)
  then show ?thesis by (auto simp: map_val_def list_all_iff)
qed

lemma typed_struct:
  "typed (TStruct fs) (GStruct vs) \<longleftrightarrow> distinct (map fst fs) \<and>
     list_all2 (\<lambda>(n, t, oe) x. ascii n \<and> typed t x \<and> (oe \<and> is_empty x \<longrightarrow> x = zero_val t)) fs vs"
  by (auto dest: list_all2_lengthD)

lemma empty_slice_val [simp]: "is_empty (slice_val f xs) \<longleftrightarrow> xs = []"
  by (simp add: slice_val_def)

lemma slice_val_Nil [simp]: "slice_val f [] = GSlice False [] []"
  by (simp add: slice_val_def)

lemma empty_map_val [simp]: "is_empty (map_val f m) \<longleftrightarrow> gm_entries m = []"
  by (simp add: map_val_def)

lemma map_val_empty: "gm_entries m = [] \<Longrightarrow> map_val f m = GMap None"
  by (simp add: map_val_def)

lemmas typed_doc = typed_struct typed_slice_val typed_map_val map_val_empty ascii_Cons

lemma Marshal_inj: "typed t v \<Longrightarrow> typed t w \<Longrightarrow> Marshal t v = Marshal t w \<Longrightarrow> v = w"
  by (metis decode_Marshal decoded.inject)

end
