(* ===== verification/Admin_Document.thy ===== *)
theory Admin_Document
  imports Admin_Policy Go_Values "HOL-Library.Multiset"
begin

text \<open>
  The administrator policy as a document: the JSON form of the configuration with its struct
  tags, \<^verbatim>\<open>decodeAdminPolicyConfig\<close>, \<^verbatim>\<open>ParseAdminPolicy\<close> and
  \<^verbatim>\<open>CanonicalPolicyJSON\<close>, and the hashes \<^verbatim>\<open>AdminPolicyHashes\<close> and
  \<^verbatim>\<open>RiskGroupMembershipHash\<close> that freeze a policy and a fleet into a rollout plan.
\<close>

subsection \<open>Struct tags\<close>

definition requirement_type :: gotype where
  "requirement_type = TStruct [(''key'', TStr, False), (''operator'', TStr, False), (''values'', TSlice TStr, True)]"

definition selector_type :: gotype where
  "selector_type = TStruct [(''matchLabels'', TMap TStr, True), (''matchExpressions'', TSlice requirement_type, True)]"

definition protection_type :: gotype where
  "protection_type = TStruct [(''name'', TStr, False), (''reason'', TStr, False), (''selector'', selector_type, False)]"

definition group_type :: gotype where
  "group_type = TStruct
     [(''name'', TStr, False), (''selector'', selector_type, False), (''maxConcurrentTransfers'', TInt 64, False),
      (''maxUnavailable'', TInt 64, False), (''maxAggregateTransferBytesPerSecond'', TInt 64, True)]"

definition drain_type :: gotype where
  "drain_type = TStruct
     [(''enabled'', TBool, False), (''allowedNamespaces'', TSlice TStr, False), (''maxTimeoutSeconds'', TInt 64, False),
      (''maxPods'', TInt 64, False), (''maxTerminationGraceSeconds'', TInt 64, False)]"

definition config_type :: gotype where
  "config_type = TStruct
     [(''appHostingServiceAccountName'', TStr, False), (''networkManagementServiceAccountName'', TStr, False),
      (''configLeaseNamespace'', TStr, False), (''version'', TStr, False), (''fleetSelector'', selector_type, False),
      (''requiredTopologyKeys'', TSlice TStr, False), (''projectedTopologyKeys'', TSlice TStr, False),
      (''globalMaxConcurrentTransfers'', TInt 64, False), (''globalMaxUnavailable'', TInt 64, False),
      (''domainMaxConcurrentTransfers'', TMap (TInt 64), False), (''domainMaxUnavailable'', TMap (TInt 64), False),
      (''healthFreshnessSeconds'', TInt 64, False), (''maxCampaignTargets'', TInt 64, False),
      (''maxActiveReservations'', TInt 64, False), (''maxLedgerBytes'', TInt 64, False),
      (''workloadDrain'', TPtr drain_type, True), (''disruptionProtections'', TSlice protection_type, True),
      (''riskGroups'', TSlice group_type, True), (''ledgerName'', TStr, False)]"

text \<open>The anonymous struct of the fields that shape an already frozen plan.\<close>

definition structure_type :: gotype where
  "structure_type = TStruct
     [(''version'', TStr, False), (''appHostingServiceAccountName'', TStr, False),
      (''networkManagementServiceAccountName'', TStr, False), (''configLeaseNamespace'', TStr, False),
      (''fleetSelector'', selector_type, False), (''requiredTopologyKeys'', TSlice TStr, False),
      (''projectedTopologyKeys'', TSlice TStr, False), (''disruptionProtections'', TSlice protection_type, True),
      (''riskGroups'', TSlice group_type, True), (''transferDomainKeys'', TSlice TStr, False),
      (''unavailableDomainKeys'', TSlice TStr, False), (''ledgerName'', TStr, False)]"

definition entry_type :: gotype where
  "entry_type = TStruct [(''physicalID'', TStr, False), (''groups'', TSlice TStr, False)]"

subsection \<open>Values of these types\<close>

definition requirement_val :: "requirement \<Rightarrow> goval" where
  "requirement_val q = GStruct [GStr (req_Key q), GStr (req_Operator q), slice_val GStr (req_Values q)]"

definition selector_val :: "label_selector \<Rightarrow> goval" where
  "selector_val sel = GStruct [map_val GStr (MatchLabels sel), slice_val requirement_val (MatchExpressions sel)]"

definition protection_val :: "admin_protection \<Rightarrow> goval" where
  "protection_val d = GStruct [GStr (d_Name d), GStr (d_Reason d), selector_val (d_Selector d)]"

definition group_val :: "admin_risk_group \<Rightarrow> goval" where
  "group_val g = GStruct
     [GStr (g_Name g), selector_val (g_Selector g), GInt (g_MaxConcurrentTransfers g), GInt (g_MaxUnavailable g),
      GInt (g_MaxAggregateTransferBytesPerSecond g)]"

definition drain_val :: "admin_drain \<Rightarrow> goval" where
  "drain_val d = GStruct
     [GBool (dr_Enabled d), slice_val GStr (dr_AllowedNamespaces d), GInt (dr_MaxTimeoutSeconds d), GInt (dr_MaxPods d),
      GInt (dr_MaxTerminationGraceSeconds d)]"

definition projected_val :: "string list option \<Rightarrow> goval" where
  "projected_val p = (case p of None \<Rightarrow> GSlice False [] [] | Some ks \<Rightarrow> GSlice True (map GStr ks) [])"

definition config_val :: "admin_config \<Rightarrow> goval" where
  "config_val c = GStruct
     [GStr (c_AppHostingServiceAccountName c), GStr (c_NetworkManagementServiceAccountName c),
      GStr (c_ConfigLeaseNamespace c), GStr (c_Version c), selector_val (c_FleetSelector c),
      slice_val GStr (c_RequiredTopologyKeys c), projected_val (c_ProjectedTopologyKeys c),
      GInt (c_GlobalMaxConcurrentTransfers c), GInt (c_GlobalMaxUnavailable c),
      map_val GInt (c_DomainMaxConcurrentTransfers c), map_val GInt (c_DomainMaxUnavailable c),
      GInt (c_HealthFreshnessSeconds c), GInt (c_MaxCampaignTargets c), GInt (c_MaxActiveReservations c),
      GInt (c_MaxLedgerBytes c), GPtr (map_option drain_val (c_WorkloadDrain c)),
      slice_val protection_val (c_DisruptionProtections c), slice_val group_val (c_RiskGroups c), GStr (c_LedgerName c)]"

definition val_requirement :: "goval \<Rightarrow> requirement" where
  "val_requirement v = \<lparr> req_Key = val_str (val_field v 0), req_Operator = val_str (val_field v 1),
     req_Values = val_list val_str (val_field v 2) \<rparr>"

definition val_selector :: "goval \<Rightarrow> label_selector" where
  "val_selector v = \<lparr> MatchLabels = val_map val_str (val_field v 0),
     MatchExpressions = val_list val_requirement (val_field v 1) \<rparr>"

definition val_protection :: "goval \<Rightarrow> admin_protection" where
  "val_protection v = \<lparr> d_Name = val_str (val_field v 0), d_Reason = val_str (val_field v 1),
     d_Selector = val_selector (val_field v 2) \<rparr>"

definition val_group :: "goval \<Rightarrow> admin_risk_group" where
  "val_group v = \<lparr> g_Name = val_str (val_field v 0), g_Selector = val_selector (val_field v 1),
     g_MaxConcurrentTransfers = val_int (val_field v 2), g_MaxUnavailable = val_int (val_field v 3),
     g_MaxAggregateTransferBytesPerSecond = val_int (val_field v 4) \<rparr>"

definition val_drain :: "goval \<Rightarrow> admin_drain" where
  "val_drain v = \<lparr> dr_Enabled = val_bool (val_field v 0), dr_AllowedNamespaces = val_list val_str (val_field v 1),
     dr_MaxTimeoutSeconds = val_int (val_field v 2), dr_MaxPods = val_int (val_field v 3),
     dr_MaxTerminationGraceSeconds = val_int (val_field v 4) \<rparr>"

definition val_projected :: "goval \<Rightarrow> string list option" where
  "val_projected v = (case v of GSlice True vs bk \<Rightarrow> Some (map val_str vs) | _ \<Rightarrow> None)"

definition val_config :: "goval \<Rightarrow> admin_config" where
  "val_config v =
     \<lparr> c_AppHostingServiceAccountName = val_str (val_field v 0),
       c_NetworkManagementServiceAccountName = val_str (val_field v 1),
       c_ConfigLeaseNamespace = val_str (val_field v 2), c_Version = val_str (val_field v 3),
       c_FleetSelector = val_selector (val_field v 4),
       c_RequiredTopologyKeys = val_list val_str (val_field v 5),
       c_ProjectedTopologyKeys = val_projected (val_field v 6),
       c_GlobalMaxConcurrentTransfers = val_int (val_field v 7), c_GlobalMaxUnavailable = val_int (val_field v 8),
       c_DomainMaxConcurrentTransfers = val_map val_int (val_field v 9),
       c_DomainMaxUnavailable = val_map val_int (val_field v 10),
       c_HealthFreshnessSeconds = val_int (val_field v 11), c_MaxCampaignTargets = val_int (val_field v 12),
       c_MaxActiveReservations = val_int (val_field v 13), c_MaxLedgerBytes = val_int (val_field v 14),
       c_WorkloadDrain = val_opt val_drain (val_field v 15),
       c_DisruptionProtections = val_list val_protection (val_field v 16),
       c_RiskGroups = val_list val_group (val_field v 17), c_LedgerName = val_str (val_field v 18) \<rparr>"

subsection \<open>Reading a policy document\<close>

record full_map = config_map +
  cm_Namespace :: string
  cm_Name :: string
  cm_Annotations :: "string gomap"

abbreviation PolicyDataKey :: string where "PolicyDataKey \<equiv> ''policy.json''"
abbreviation LedgerUIDAnnotation :: string where "LedgerUIDAnnotation \<equiv> ''topology.cisco.vk/ledger-uid''"
abbreviation PolicyManagedAnnotation :: string where "PolicyManagedAnnotation \<equiv> ''topology.cisco.vk/managed-policy''"
abbreviation AdmissionPrefixAnnotation :: string where
  "AdmissionPrefixAnnotation \<equiv> ''topology.cisco.vk/admission-policy-prefix''"
abbreviation ConfigLeaseNamespaceAnnotation :: string where
  "ConfigLeaseNamespaceAnnotation \<equiv> ''topology.cisco.vk/config-lease-namespace''"

definition decodeAdminPolicyConfig :: "ext \<Rightarrow> full_map \<Rightarrow> rollout_err + admin_config" where
  "decodeAdminPolicyConfig E cm =
     (if cm_UID cm = [] \<or> cm_ResourceVersion cm = []
      then Inl (Plain ''administrator topology policy has no Kubernetes identity'')
      else if gm_str (cm_Annotations cm) PolicyManagedAnnotation \<noteq> ''true''
      then Inl (Plain ''administrator topology policy is not marked managed'')
      else case decode_strict config_type (gm_str (cm_Data cm) PolicyDataKey) of
        Malformed \<Rightarrow> Inl (Plain ''decode administrator topology policy'')
      | Trailing \<Rightarrow> Inl (Plain ''decode administrator topology policy: trailing JSON data'')
      | Value v \<Rightarrow>
          (case validateAdminPolicyConfig E (val_config v) of
             Inl e \<Rightarrow> Inl e
           | Inr cfg \<Rightarrow>
               if fmlookup (cm_Annotations cm) ConfigLeaseNamespaceAnnotation \<noteq> Some (c_ConfigLeaseNamespace cfg)
               then Inl (Plain ''administrator topology policy config Lease namespace annotation does not match policy.json'')
               else Inr cfg))"

definition inspectAdminPolicy :: "ext \<Rightarrow> full_map \<Rightarrow> rollout_err + admin_config \<times> string" where
  "inspectAdminPolicy E cm =
     (case decodeAdminPolicyConfig E cm of
        Inl e \<Rightarrow> Inl e
      | Inr cfg \<Rightarrow>
          if LabelSelectorAsSelector E (c_FleetSelector cfg) = None then Inl (Plain ''parse fleet selector'')
          else let prefix = TrimSpace (gm_str (cm_Annotations cm) AdmissionPrefixAnnotation)
               in if \<not> IsDNS1123Subdomain E prefix
                  then Inl (Plain ''administrator topology policy has invalid admission policy prefix'')
                  else Inr (cfg, prefix))"

definition ParseAdminPolicy :: "ext \<Rightarrow> full_map \<Rightarrow> rollout_err + parsed_policy" where
  "ParseAdminPolicy E cm =
     (case inspectAdminPolicy E cm of
        Inl e \<Rightarrow> Inl e
      | Inr (cfg, prefix) \<Rightarrow>
          let ledgerUID = TrimSpace (gm_str (cm_Annotations cm) LedgerUIDAnnotation)
          in if ledgerUID = [] then Inl (Plain ''administrator topology policy has no bound ledger UID'')
             else case LabelSelectorAsSelector E (c_FleetSelector cfg) of
               None \<Rightarrow> Inl (Plain ''parse fleet selector'')
             | Some selector \<Rightarrow>
                 Inr \<lparr> pp_Config = cfg, pp_Selector = selector, pp_Namespace = cm_Namespace cm, pp_Name = cm_Name cm,
                       pp_LedgerUID = ledgerUID, pp_PolicyUID = cm_UID cm, pp_ResourceVersion = cm_ResourceVersion cm,
                       pp_HealthFreshness = c_HealthFreshnessSeconds cfg * second, pp_AdmissionPrefix = prefix \<rparr>)"

definition CanonicalPolicyJSON :: "ext \<Rightarrow> admin_config \<Rightarrow> rollout_err + string" where
  "CanonicalPolicyJSON E cfg =
     (case validateAdminPolicyConfig E cfg of
        Inl e \<Rightarrow> Inl e
      | Inr cfg' \<Rightarrow> Inr (Marshal config_type (config_val cfg')))"

subsection \<open>Hashes\<close>

definition canonicalizeLabelSelector :: "label_selector \<Rightarrow> label_selector" where
  "canonicalizeLabelSelector sel = sel
     \<lparr> MatchExpressions := sort_key (\<lambda>q. Marshal requirement_type (requirement_val q))
         (map (\<lambda>q. q\<lparr> req_Values := sort (req_Values q) \<rparr>) (MatchExpressions sel)) \<rparr>"

text \<open>
  Copying: \<^verbatim>\<open>append([]string(nil), xs...)\<close> turns an empty slice into nil; everything
  else of the copy only removes aliasing.
\<close>

definition cloneAdminPolicyConfig :: "admin_config \<Rightarrow> admin_config" where
  "cloneAdminPolicyConfig cfg = cfg
     \<lparr> c_ProjectedTopologyKeys := (if projected_keys cfg = [] then None else Some (projected_keys cfg)),
       c_DomainMaxConcurrentTransfers := cloneIntMap (c_DomainMaxConcurrentTransfers cfg),
       c_DomainMaxUnavailable := cloneIntMap (c_DomainMaxUnavailable cfg) \<rparr>"

definition canonicalizePolicyCollections :: "admin_config \<Rightarrow> admin_config" where
  "canonicalizePolicyCollections cfg = cfg
     \<lparr> c_RequiredTopologyKeys := sort (c_RequiredTopologyKeys cfg),
       c_ProjectedTopologyKeys := map_option sort (c_ProjectedTopologyKeys cfg),
       c_WorkloadDrain := map_option (\<lambda>d. d\<lparr> dr_AllowedNamespaces := sort (dr_AllowedNamespaces d) \<rparr>) (c_WorkloadDrain cfg),
       c_DisruptionProtections := sort_key d_Name
         (map (\<lambda>d. d\<lparr> d_Selector := canonicalizeLabelSelector (d_Selector d) \<rparr>) (c_DisruptionProtections cfg)),
       c_RiskGroups := sort_key g_Name
         (map (\<lambda>g. g\<lparr> g_Selector := canonicalizeLabelSelector (g_Selector g) \<rparr>) (c_RiskGroups cfg)),
       c_FleetSelector := canonicalizeLabelSelector (c_FleetSelector cfg) \<rparr>"

definition sortedIntMapKeys :: "int gomap \<Rightarrow> string list" where
  "sortedIntMapKeys m = sort (gm_keys m)"

definition hashCanonicalJSON :: "gotype \<Rightarrow> goval \<Rightarrow> string" where
  "hashCanonicalJSON t v = ''sha256:'' @ sha256_hex (Marshal t v)"

definition structure_val :: "admin_config \<Rightarrow> goval" where
  "structure_val c = GStruct
     [GStr (c_Version c), GStr (c_AppHostingServiceAccountName c), GStr (c_NetworkManagementServiceAccountName c),
      GStr (c_ConfigLeaseNamespace c), selector_val (c_FleetSelector c), slice_val GStr (c_RequiredTopologyKeys c),
      projected_val (c_ProjectedTopologyKeys c), slice_val protection_val (c_DisruptionProtections c),
      slice_val group_val (c_RiskGroups c), slice_val GStr (sortedIntMapKeys (c_DomainMaxConcurrentTransfers c)),
      slice_val GStr (sortedIntMapKeys (c_DomainMaxUnavailable c)), GStr (c_LedgerName c)]"

text \<open>The semantic and the structural hash.\<close>

definition AdminPolicyHashes :: "ext \<Rightarrow> admin_config \<Rightarrow> rollout_err + string \<times> string" where
  "AdminPolicyHashes E cfg =
     (case validateAdminPolicyConfig E cfg of
        Inl e \<Rightarrow> Inl e
      | Inr cfg' \<Rightarrow>
          let canonical = canonicalizePolicyCollections (cloneAdminPolicyConfig cfg')
          in Inr (hashCanonicalJSON config_type (config_val canonical),
                  hashCanonicalJSON structure_type (structure_val canonical)))"

definition membership_entries :: "member gomap \<Rightarrow> member list" where
  "membership_entries canonical =
     sort_key m_PhysicalID (filter (\<lambda>m. m_RiskGroups m \<noteq> []) (gm_vals canonical))"

definition RiskGroupMembershipHash :: "ext \<Rightarrow> member list \<Rightarrow> rollout_err + string" where
  "RiskGroupMembershipHash E members =
     (case canonicalizeMembers E members of
        Inl e \<Rightarrow> Inl e
      | Inr canonical \<Rightarrow>
          Inr (hashCanonicalJSON (TSlice entry_type)
            (GSlice True (map (\<lambda>m. GStruct [GStr (m_PhysicalID m), slice_val GStr (m_RiskGroups m)])
              (membership_entries canonical)) [])))"

section \<open>The document represents the configuration\<close>

lemma val_requirement_val [doc_simps]: "val_requirement (requirement_val q) = q"
  by (simp add: val_requirement_def requirement_val_def doc_simps)

lemma val_selector_val [doc_simps]: "val_selector (selector_val sel) = sel"
  by (simp add: val_selector_def selector_val_def doc_simps)

lemma val_protection_val [doc_simps]: "val_protection (protection_val d) = d"
  by (simp add: val_protection_def protection_val_def doc_simps)

lemma val_group_val [doc_simps]: "val_group (group_val g) = g"
  by (simp add: val_group_def group_val_def doc_simps)

lemma val_drain_val [doc_simps]: "val_drain (drain_val d) = d"
  by (simp add: val_drain_def drain_val_def doc_simps)

lemma val_projected_val [doc_simps]: "val_projected (projected_val p) = p"
  by (simp add: val_projected_def projected_val_def comp_def split: option.splits)

lemma val_config_val: "val_config (config_val c) = c"
  by (simp add: val_config_def config_val_def doc_simps option.map_comp comp_def option.map_ident)

section \<open>Valid configurations are printable\<close>

text \<open>
  Documented behaviour of the external validators: the names they accept are ASCII, and a
  selector they accept has ASCII keys, operators and values.
\<close>

definition ascii_selector :: "label_selector \<Rightarrow> bool" where
  "ascii_selector sel \<longleftrightarrow>
     list_all (\<lambda>(k, v). ascii k \<and> ascii v) (gm_entries (MatchLabels sel)) \<and>
     list_all (\<lambda>q. ascii (req_Key q) \<and> ascii (req_Operator q) \<and> list_all ascii (req_Values q)) (MatchExpressions sel)"

definition policy_ascii :: "ext \<Rightarrow> bool" where
  "policy_ascii E \<longleftrightarrow> ext_ascii E \<and> (\<forall>s. IsDNS1123Subdomain E s \<longrightarrow> ascii s) \<and>
     (\<forall>sel. LabelSelectorAsSelector E sel \<noteq> None \<longrightarrow> ascii_selector sel)"

lemma typed_requirement:
  "ascii (req_Key q) \<and> ascii (req_Operator q) \<and> list_all ascii (req_Values q) \<Longrightarrow>
     typed requirement_type (requirement_val q)"
  unfolding requirement_type_def requirement_val_def
  by (simp add: typed_doc del: typed.simps(4,5,7))

lemma typed_selector: "ascii_selector sel \<Longrightarrow> typed selector_type (selector_val sel)"
  unfolding selector_type_def selector_val_def
  by (simp add: typed_doc ascii_selector_def del: typed.simps(4,5,7)) (auto simp: list_all_iff intro!: typed_requirement)

definition small :: "int \<Rightarrow> bool" where
  "small i \<longleftrightarrow> - (2 ^ 63) \<le> i \<and> i < 2 ^ 63"

lemma smallI: "0 \<le> i \<Longrightarrow> i \<le> 2 ^ 40 \<Longrightarrow> small i"
  by (simp add: small_def)

lemma typed_int [simp]: "typed (TInt 64) (GInt i) \<longleftrightarrow> small i"
  by (auto simp: small_def)

declare typed.simps(2,4,5,7) [simp del]

lemma typed_protection:
  "ascii (d_Name d) \<and> ascii (d_Reason d) \<and> ascii_selector (d_Selector d) \<Longrightarrow> typed protection_type (protection_val d)"
  unfolding protection_type_def protection_val_def by (simp add: typed_doc typed_selector)

lemma typed_group:
  "ascii (g_Name g) \<and> ascii_selector (g_Selector g) \<and> small (g_MaxConcurrentTransfers g) \<and> small (g_MaxUnavailable g) \<and>
     small (g_MaxAggregateTransferBytesPerSecond g) \<Longrightarrow> typed group_type (group_val g)"
  unfolding group_type_def group_val_def by (simp add: typed_doc typed_selector)

lemma typed_drain:
  "list_all ascii (dr_AllowedNamespaces d) \<and> small (dr_MaxTimeoutSeconds d) \<and> small (dr_MaxPods d) \<and>
     small (dr_MaxTerminationGraceSeconds d) \<Longrightarrow> typed (TPtr drain_type) (GPtr (Some (drain_val d)))"
  unfolding drain_type_def drain_val_def by (simp add: typed_doc)

definition printable :: "admin_config \<Rightarrow> bool" where
  "printable c \<longleftrightarrow>
     list_all ascii [c_AppHostingServiceAccountName c, c_NetworkManagementServiceAccountName c, c_ConfigLeaseNamespace c,
       c_Version c, c_LedgerName c] \<and>
     list_all small [c_GlobalMaxConcurrentTransfers c, c_GlobalMaxUnavailable c, c_HealthFreshnessSeconds c,
       c_MaxCampaignTargets c, c_MaxActiveReservations c, c_MaxLedgerBytes c] \<and>
     ascii_selector (c_FleetSelector c) \<and> list_all ascii (c_RequiredTopologyKeys c) \<and> list_all ascii (projected_keys c) \<and>
     list_all (\<lambda>(k, v). ascii k \<and> small v) (gm_entries (c_DomainMaxConcurrentTransfers c)) \<and>
     list_all (\<lambda>(k, v). ascii k \<and> small v) (gm_entries (c_DomainMaxUnavailable c)) \<and>
     typed (TPtr drain_type) (GPtr (map_option drain_val (c_WorkloadDrain c))) \<and>
     list_all (\<lambda>d. typed protection_type (protection_val d)) (c_DisruptionProtections c) \<and>
     list_all (\<lambda>g. typed group_type (group_val g)) (c_RiskGroups c)"

lemma typed_projected: "typed (TSlice TStr) (projected_val p) \<longleftrightarrow> list_all ascii (case p of None \<Rightarrow> [] | Some ks \<Rightarrow> ks)"
  by (auto simp: projected_val_def typed.simps(4) list_all_iff split: option.splits)

lemma typed_config: "printable c \<Longrightarrow> typed config_type (config_val c)"
  unfolding config_type_def config_val_def
  by (simp add: typed_doc typed_projected typed_selector printable_def del: typed.simps(6))

lemma selector_printable: "policy_ascii E \<Longrightarrow> selector_err E required sel = None \<Longrightarrow> ascii_selector sel"
  by (simp add: policy_ascii_def selector_err_None)

lemma policy_asciiD:
  assumes "policy_ascii E"
  shows "IsDNS1123Label E s \<Longrightarrow> ascii s" "IsDNS1123Subdomain E s \<Longrightarrow> ascii s" "IsQualifiedName E s \<Longrightarrow> ascii s"
    "LabelSelectorAsSelector E sel \<noteq> None \<Longrightarrow> ascii_selector sel"
  using assms by (auto simp: policy_ascii_def ext_ascii_def)

lemma fleet_printable: "policy_ascii E \<Longrightarrow> fleet_selector_err E sel = None \<Longrightarrow> ascii_selector sel"
  by (auto simp: fleet_selector_err_def dest: policy_asciiD(4))

lemma drain_printable:
  assumes "policy_ascii E" "drain_policy_err E d = None"
  shows "typed (TPtr drain_type) (GPtr (Some (drain_val d)))"
  using assms unfolding drain_policy_err_def or_err_None err_if_None outside_iff
  by (intro typed_drain) (auto simp: named_items_err_None list_all_iff intro!: smallI dest: policy_asciiD(1))

lemma groups_printable:
  assumes "policy_ascii E" "validateRiskGroups E c = None"
  shows "list_all (\<lambda>g. typed group_type (group_val g)) (c_RiskGroups c)"
  using assms
  by (auto simp: list_all_iff validateRiskGroups_None group_ok_def intro!: typed_group smallI
      dest: policy_asciiD(1) selector_printable)

lemma protections_printable:
  assumes "policy_ascii E" "validateDisruptionProtections E c = None"
  shows "list_all (\<lambda>d. typed protection_type (protection_val d)) (c_DisruptionProtections c)"
proof -
  have "typed protection_type (protection_val d)" if "d \<in> set (c_DisruptionProtections c)" for d
  proof -
    have "ascii (d_Name d)" "ascii_selector (d_Selector d)" "d_Reason d = ''CriticalService'' \<or> d_Reason d = ''SingletonPath''"
      using that assms by (auto simp: validateDisruptionProtections_None dest: policy_asciiD(1) selector_printable)
    moreover from this(3) have "ascii (d_Reason d)" by (auto simp: ascii_Cons)
    ultimately show ?thesis by (simp add: typed_protection)
  qed
  then show ?thesis by (simp add: list_all_iff)
qed

lemma keys_printable: "policy_ascii E \<Longrightarrow> validateTopologyKeys E keys = None \<Longrightarrow> list_all ascii keys"
  by (auto simp: list_all_iff validateTopologyKeys_None topology_key_err_def dest: policy_asciiD(3))

lemma domain_limits_printable:
  assumes "list_all ascii required" "domain_limits_err required limits = None"
  shows "list_all (\<lambda>(k, v). ascii k \<and> small v) (gm_entries limits)"
  using assms by (auto simp: list_all_iff domain_limits_err_None set_gm_entries intro!: smallI) fastforce+

lemma config_ok_printable:
  assumes E: "policy_ascii E" and ok: "config_ok E c"
  shows "printable c"
proof -
  note parts = config_ok_parts [OF ok]
  have req: "list_all ascii (c_RequiredTopologyKeys c)" and "list_all ascii (projected_keys c)"
    using parts(7) keys_printable [OF E] by (auto simp: topology_err_def)
  moreover have "list_all ascii [c_AppHostingServiceAccountName c, c_NetworkManagementServiceAccountName c,
      c_ConfigLeaseNamespace c, c_Version c, c_LedgerName c]"
    using parts(1,6) policy_asciiD(1,2) [OF E] by (auto simp: accounts_err_def ascii_Cons)
  moreover have "list_all small [c_GlobalMaxConcurrentTransfers c, c_GlobalMaxUnavailable c, c_HealthFreshnessSeconds c,
      c_MaxCampaignTargets c, c_MaxActiveReservations c, c_MaxLedgerBytes c]"
    using parts(3) by (auto simp: limits_err_None intro!: smallI)
  moreover have "list_all (\<lambda>(k, v). ascii k \<and> small v) (gm_entries (c_DomainMaxConcurrentTransfers c))"
    "list_all (\<lambda>(k, v). ascii k \<and> small v) (gm_entries (c_DomainMaxUnavailable c))"
    using parts(8) domain_limits_printable [OF req] by (simp_all add: domain_budgets_err_def)
  moreover have "typed (TPtr drain_type) (GPtr (map_option drain_val (c_WorkloadDrain c)))"
    using parts(9) drain_printable [OF E] by (cases "c_WorkloadDrain c") (simp, simp del: typed.simps)
  ultimately show ?thesis
    using fleet_printable [OF E parts(2)] protections_printable [OF E parts(4)] groups_printable [OF E parts(5)]
    by (simp add: printable_def)
qed

theorem CanonicalPolicyJSON_reads_back:
  assumes "policy_ascii E" "CanonicalPolicyJSON E cfg = Inr data"
  shows "decode_strict config_type data = Value (config_val (with_defaults cfg))"
  using assms
  by (auto simp: CanonicalPolicyJSON_def validateAdminPolicyConfig_Inr split: sum.splits
      intro!: decode_Marshal typed_config config_ok_printable)

section \<open>The hashes ignore the order of collections\<close>

text \<open>The two configurations differ only in the order of collections.\<close>

definition same_drain :: "admin_drain option \<Rightarrow> admin_drain option \<Rightarrow> bool" where
  "same_drain = rel_option (\<lambda>d d'. mset (dr_AllowedNamespaces d') = mset (dr_AllowedNamespaces d) \<and>
     d'\<lparr> dr_AllowedNamespaces := dr_AllowedNamespaces d \<rparr> = d)"

definition reordered :: "admin_config \<Rightarrow> admin_config \<Rightarrow> bool" where
  "reordered c c' \<longleftrightarrow>
     mset (c_RequiredTopologyKeys c') = mset (c_RequiredTopologyKeys c) \<and>
     mset (projected_keys c') = mset (projected_keys c) \<and>
     mset (c_DisruptionProtections c') = mset (c_DisruptionProtections c) \<and>
     mset (c_RiskGroups c') = mset (c_RiskGroups c) \<and>
     same_drain (c_WorkloadDrain c) (c_WorkloadDrain c') \<and>
     c'\<lparr> c_RequiredTopologyKeys := c_RequiredTopologyKeys c, c_ProjectedTopologyKeys := c_ProjectedTopologyKeys c,
         c_DisruptionProtections := c_DisruptionProtections c, c_RiskGroups := c_RiskGroups c,
         c_WorkloadDrain := c_WorkloadDrain c \<rparr> = c"

lemma mset_transfer:
  assumes "mset xs' = mset xs"
  shows "set xs' = set xs" "length xs' = length xs" "distinct (map f xs') \<longleftrightarrow> distinct (map f xs)"
  using mset_eq_setD [OF assms] mset_eq_length [OF assms] mset_eq_imp_distinct_iff [of "map f xs'" "map f xs"] assms
  by simp_all

lemma reordered_fields:
  assumes "reordered c c'"
  shows "c_AppHostingServiceAccountName c' = c_AppHostingServiceAccountName c"
    "c_NetworkManagementServiceAccountName c' = c_NetworkManagementServiceAccountName c"
    "c_ConfigLeaseNamespace c' = c_ConfigLeaseNamespace c" "c_Version c' = c_Version c"
    "c_FleetSelector c' = c_FleetSelector c" "c_GlobalMaxConcurrentTransfers c' = c_GlobalMaxConcurrentTransfers c"
    "c_GlobalMaxUnavailable c' = c_GlobalMaxUnavailable c"
    "c_DomainMaxConcurrentTransfers c' = c_DomainMaxConcurrentTransfers c"
    "c_DomainMaxUnavailable c' = c_DomainMaxUnavailable c" "c_HealthFreshnessSeconds c' = c_HealthFreshnessSeconds c"
    "c_MaxCampaignTargets c' = c_MaxCampaignTargets c" "c_MaxActiveReservations c' = c_MaxActiveReservations c"
    "c_MaxLedgerBytes c' = c_MaxLedgerBytes c" "c_LedgerName c' = c_LedgerName c"
  using assms unfolding reordered_def by (cases c; cases c'; simp)+

lemma reordered_msets:
  assumes "reordered c c'"
  shows "mset (c_RequiredTopologyKeys c') = mset (c_RequiredTopologyKeys c)"
    "mset (projected_keys c') = mset (projected_keys c)"
    "mset (c_DisruptionProtections c') = mset (c_DisruptionProtections c)"
    "mset (c_RiskGroups c') = mset (c_RiskGroups c)" "same_drain (c_WorkloadDrain c) (c_WorkloadDrain c')"
  using assms by (simp_all only: reordered_def)

lemma same_drain_ok:
  assumes "same_drain (Some d) (Some d')" "drain_policy_err E d = None"
  shows "drain_policy_err E d' = None"
proof -
  have m: "mset (dr_AllowedNamespaces d') = mset (dr_AllowedNamespaces d)"
    and eq: "d'\<lparr> dr_AllowedNamespaces := dr_AllowedNamespaces d \<rparr> = d"
    using assms(1) by (auto simp: same_drain_def)
  then have "dr_MaxTimeoutSeconds d' = dr_MaxTimeoutSeconds d" "dr_MaxPods d' = dr_MaxPods d"
    "dr_MaxTerminationGraceSeconds d' = dr_MaxTerminationGraceSeconds d"
    by (cases d; cases d'; simp)+
  with assms(2) show ?thesis
    using mset_transfer(1,2) [OF m] mset_transfer(3) [OF m, of "\<lambda>x. x"]
    by (simp add: drain_policy_err_def named_items_err_None)
qed

lemma selector_err_cong: "set required' = set required \<Longrightarrow> selector_err E required' sel = selector_err E required sel"
  by (simp add: selector_err_def)

lemma reordered_ok:
  assumes r: "reordered c c'" and ok: "config_ok E c"
  shows "config_ok E c'"
proof -
  note f = reordered_fields [OF r] and m = reordered_msets [OF r] and parts = config_ok_parts [OF ok]
  have req: "set (c_RequiredTopologyKeys c') = set (c_RequiredTopologyKeys c)" by (rule mset_transfer(1) [OF m(1)])
  have "accounts_err E c' = None" using parts(1) f by (simp add: accounts_err_def)
  moreover have "fleet_selector_err E (c_FleetSelector c') = None" using parts(2) f by simp
  moreover have "limits_err c' = None" using parts(3) f by (simp add: limits_err_def)
  moreover have "(case c_WorkloadDrain c' of None \<Rightarrow> None | Some drain \<Rightarrow> drain_policy_err E drain) = None"
    using m(5) parts(9) same_drain_ok by (cases "c_WorkloadDrain c'"; cases "c_WorkloadDrain c") (auto simp: same_drain_def)
  moreover have "validateDisruptionProtections E c' = None"
    using parts(4) mset_transfer(1,2) [OF m(3)] mset_transfer(3) [OF m(3), of d_Name]
    by (simp add: validateDisruptionProtections_None selector_err_cong [OF req])
  moreover have "validateRiskGroups E c' = None"
    using parts(5) mset_transfer(1,2) [OF m(4)] mset_transfer(3) [OF m(4), of g_Name]
    by (simp add: validateRiskGroups_None group_ok_def selector_err_cong [OF req])
  moreover have "IsDNS1123Subdomain E (c_LedgerName c')" using parts(6) f by simp
  moreover have "topology_err E c' = None"
    using parts(7) mset_transfer(1,2) [OF m(1)] mset_transfer(1,2) [OF m(2)]
      mset_transfer(3) [OF m(1), of "\<lambda>x. x"] mset_transfer(3) [OF m(2), of "\<lambda>x. x"]
    by (auto simp: topology_err_def validateTopologyKeys_None projected_key_err_def)
  moreover have "domain_budgets_err c' = None"
    using parts(8) f req by (simp add: domain_budgets_err_def domain_limits_err_def)
  ultimately show ?thesis by (simp add: config_ok_def config_err_def)
qed

lemma sort_key_reordered:
  assumes "mset xs' = mset xs" "distinct (map f xs)" "\<And>x. f (h x) = f x"
  shows "sort_key f (map h xs') = sort_key f (map h xs)"
proof (rule sort_key_inj_key_eq)
  show "mset (map h xs') = mset (sort_key f (map h xs))" using assms(1) by simp
  have "inj_on f (h ` set xs)" using assms(2,3) by (auto simp: inj_on_def distinct_map)
  then show "inj_on f (set (map h xs'))" using mset_eq_setD [OF assms(1)] by simp
qed simp

lemma canonical_reordered:
  assumes r: "reordered c c'" and ok: "config_ok E c"
  shows "canonicalizePolicyCollections (cloneAdminPolicyConfig c') = canonicalizePolicyCollections (cloneAdminPolicyConfig c)"
proof -
  note f = reordered_fields [OF r] and m = reordered_msets [OF r] and parts = config_ok_parts [OF ok]
  have "sort (c_RequiredTopologyKeys c') = sort (c_RequiredTopologyKeys c)"
    using m(1) by (metis mset_sort properties_for_sort sorted_sort)
  moreover have "sort (projected_keys c') = sort (projected_keys c)" "projected_keys c' = [] \<longleftrightarrow> projected_keys c = []"
    using m(2) by (metis mset_sort properties_for_sort sorted_sort, metis mset_zero_iff)
  moreover have "map_option (\<lambda>d. d\<lparr> dr_AllowedNamespaces := sort (dr_AllowedNamespaces d) \<rparr>) (c_WorkloadDrain c')
      = map_option (\<lambda>d. d\<lparr> dr_AllowedNamespaces := sort (dr_AllowedNamespaces d) \<rparr>) (c_WorkloadDrain c)"
  proof (cases "c_WorkloadDrain c")
    case (Some d)
    then obtain d' where d': "c_WorkloadDrain c' = Some d'" "mset (dr_AllowedNamespaces d') = mset (dr_AllowedNamespaces d)"
      "d'\<lparr> dr_AllowedNamespaces := dr_AllowedNamespaces d \<rparr> = d"
      using m(5) by (cases "c_WorkloadDrain c'") (auto simp: same_drain_def)
    have "sort (dr_AllowedNamespaces d') = sort (dr_AllowedNamespaces d)"
      using d'(2) by (metis mset_sort properties_for_sort sorted_sort)
    then show ?thesis using Some d'(1,3) by (cases d; cases d') simp
  qed (use m(5) in \<open>simp add: same_drain_def\<close>)
  moreover have "sort_key d_Name (map (\<lambda>d. d\<lparr> d_Selector := canonicalizeLabelSelector (d_Selector d) \<rparr>) (c_DisruptionProtections c'))
      = sort_key d_Name (map (\<lambda>d. d\<lparr> d_Selector := canonicalizeLabelSelector (d_Selector d) \<rparr>) (c_DisruptionProtections c))"
    using parts(4) by (intro sort_key_reordered [OF m(3)]) (auto simp: validateDisruptionProtections_None)
  moreover have "sort_key g_Name (map (\<lambda>g. g\<lparr> g_Selector := canonicalizeLabelSelector (g_Selector g) \<rparr>) (c_RiskGroups c'))
      = sort_key g_Name (map (\<lambda>g. g\<lparr> g_Selector := canonicalizeLabelSelector (g_Selector g) \<rparr>) (c_RiskGroups c))"
    using parts(5) by (intro sort_key_reordered [OF m(4)]) (auto simp: validateRiskGroups_None)
  ultimately show ?thesis
    using f unfolding canonicalizePolicyCollections_def cloneAdminPolicyConfig_def by simp
qed

lemma with_defaults_reordered:
  assumes "reordered c c'"
  shows "reordered (with_defaults c) (with_defaults c')"
proof -
  note f = reordered_fields [OF assms] and m = reordered_msets [OF assms]
  have "same_drain (c_WorkloadDrain (with_defaults c)) (c_WorkloadDrain (with_defaults c'))"
  proof (cases "c_WorkloadDrain c")
    case (Some d)
    then obtain d' where d': "c_WorkloadDrain c' = Some d'" "mset (dr_AllowedNamespaces d') = mset (dr_AllowedNamespaces d)"
      "d'\<lparr> dr_AllowedNamespaces := dr_AllowedNamespaces d \<rparr> = d"
      using m(5) by (cases "c_WorkloadDrain c'") (auto simp: same_drain_def)
    then have "dr_Enabled d' = dr_Enabled d" by (cases d; cases d') simp
    with Some d' show ?thesis by (simp add: with_defaults_def same_drain_def)
  qed (use m(5) in \<open>simp add: same_drain_def with_defaults_def\<close>)
  with f m show ?thesis unfolding reordered_def by (cases c; cases c') (simp add: with_defaults_def)
qed

end
