(* ===== verification/Admin_Bootstrap.thy ===== *)
theory Admin_Bootstrap
  imports Admin_Document
begin

text \<open>
  \<^verbatim>\<open>BootstrapAdminPolicy\<close> of \<^verbatim>\<open>internal/topologyrollout/policy.go\<close>: the
  one-way binding of the policy ConfigMap to the ledger ConfigMap. The Kubernetes client is the
  record \<open>kube\<close>: a read of one object and a patch under an optimistic lock, which on success
  returns the object as the server stored it. Other writers act before each call; \<open>env i\<close> is
  what they do before the \<open>i\<close>-th call of an attempt.
\<close>

record 'w kube =
  k_get :: "string \<Rightarrow> string \<Rightarrow> 'w \<Rightarrow> api_error + full_map"
  k_patch :: "full_map \<Rightarrow> full_map \<Rightarrow> 'w \<Rightarrow> (api_error + full_map) \<times> 'w"

definition ReadAdminPolicyPreflight ::
  "'w kube \<Rightarrow> ext \<Rightarrow> string \<Rightarrow> string \<Rightarrow> 'w \<Rightarrow> store_err + admin_config \<times> string" where
  "ReadAdminPolicyPreflight K E ns name w =
     (if ns = [] \<or> name = [] then Inl (Refused (Plain ''administrator topology policy preflight is incomplete''))
      else case k_get K ns name w of
        Inl e \<Rightarrow> Inl (Failed e)
      | Inr cm \<Rightarrow> (case inspectAdminPolicy E cm of Inl e \<Rightarrow> Inl (Refused e) | Inr r \<Rightarrow> Inr r))"

text \<open>The ledger: an empty one is initialized unless the policy is bound already.\<close>

definition initialize_ledger ::
  "'w kube \<Rightarrow> ext \<Rightarrow> admin_config \<Rightarrow> full_map \<Rightarrow> string \<Rightarrow> (nat \<Rightarrow> 'w \<Rightarrow> 'w) \<Rightarrow> 'w \<Rightarrow> store_err option \<times> 'w" where
  "initialize_ledger K E cfg ledgerCM boundUID env w =
     (let rawLedger = TrimSpace (gm_str (cm_Data ledgerCM) LedgerDataKey)
      in if rawLedger = [] then
           (if boundUID \<noteq> [] then (Some (Refused (Wrapped ErrLedgerIdentity ''bound ledger is empty'')), w)
            else case NewLedger (cm_UID ledgerCM) of
              Inl e \<Rightarrow> (Some (Refused e), w)
            | Inr l \<Rightarrow>
                (case Encode l (c_MaxLedgerBytes cfg) of
                   Inl e \<Rightarrow> (Some (Refused e), w)
                 | Inr encoded \<Rightarrow>
                     (case k_patch K ledgerCM
                             (ledgerCM\<lparr> cm_Data := fmupd LedgerDataKey encoded (cm_Data ledgerCM) \<rparr>) (env 2 w) of
                        (Inl e, w') \<Rightarrow> (Some (Failed e), w')
                      | (Inr _, w') \<Rightarrow> (None, w'))))
         else case Decode E rawLedger (cm_UID ledgerCM) of
           Inl e \<Rightarrow> (Some (Refused e), w)
         | Inr _ \<Rightarrow> (None, w))"

definition parse_result :: "ext \<Rightarrow> full_map \<Rightarrow> store_err + parsed_policy" where
  "parse_result E cm = (case ParseAdminPolicy E cm of Inl e \<Rightarrow> Inl (Refused e) | Inr p \<Rightarrow> Inr p)"

definition bind_policy ::
  "'w kube \<Rightarrow> ext \<Rightarrow> full_map \<Rightarrow> string \<Rightarrow> string \<Rightarrow> (nat \<Rightarrow> 'w \<Rightarrow> 'w) \<Rightarrow> 'w \<Rightarrow> (store_err + parsed_policy) \<times> 'w" where
  "bind_policy K E policyCM ledgerUID boundUID env w =
     (if boundUID = [] then
        (case k_patch K policyCM
                (policyCM\<lparr> cm_Annotations := fmupd LedgerUIDAnnotation ledgerUID (cm_Annotations policyCM) \<rparr>) (env 3 w) of
           (Inl e, w') \<Rightarrow> (Inl (Failed e), w')
         | (Inr stored, w') \<Rightarrow> (parse_result E stored, w'))
      else (parse_result E policyCM, w))"

definition bootstrap_attempt ::
  "'w kube \<Rightarrow> ext \<Rightarrow> string \<Rightarrow> string \<Rightarrow> (nat \<Rightarrow> 'w \<Rightarrow> 'w) \<Rightarrow> 'w \<Rightarrow> (store_err + parsed_policy) \<times> 'w" where
  "bootstrap_attempt K E ns name env w =
     (let w0 = env 0 w; w1 = env 1 w0
      in case k_get K ns name w0 of
        Inl e \<Rightarrow> (Inl (Failed e), w0)
      | Inr policyCM \<Rightarrow>
          (case inspectAdminPolicy E policyCM of
             Inl e \<Rightarrow> (Inl (Refused e), w0)
           | Inr (cfg, prefix) \<Rightarrow>
               (case k_get K ns (c_LedgerName cfg) w1 of
                  Inl e \<Rightarrow> (Inl (Failed e), w1)
                | Inr ledgerCM \<Rightarrow>
                    if cm_UID ledgerCM = [] \<or> cm_ResourceVersion ledgerCM = []
                    then (Inl (Refused (Wrapped ErrLedgerIdentity ''rollout ledger has no Kubernetes identity'')), w1)
                    else let boundUID = TrimSpace (gm_str (cm_Annotations policyCM) LedgerUIDAnnotation)
                         in if boundUID \<noteq> [] \<and> boundUID \<noteq> cm_UID ledgerCM
                            then (Inl (Refused (Wrapped ErrLedgerIdentity ''policy binds another ledger object'')), w1)
                            else case initialize_ledger K E cfg ledgerCM boundUID env w1 of
                              (Some e, w2) \<Rightarrow> (Inl e, w2)
                            | (None, w2) \<Rightarrow> bind_policy K E policyCM (cm_UID ledgerCM) boundUID env w2)))"

fun bootstrap_loop ::
  "nat \<Rightarrow> 'w kube \<Rightarrow> ext \<Rightarrow> string \<Rightarrow> string \<Rightarrow> (nat \<Rightarrow> nat \<Rightarrow> 'w \<Rightarrow> 'w) \<Rightarrow> 'w \<Rightarrow> (store_err + parsed_policy) \<times> 'w" where
  "bootstrap_loop 0 K E ns name env w = (Inl (Failed Conflict), w)"
| "bootstrap_loop (Suc n) K E ns name env w =
     (case bootstrap_attempt K E ns name (env n) w of
        (Inl (Failed Conflict), w') \<Rightarrow>
          if n = 0 then (Inl (Failed Conflict), w') else bootstrap_loop n K E ns name env w'
      | result \<Rightarrow> result)"

text \<open>\<^verbatim>\<open>retry.DefaultBackoff\<close> makes at most four attempts.\<close>

definition BootstrapAdminPolicy ::
  "'w kube \<Rightarrow> ext \<Rightarrow> string \<Rightarrow> string \<Rightarrow> (nat \<Rightarrow> nat \<Rightarrow> 'w \<Rightarrow> 'w) \<Rightarrow> 'w \<Rightarrow> (store_err + parsed_policy) \<times> 'w" where
  "BootstrapAdminPolicy K E ns name env w =
     (if ns = [] \<or> name = [] then (Inl (Refused (Plain ''administrator topology policy bootstrap is incomplete'')), w)
      else bootstrap_loop 4 K E ns name env w)"

section \<open>Binding\<close>

lemma ParseAdminPolicy_Inr:
  assumes "ParseAdminPolicy E cm = Inr p"
  shows "inspectAdminPolicy E cm = Inr (pp_Config p, pp_AdmissionPrefix p)"
    "pp_LedgerUID p = TrimSpace (gm_str (cm_Annotations cm) LedgerUIDAnnotation)" "pp_LedgerUID p \<noteq> []"
    "pp_PolicyUID p = cm_UID cm" "pp_ResourceVersion p = cm_ResourceVersion cm"
    "pp_HealthFreshness p = c_HealthFreshnessSeconds (pp_Config p) * second"
  using assms by (auto simp: ParseAdminPolicy_def Let_def split: sum.splits option.splits if_splits)

lemma inspectAdminPolicy_Inr:
  assumes "inspectAdminPolicy E cm = Inr (cfg, prefix)"
  shows "decodeAdminPolicyConfig E cm = Inr cfg" "config_ok E cfg" "cm_UID cm \<noteq> []" "cm_ResourceVersion cm \<noteq> []"
    "IsDNS1123Subdomain E prefix" "with_defaults cfg = cfg"
  using assms
  by (auto simp: inspectAdminPolicy_def Let_def decodeAdminPolicyConfig_def validateAdminPolicyConfig_Inr
      split: sum.splits if_splits decoded.splits)

text \<open>What a successful attempt has established.\<close>

lemma bootstrap_attempt_Inr:
  assumes "bootstrap_attempt K E ns name env w = (Inr p, w')"
  obtains policyCM cfg prefix ledgerCM w2 where
    "k_get K ns name (env 0 w) = Inr policyCM" "inspectAdminPolicy E policyCM = Inr (cfg, prefix)"
    "k_get K ns (c_LedgerName cfg) (env 1 (env 0 w)) = Inr ledgerCM" "cm_UID ledgerCM \<noteq> []"
    "TrimSpace (gm_str (cm_Annotations policyCM) LedgerUIDAnnotation) \<in> {[], cm_UID ledgerCM}"
    "initialize_ledger K E cfg ledgerCM (TrimSpace (gm_str (cm_Annotations policyCM) LedgerUIDAnnotation)) env
       (env 1 (env 0 w)) = (None, w2)"
    "bind_policy K E policyCM (cm_UID ledgerCM) (TrimSpace (gm_str (cm_Annotations policyCM) LedgerUIDAnnotation)) env w2
       = (Inr p, w')"
  using assms unfolding bootstrap_attempt_def Let_def
  by (auto split: sum.splits prod.splits option.splits if_splits)

text \<open>A bound policy is only read: no call of an attempt patches anything.\<close>

lemma initialize_ledger_bound:
  "boundUID \<noteq> [] \<Longrightarrow> initialize_ledger (K\<lparr> k_patch := f \<rparr>) E cfg ledgerCM boundUID env w
     = initialize_ledger K E cfg ledgerCM boundUID env w"
  by (simp add: initialize_ledger_def)

lemma bind_policy_bound:
  "boundUID \<noteq> [] \<Longrightarrow> bind_policy K E policyCM ledgerUID boundUID env w = (parse_result E policyCM, w)"
  by (simp add: bind_policy_def)

lemma bootstrap_attempt_bound:
  assumes "k_get K ns name (env 0 w) = Inr policyCM" "TrimSpace (gm_str (cm_Annotations policyCM) LedgerUIDAnnotation) \<noteq> []"
  shows "bootstrap_attempt (K\<lparr> k_patch := f \<rparr>) E ns name env w = bootstrap_attempt K E ns name env w"
  using assms unfolding bootstrap_attempt_def Let_def
  by (simp add: initialize_ledger_bound bind_policy_bound split: sum.split prod.split option.split)

section \<open>An undisturbed bootstrap completes\<close>

text \<open>
  Documented behaviour of the API server without other writers: a patch of the object as it is
  stored succeeds, the object read afterwards is the one the patch returned, it has the new data
  and annotations under the same identity, and no other object changes.
\<close>

definition applies :: "'w kube \<Rightarrow> bool" where
  "applies K \<longleftrightarrow>
     (\<forall>before after w. k_get K (cm_Namespace before) (cm_Name before) w = Inr before \<longrightarrow>
        (\<exists>new w'. k_patch K before after w = (Inr new, w') \<and>
           k_get K (cm_Namespace before) (cm_Name before) w' = Inr new \<and>
           cm_UID new = cm_UID before \<and> cm_ResourceVersion new \<noteq> [] \<and>
           cm_Data new = cm_Data after \<and> cm_Annotations new = cm_Annotations after \<and>
           (\<forall>ns name. (ns, name) \<noteq> (cm_Namespace before, cm_Name before) \<longrightarrow> k_get K ns name w' = k_get K ns name w)))"

text \<open>Objects are stored under their own name.\<close>

definition addressed :: "'w kube \<Rightarrow> bool" where
  "addressed K \<longleftrightarrow> (\<forall>ns name w cm. k_get K ns name w = Inr cm \<longrightarrow> cm_Namespace cm = ns \<and> cm_Name cm = name)"

lemma applies_at:
  assumes "applies K" "addressed K" "k_get K ns name w = Inr before"
  obtains new w' where "k_patch K before after w = (Inr new, w')" "k_get K ns name w' = Inr new"
    "cm_UID new = cm_UID before" "cm_ResourceVersion new \<noteq> []" "cm_Data new = cm_Data after"
    "cm_Annotations new = cm_Annotations after" "\<And>n. n \<noteq> name \<Longrightarrow> k_get K ns n w' = k_get K ns n w"
proof -
  have here: "cm_Namespace before = ns" "cm_Name before = name"
    using assms(2,3) by (auto simp: addressed_def)
  from assms(1) [unfolded applies_def, rule_format, of before w after] obtain new w'
    where "k_patch K before after w = (Inr new, w')" "k_get K ns name w' = Inr new"
      "cm_UID new = cm_UID before" "cm_ResourceVersion new \<noteq> []" "cm_Data new = cm_Data after"
      "cm_Annotations new = cm_Annotations after" "\<forall>ns' n. (ns', n) \<noteq> (ns, name) \<longrightarrow> k_get K ns' n w' = k_get K ns' n w"
    using assms(3) unfolding here by blast
  with that show ?thesis by blast
qed

lemma length_escape: "length (escape s) \<le> 6 * length s"
proof (induction s rule: escape.induct)
  case (2 c s)
  let ?w = "utf8_width (c # s)"
  have byte: "length (escape_byte c) \<le> 6" by (simp add: escape_byte_def)
  show ?case
  proof (cases "byte_of c < 0x80")
    case True
    with 2(1) byte show ?thesis by auto
  next
    case False
    show ?thesis
    proof (cases "?w = 0")
      case True
      with 2(2) False show ?thesis by simp
    next
      case wide: False
      have "length (escape (drop (?w - 1) s)) \<le> 6 * (length s - (?w - 1))" using 2(3) False wide by simp
      moreover have "length (take ?w (c # s)) \<le> 6 + 6 * (?w - 1)" "?w - 1 \<le> length s \<or> length (take ?w (c # s)) \<le> 6 + 6 * length s"
        by auto
      ultimately show ?thesis using False wide by auto
    qed
  qed
qed simp

lemma new_ledger_json:
  "render (ledger_json \<lparr> l_Version = LedgerVersion, l_UID = uid, l_Reservations = fmempty, l_LastReleaseFence = None \<rparr>)
     = ''{'' @ quote ''version'' @ '':'' @ quote ''v1'' @ '','' @ quote ''uid'' @ '':'' @ quote uid @ '','' @
       quote ''reservations'' @ '':{}}''"
  by (simp add: ledger_json_def)

lemma new_ledger_encodes:
  assumes uid: "validBoundedIdentity uid 128" and "4096 \<le> limit" "limit \<le> 262144"
  obtains l data where "NewLedger uid = Inr l" "Encode l limit = Inr data" "TrimSpace uid = uid" "ledger_wf E l"
    "ledger_storable l" "l_UID l = uid"
proof -
  let ?l = "\<lparr> l_Version = LedgerVersion, l_UID = uid, l_Reservations = fmempty, l_LastReleaseFence = None \<rparr> :: ledger"
  have u: "TrimSpace uid = uid" "uid \<noteq> []" "length uid \<le> 128"
    using uid by (auto simp: validBoundedIdentity_def split: if_splits)
  have "length (quote ''version'') \<le> 44" "length (quote ''v1'') \<le> 14" "length (quote ''uid'') \<le> 20"
    "length (quote ''reservations'') \<le> 74" "length (quote uid) \<le> 770"
    using length_escape [of "''version''"] length_escape [of "''v1''"] length_escape [of "''uid''"]
      length_escape [of "''reservations''"] length_escape [of uid] u(3) by (simp_all add: quote_def)
  then have "length (render (ledger_json ?l)) \<le> 4096"
    unfolding new_ledger_json by simp
  then have "Encode ?l limit = Inr (render (ledger_json ?l))"
    using assms(2,3) u by (simp add: Encode_def Let_def)
  moreover have "NewLedger uid = Inr ?l" using u by (simp add: NewLedger_def)
  moreover have "ledger_wf E ?l"
    using uid by (simp add: validatePersistedLedger_iff [symmetric] validatePersistedLedger_def gm_len_def)
  moreover have "ledger_storable ?l"
    by (simp add: ledger_storable_def gm_vals_def)
  ultimately show ?thesis using that u(1) by simp
qed

lemma inspect_stored:
  assumes inspect: "inspectAdminPolicy E cm = Inr (cfg, prefix)" and new: "cm_UID new = cm_UID cm" "cm_ResourceVersion new \<noteq> []"
    "cm_Data new = cm_Data cm" "cm_Annotations new = fmupd LedgerUIDAnnotation uid (cm_Annotations cm)"
  shows "inspectAdminPolicy E new = Inr (cfg, prefix)"
proof -
  note cm = inspectAdminPolicy_Inr [OF inspect]
  have kept: "fmlookup (cm_Annotations new) PolicyManagedAnnotation = fmlookup (cm_Annotations cm) PolicyManagedAnnotation"
    "fmlookup (cm_Annotations new) AdmissionPrefixAnnotation = fmlookup (cm_Annotations cm) AdmissionPrefixAnnotation"
    "fmlookup (cm_Annotations new) ConfigLeaseNamespaceAnnotation = fmlookup (cm_Annotations cm) ConfigLeaseNamespaceAnnotation"
    using new(4) by simp_all
  have "decodeAdminPolicyConfig E new = decodeAdminPolicyConfig E cm"
    unfolding decodeAdminPolicyConfig_def gm_str_def kept new(1,3) using cm(3,4) new(2) by simp
  then show ?thesis
    using inspect unfolding inspectAdminPolicy_def gm_str_def kept by simp
qed

lemma bind_policy_completes:
  assumes "applies K" "addressed K" "k_get K ns name w = Inr policyCM" "inspectAdminPolicy E policyCM = Inr (cfg, prefix)"
    and uid: "TrimSpace uid = uid" "uid \<noteq> []"
  obtains p w' where "bind_policy K E policyCM uid [] (\<lambda>_ w. w) w = (Inr p, w')" "pp_Config p = cfg" "pp_LedgerUID p = uid"
    "\<And>n. n \<noteq> name \<Longrightarrow> k_get K ns n w' = k_get K ns n w"
    "\<exists>stored. k_get K ns name w' = Inr stored \<and> gm_str (cm_Annotations stored) LedgerUIDAnnotation = uid"
proof -
  let ?after = "policyCM\<lparr> cm_Annotations := fmupd LedgerUIDAnnotation uid (cm_Annotations policyCM) \<rparr>"
  obtain new w' where new: "k_patch K policyCM ?after w = (Inr new, w')" "k_get K ns name w' = Inr new"
    "cm_UID new = cm_UID policyCM" "cm_ResourceVersion new \<noteq> []" "cm_Data new = cm_Data policyCM"
    "cm_Annotations new = fmupd LedgerUIDAnnotation uid (cm_Annotations policyCM)"
    "\<And>n. n \<noteq> name \<Longrightarrow> k_get K ns n w' = k_get K ns n w"
    by (rule applies_at [OF assms(1-3), of ?after]) simp
  obtain selector where "LabelSelectorAsSelector E (c_FleetSelector cfg) = Some selector"
    using config_ok_parts(2) [OF inspectAdminPolicy_Inr(2) [OF assms(4)]] by (auto simp: fleet_selector_err_def)
  moreover have "inspectAdminPolicy E new = Inr (cfg, prefix)" by (rule inspect_stored [OF assms(4) new(3,4,5,6)])
  ultimately obtain p where p: "ParseAdminPolicy E new = Inr p" "pp_Config p = cfg" "pp_LedgerUID p = uid"
    using uid new(6) by (auto simp: ParseAdminPolicy_def gm_str_def)
  show ?thesis
    by (rule that [of p w']) (use p new in \<open>simp_all add: bind_policy_def parse_result_def gm_str_def\<close>)
qed

theorem bootstrap_completes:
  assumes K: "applies K" "addressed K"
    and policy: "k_get K ns name w = Inr policyCM" "inspectAdminPolicy E policyCM = Inr (cfg, prefix)"
    and unbound: "TrimSpace (gm_str (cm_Annotations policyCM) LedgerUIDAnnotation) = []"
    and ledger: "k_get K ns (c_LedgerName cfg) w = Inr ledgerCM" "validBoundedIdentity (cm_UID ledgerCM) 128"
      "cm_ResourceVersion ledgerCM \<noteq> []" "TrimSpace (gm_str (cm_Data ledgerCM) LedgerDataKey) = []"
    and names: "c_LedgerName cfg \<noteq> name" "ns \<noteq> []" "name \<noteq> []"
  obtains p w' data l stored where "BootstrapAdminPolicy K E ns name (\<lambda>_ _ w. w) w = (Inr p, w')"
    "pp_Config p = cfg" "pp_LedgerUID p = cm_UID ledgerCM" "k_get K ns (c_LedgerName cfg) w' = Inr stored"
    "gm_str (cm_Data stored) LedgerDataKey = data" "Encode l (c_MaxLedgerBytes cfg) = Inr data"
    "NewLedger (cm_UID ledgerCM) = Inr l"
proof -
  have lim: "4096 \<le> c_MaxLedgerBytes cfg" "c_MaxLedgerBytes cfg \<le> 262144"
    using config_ok_parts(3) [OF inspectAdminPolicy_Inr(2) [OF policy(2)]] by (auto simp: limits_err_None)
  obtain l data where l: "NewLedger (cm_UID ledgerCM) = Inr l" "Encode l (c_MaxLedgerBytes cfg) = Inr data"
    "TrimSpace (cm_UID ledgerCM) = cm_UID ledgerCM"
    using new_ledger_encodes [OF ledger(2) lim] by metis
  have uid: "cm_UID ledgerCM \<noteq> []" using ledger(2) by (auto simp: validBoundedIdentity_def)
  let ?after = "ledgerCM\<lparr> cm_Data := fmupd LedgerDataKey data (cm_Data ledgerCM) \<rparr>"
  obtain new w1 where new: "k_patch K ledgerCM ?after w = (Inr new, w1)" "k_get K ns (c_LedgerName cfg) w1 = Inr new"
    "cm_Data new = fmupd LedgerDataKey data (cm_Data ledgerCM)" "k_get K ns name w1 = Inr policyCM"
    by (rule applies_at [OF K ledger(1), of ?after]) (use names(1) policy(1) in simp)
  have init: "initialize_ledger K E cfg ledgerCM [] (\<lambda>_ w. w) w = (None, w1)"
    using ledger(4) l new(1) by (simp add: initialize_ledger_def)
  obtain p w' where p: "bind_policy K E policyCM (cm_UID ledgerCM) [] (\<lambda>_ w. w) w1 = (Inr p, w')" "pp_Config p = cfg"
    "pp_LedgerUID p = cm_UID ledgerCM" "k_get K ns (c_LedgerName cfg) w' = Inr new"
    using bind_policy_completes [OF K new(4) policy(2) l(3) uid] names(1) new(2) by metis
  have "bootstrap_attempt K E ns name (\<lambda>_ w. w) w = (Inr p, w')"
    using policy unbound ledger(1,3) uid init p(1) by (simp add: bootstrap_attempt_def)
  then have "BootstrapAdminPolicy K E ns name (\<lambda>_ _ w. w) w = (Inr p, w')"
    using names(2,3) by (simp add: BootstrapAdminPolicy_def eval_nat_numeral)
  then show ?thesis using that p l new(3) by (simp add: gm_str_def)
qed

end
