(* ===== verification/Policy_Properties.thy ===== *)
theory Policy_Properties
  imports Admin_Bootstrap Rollout_Examples
begin

text \<open>
  What the administrator policy promises: its budgets are admissible, its decisions respect every
  limit, its document and hashes determine its meaning, and it is bound to one ledger for good.
\<close>

section \<open>A concrete policy\<close>

definition ex_site :: string where "ex_site = ''topology.cisco.vk/site''"
definition ex_rack :: string where "ex_rack = ''topology.cisco.vk/rack''"

definition ex_selector :: "string \<Rightarrow> string \<Rightarrow> label_selector" where
  "ex_selector key value = \<lparr> MatchLabels = fmap_of_list [(key, value)], MatchExpressions = [] \<rparr>"

definition ex_ring_a :: admin_risk_group where
  "ex_ring_a = \<lparr> g_Name = ''ring-a'', g_Selector = ex_selector ex_rack ''r1'', g_MaxConcurrentTransfers = 2,
     g_MaxUnavailable = 1, g_MaxAggregateTransferBytesPerSecond = 901 \<rparr>"

definition ex_ring_b :: admin_risk_group where
  "ex_ring_b = \<lparr> g_Name = ''ring-b'', g_Selector = ex_selector ex_site ''a'', g_MaxConcurrentTransfers = 3,
     g_MaxUnavailable = 2, g_MaxAggregateTransferBytesPerSecond = 1000 \<rparr>"

definition ex_core_rule :: admin_protection where
  "ex_core_rule = \<lparr> d_Name = ''core'', d_Reason = ''CriticalService'', d_Selector = ex_selector ex_rack ''r1'' \<rparr>"

definition ex_config :: admin_config where
  "ex_config =
     \<lparr> c_AppHostingServiceAccountName = ''apps'', c_NetworkManagementServiceAccountName = ''net'',
       c_ConfigLeaseNamespace = ''cisco'', c_Version = ''v1'', c_FleetSelector = ex_selector ex_site ''a'',
       c_RequiredTopologyKeys = [ex_site, ex_rack], c_ProjectedTopologyKeys = Some [ex_site],
       c_GlobalMaxConcurrentTransfers = 4, c_GlobalMaxUnavailable = 2,
       c_DomainMaxConcurrentTransfers = fmap_of_list [(ex_site, 2)], c_DomainMaxUnavailable = fmap_of_list [(ex_rack, 1)],
       c_HealthFreshnessSeconds = 300, c_MaxCampaignTargets = 100, c_MaxActiveReservations = 256, c_MaxLedgerBytes = 65536,
       c_WorkloadDrain = Some \<lparr> dr_Enabled = True, dr_AllowedNamespaces = [''prod'', ''lab''], dr_MaxTimeoutSeconds = 900,
         dr_MaxPods = 8, dr_MaxTerminationGraceSeconds = 60 \<rparr>,
       c_DisruptionProtections = [ex_core_rule], c_RiskGroups = [ex_ring_b, ex_ring_a], c_LedgerName = ''ledger'' \<rparr>"

definition ex_labels :: "string gomap" where
  "ex_labels = fmap_of_list [(ex_site, ''a''), (ex_rack, ''r1'')]"

definition ex_drain :: drain_spec where
  "ex_drain = \<lparr> ds_Namespaces = [''lab''], ds_TimeoutSeconds = 300, ds_MaxPods = 4, ds_MaxTerminationGraceSeconds = 30 \<rparr>"

text \<open>The policy object as the chart creates it, and the ledger object beside it.\<close>

definition ex_policy_cm :: full_map where
  "ex_policy_cm =
     \<lparr> cm_UID = ''policy-uid'', cm_ResourceVersion = ''7'',
       cm_Data = fmap_of_list [(PolicyDataKey, Marshal config_type (config_val ex_config))],
       cm_Namespace = ''fleet'', cm_Name = ''policy'',
       cm_Annotations = fmap_of_list [(PolicyManagedAnnotation, ''true''), (ConfigLeaseNamespaceAnnotation, ''cisco''),
         (AdmissionPrefixAnnotation, ''vk'')] \<rparr>"

definition ex_ledger_cm :: full_map where
  "ex_ledger_cm = \<lparr> cm_UID = ''ledger-uid'', cm_ResourceVersion = ''3'', cm_Data = fmempty, cm_Namespace = ''fleet'',
     cm_Name = ''ledger'', cm_Annotations = fmempty \<rparr>"

text \<open>A cluster that stores objects by namespace and name and patches under an optimistic lock.\<close>

type_synonym cluster = "(string \<times> string, full_map) fmap"

definition cluster_kube :: "cluster kube" where
  "cluster_kube =
     \<lparr> k_get = (\<lambda>ns name w. case fmlookup w (ns, name) of
          Some cm \<Rightarrow> if cm_Namespace cm = ns \<and> cm_Name cm = name then Inr cm else Inl (ApiError ''not found'')
        | None \<Rightarrow> Inl (ApiError ''not found'')),
       k_patch = (\<lambda>before after w. case fmlookup w (cm_Namespace before, cm_Name before) of
          Some cur \<Rightarrow>
            if cm_ResourceVersion cur = cm_ResourceVersion before
            then let new = cur\<lparr> cm_Data := cm_Data after, cm_Annotations := cm_Annotations after,
                                cm_ResourceVersion := cm_ResourceVersion cur @ ''+'' \<rparr>
                 in (Inr new, fmupd (cm_Namespace before, cm_Name before) new w)
            else (Inl Conflict, w)
        | None \<Rightarrow> (Inl (ApiError ''not found''), w)) \<rparr>"

definition ex_cluster :: cluster where
  "ex_cluster = fmap_of_list [((''fleet'', ''policy''), ex_policy_cm), ((''fleet'', ''ledger''), ex_ledger_cm)]"

lemma ex_config_ok: "config_ok example_ext ex_config"
  unfolding config_ok_def by code_simp

lemma ex_config_defaults: "with_defaults ex_config = ex_config"
  by code_simp

lemma cluster_applies: "applies cluster_kube"
  unfolding applies_def cluster_kube_def
  by (auto simp: Let_def split: option.splits if_splits)

lemma cluster_addressed: "addressed cluster_kube"
  unfolding addressed_def cluster_kube_def by (auto split: option.splits if_splits)

lemma example_policy_ascii: "policy_ascii example_ext"
proof -
  have key: "ascii s" if "list_all (\<lambda>c. name_char c \<or> c = CHR ''/'') s" for s
    using that by (auto simp: ascii_def list_all_iff name_char_def is_digit_def)
  have "ascii_selector sel" if "simple_selector sel" for sel
    using that unfolding simple_selector_def ascii_selector_def
    by (auto elim!: list.pred_mono_strong simp: key simple_name_ascii)
  moreover have "ascii s" if "simple_name s" for s
    using that by (simp add: simple_name_def simple_name_ascii)
  ultimately show ?thesis
    using example_ext_ascii by (auto simp: policy_ascii_def example_ext_def split: if_splits)
qed

lemma ex_inspect: "inspectAdminPolicy example_ext ex_policy_cm = Inr (ex_config, ''vk'')"
proof -
  have "decode_strict config_type (Marshal config_type (config_val ex_config)) = Value (config_val ex_config)"
    by (intro decode_Marshal typed_config config_ok_printable [OF example_policy_ascii ex_config_ok])
  moreover have "validateAdminPolicyConfig example_ext ex_config = Inr ex_config"
    by (simp add: validateAdminPolicyConfig_Inr ex_config_ok ex_config_defaults)
  moreover have "c_ConfigLeaseNamespace ex_config = ''cisco''" by (simp add: ex_config_def)
  ultimately have "decodeAdminPolicyConfig example_ext ex_policy_cm = Inr ex_config"
    by (simp add: decodeAdminPolicyConfig_def ex_policy_cm_def gm_str_def val_config_val)
  moreover have "LabelSelectorAsSelector example_ext (c_FleetSelector ex_config) \<noteq> None" by code_simp
  moreover have "IsDNS1123Subdomain example_ext (TrimSpace ''vk'')" by code_simp
  moreover have "TrimSpace ''vk'' = ''vk''" by code_simp
  ultimately show ?thesis by (simp add: inspectAdminPolicy_def ex_policy_cm_def gm_str_def)
qed

definition ex_bound_cm :: full_map where
  "ex_bound_cm = ex_policy_cm\<lparr> cm_Annotations := fmupd LedgerUIDAnnotation ''ledger-uid'' (cm_Annotations ex_policy_cm) \<rparr>"

lemma ex_parse:
  obtains p where "ParseAdminPolicy example_ext ex_bound_cm = Inr p" "pp_Config p = ex_config" "pp_PolicyUID p = ''policy-uid''"
    "pp_ResourceVersion p = ''7''" "pp_LedgerUID p = ''ledger-uid''"
proof -
  have "inspectAdminPolicy example_ext ex_bound_cm = Inr (ex_config, ''vk'')"
    by (rule inspect_stored [OF ex_inspect, where uid = "''ledger-uid''"]) (simp_all add: ex_bound_cm_def ex_policy_cm_def)
  moreover have "TrimSpace ''ledger-uid'' = ''ledger-uid''" by code_simp
  moreover obtain f where "LabelSelectorAsSelector example_ext (c_FleetSelector ex_config) = Some f"
  proof -
    have "LabelSelectorAsSelector example_ext (c_FleetSelector ex_config) \<noteq> None" by code_simp
    then show ?thesis using that by auto
  qed
  ultimately have "\<exists>p. ParseAdminPolicy example_ext ex_bound_cm = Inr p \<and> pp_Config p = ex_config \<and>
      pp_PolicyUID p = ''policy-uid'' \<and> pp_ResourceVersion p = ''7'' \<and> pp_LedgerUID p = ''ledger-uid''"
    by (simp add: ParseAdminPolicy_def gm_str_def) (simp add: ex_bound_cm_def ex_policy_cm_def)
  then show ?thesis using that by blast
qed

section \<open>Decisions\<close>

lemma AdmissionPolicy_groups:
  assumes "distinct (map g_Name (c_RiskGroups (pp_Config p)))"
  shows "fmlookup (p_RiskGroupBudgets (AdmissionPolicy p now)) k =
    map_option (\<lambda>g. \<lparr> b_MaxConcurrentTransfers = g_MaxConcurrentTransfers g, b_MaxUnavailable = g_MaxUnavailable g \<rparr>)
      (map_of (map (\<lambda>g. (g_Name g, g)) (c_RiskGroups (pp_Config p))) k)"
proof -
  let ?b = "\<lambda>g. \<lparr> b_MaxConcurrentTransfers = g_MaxConcurrentTransfers g, b_MaxUnavailable = g_MaxUnavailable g \<rparr>"
  let ?gs = "c_RiskGroups (pp_Config p)"
  have "foldl (\<lambda>m g. fmupd (g_Name g) (?b g) m) fmempty ?gs
      = foldl (\<lambda>m (k, v). fmupd k v m) fmempty (map (\<lambda>g. (g_Name g, ?b g)) ?gs)"
    by (simp add: foldl_map)
  moreover have "fmlookup (foldl (\<lambda>m (k, v). fmupd k v m) fmempty (map (\<lambda>g. (g_Name g, ?b g)) ?gs)) k
      = map_of (map (\<lambda>g. (g_Name g, ?b g)) ?gs) k"
    using assms fmlookup_foldl_upd [of "map (\<lambda>g. (g_Name g, ?b g)) ?gs" fmempty k] by (simp add: comp_def split: option.splits)
  moreover have "map_of (map (\<lambda>g. (g_Name g, ?b g)) gs) k = map_option ?b (map_of (map (\<lambda>g. (g_Name g, g)) gs) k)" for gs
    by (induction gs) auto
  ultimately show ?thesis by (simp add: AdmissionPolicy_def Let_def)
qed

text \<open>
  C18. A policy that parses never makes admission refuse on policy grounds: with the identity of
  the parsed policy and the risk groups it computes for the target, a complete request for a ledger
  passes \<^verbatim>\<open>validateInputs\<close> against the admission budgets derived from the policy, and
  each of its risk groups has a budget.
\<close>

theorem parsed_policy_admissible:
  assumes p: "ParseAdminPolicy E cm = Inr p" and groups: "RiskGroups E p deviceLabels = Inr (rq_RiskGroups q)"
    and q: "rq_PolicyUID q = pp_PolicyUID p" "rq_PolicyVersion q = pp_ResourceVersion p" "rq_PolicyEpoch q = 1"
      "validTopologyLockID (rq_TopologyLockID q)" "\<forall>value \<in> set (required_fields q). TrimSpace value \<noteq> []"
      "\<forall>key \<in> set (c_RequiredTopologyKeys (pp_Config p)). gm_str (rq_Domains q) key \<noteq> []"
    and l: "l_Version l = LedgerVersion" "l_UID l \<noteq> []"
  shows "validateInputs E l (AdmissionPolicy p now) q = None \<and>
    (\<forall>g \<in> set (rq_RiskGroups q). fmlookup (p_RiskGroupBudgets (AdmissionPolicy p now)) g \<noteq> None)"
proof -
  let ?cfg = "pp_Config p" and ?pol = "AdmissionPolicy p now"
  note inspect = inspectAdminPolicy_Inr [OF ParseAdminPolicy_Inr(1) [OF p]]
  note parts = config_ok_parts [OF inspect(2)]
  have dist: "distinct (map g_Name (c_RiskGroups ?cfg))" and len: "length (c_RiskGroups ?cfg) \<le> 16"
    and ok: "\<And>g. g \<in> set (c_RiskGroups ?cfg) \<Longrightarrow> group_ok E (c_RequiredTopologyKeys ?cfg) g"
    using parts(5) by (auto simp: validateRiskGroups_None)
  note look = AdmissionPolicy_groups [OF dist]
  have budget: "group_budget_err E (k, b) = None" if b: "fmlookup (p_RiskGroupBudgets ?pol) k = Some b" for k b
  proof -
    obtain g where "g \<in> set (c_RiskGroups ?cfg)" "k = g_Name g"
      "b = \<lparr> b_MaxConcurrentTransfers = g_MaxConcurrentTransfers g, b_MaxUnavailable = g_MaxUnavailable g \<rparr>"
      using b by (auto simp: look dest!: map_of_SomeD)
    with ok [of g] show ?thesis by (simp add: group_budget_err_def group_ok_def)
  qed
  have "fmdom' (p_RiskGroupBudgets ?pol) \<subseteq> set (map g_Name (c_RiskGroups ?cfg))"
    by (auto simp: fmlookup_dom'_iff look dest!: map_of_SomeD)
  then have "card (fmdom' (p_RiskGroupBudgets ?pol)) \<le> length (c_RiskGroups ?cfg)"
    by (metis List.finite_set card_mono card_length length_map order_trans)
  then have few: "gm_len (p_RiskGroupBudgets ?pol) \<le> 16" using len by (simp add: gm_len_card)
  have keys: "gm_str (rq_Domains q) key \<noteq> []" if "key \<in> fmdom' (c_DomainMaxUnavailable ?cfg) \<or>
      key \<in> fmdom' (c_DomainMaxConcurrentTransfers ?cfg)" for key
    using that parts(8) q(6) by (auto simp: domain_budgets_err_def domain_limits_err_None fmlookup_dom'_iff)
  have "1 \<le> c_GlobalMaxUnavailable ?cfg" "1 \<le> c_GlobalMaxConcurrentTransfers ?cfg"
    using parts(3) by (auto simp: limits_err_None)
  then have "validateInputs E l ?pol q = None"
    using q l few budget keys RiskGroups_valid(1) [OF groups] inspect(3,4) ParseAdminPolicy_Inr(4,5) [OF p]
    unfolding validateInputs_def or_err_None err_if_None first_err_None
    by (auto simp: set_gm_entries set_gm_keys AdmissionPolicy_def Let_def)
  moreover have "fmlookup (p_RiskGroupBudgets ?pol) g \<noteq> None" if "g \<in> set (rq_RiskGroups q)" for g
    using that RiskGroups_valid(2) [OF groups] by (auto simp: look map_of_eq_None_iff image_image)
  ultimately show ?thesis by blast
qed

definition ex_policy_request :: reservation_request where
  "ex_policy_request = (ex_request ''sw1'' ''r1'')
     \<lparr> rq_PolicyEpoch := 1, rq_RiskGroups := [''ring-a'', ''ring-b''], rq_Domains := ex_labels \<rparr>"

lemma ex_RiskGroups:
  assumes "pp_Config p = ex_config"
  shows "RiskGroups example_ext p ex_labels = Inr [''ring-a'', ''ring-b'']"
proof -
  have "validateRiskGroups example_ext ex_config = None" by (rule config_ok_parts [OF ex_config_ok])
  moreover have "sort (map g_Name (filter (\<lambda>g. matches example_ext (g_Selector g) ex_labels) (c_RiskGroups ex_config)))
      = [''ring-a'', ''ring-b'']"
    by code_simp
  ultimately show ?thesis by (simp add: RiskGroups_spec assms)
qed

theorem parsed_policy_admissible_witness:
  "\<exists>p. ParseAdminPolicy example_ext ex_bound_cm = Inr p \<and>
     validateInputs example_ext ex_empty (AdmissionPolicy p 0) ex_policy_request = None"
proof -
  obtain p where p: "ParseAdminPolicy example_ext ex_bound_cm = Inr p" "pp_Config p = ex_config"
    "pp_PolicyUID p = ''policy-uid''" "pp_ResourceVersion p = ''7''"
    by (rule ex_parse)
  have "validTopologyLockID (rq_TopologyLockID ex_policy_request)"
    "list_all (\<lambda>value. TrimSpace value \<noteq> []) (required_fields ex_policy_request)"
    "list_all (\<lambda>key. gm_str (rq_Domains ex_policy_request) key \<noteq> []) (c_RequiredTopologyKeys ex_config)"
    by code_simp+
  then have "validateInputs example_ext ex_empty (AdmissionPolicy p 0) ex_policy_request = None \<and>
    (\<forall>g \<in> set (rq_RiskGroups ex_policy_request). fmlookup (p_RiskGroupBudgets (AdmissionPolicy p 0)) g \<noteq> None)"
    using p ex_RiskGroups [OF p(2)]
    by (intro parsed_policy_admissible [where deviceLabels = ex_labels and cm = ex_bound_cm])
      (simp_all add: list_all_iff, simp_all add: ex_policy_request_def ex_request_def ex_empty_def)
  with p show ?thesis by blast
qed

text \<open>
  C19. The transfer rate is a safe share: for every risk group with an aggregate limit that a device
  matches, the rate times the group's transfer slots stays within the limit, so all slots together
  cannot exceed it; the rate is at least one byte per second, and zero (unpaced) only when no
  limited group matches.
\<close>

theorem transfer_rate_within_aggregate:
  assumes "MaxTransferBytesPerSecond E p deviceLabels = Inr rate"
  shows "0 \<le> rate \<and> rate \<le> 2 ^ 40 \<and>
    (rate = 0 \<longleftrightarrow> (\<forall>g \<in> set (c_RiskGroups (pp_Config p)). \<not> limited E deviceLabels g)) \<and>
    (\<forall>g \<in> set (c_RiskGroups (pp_Config p)). limited E deviceLabels g \<longrightarrow>
       rate * g_MaxConcurrentTransfers g \<le> g_MaxAggregateTransferBytesPerSecond g)"
proof -
  let ?gs = "c_RiskGroups (pp_Config p)"
  have ok: "\<forall>g \<in> set ?gs. group_ok E (c_RequiredTopologyKeys (pp_Config p)) g" and
    share: "transfer_share E deviceLabels 0 ?gs = Inr rate"
    using assms by (auto simp: MaxTransferBytesPerSecond_def validateRiskGroups_None split: option.splits)
  note spec = transfer_share_Inr [OF share ok order_refl]
  have "rate \<le> 2 ^ 40"
  proof (cases "\<exists>g \<in> set ?gs. limited E deviceLabels g")
    case True
    then obtain g where g: "g \<in> set ?gs" "limited E deviceLabels g" by blast
    then have "rate * 1 \<le> rate * g_MaxConcurrentTransfers g"
      using spec ok by (intro mult_left_mono) (auto simp: group_ok_def)
    also have "\<dots> \<le> 2 ^ 40" using spec ok g by (fastforce simp: group_ok_def)
    finally show ?thesis by simp
  qed (use spec in simp)
  with spec show ?thesis by simp
qed

definition ex_parsed :: parsed_policy where
  "ex_parsed = \<lparr> pp_Config = ex_config, pp_Selector = (\<lambda>_. True), pp_Namespace = ''fleet'', pp_Name = ''policy'',
     pp_LedgerUID = ''ledger-uid'', pp_PolicyUID = ''policy-uid'', pp_ResourceVersion = ''7'',
     pp_HealthFreshness = 300 * second, pp_AdmissionPrefix = ''vk'' \<rparr>"

theorem transfer_rate_within_aggregate_witness:
  "MaxTransferBytesPerSecond example_ext ex_parsed ex_labels = Inr 333 \<and>
     333 * g_MaxConcurrentTransfers ex_ring_b \<le> g_MaxAggregateTransferBytesPerSecond ex_ring_b"
proof -
  have rate: "MaxTransferBytesPerSecond example_ext ex_parsed ex_labels = Inr 333" by code_simp
  have "limited example_ext ex_labels ex_ring_b" by code_simp
  moreover have "ex_ring_b \<in> set (c_RiskGroups (pp_Config ex_parsed))" by (simp add: ex_parsed_def ex_config_def)
  ultimately show ?thesis using transfer_rate_within_aggregate [OF rate] rate by blast
qed

text \<open>
  C20. A campaign may drain workloads only within the administrator's caps: when
  \<^verbatim>\<open>ValidateWorkloadPolicy\<close> accepts a request for a drain, drain is enabled by the
  policy, every namespace is one the administrator allows, and the timeout, pod and grace limits are
  at most the caps, with the completion buffer left after the longest grace period. Any other
  accepted request does not drain.
\<close>

theorem workload_drain_within_caps:
  assumes "ValidateWorkloadPolicy E p spec = None"
  shows "case w_Drain spec of
      None \<Rightarrow> w_Policy spec = [] \<or> w_Policy spec = ''BlockIfRunning''
    | Some drain \<Rightarrow> w_Policy spec = ''Drain'' \<and>
        (\<exists>cap. c_WorkloadDrain (pp_Config p) = Some cap \<and> dr_Enabled cap \<and>
           set (ds_Namespaces drain) \<subseteq> set (dr_AllowedNamespaces cap) \<and> ds_Namespaces drain \<noteq> [] \<and>
           distinct (ds_Namespaces drain) \<and>
           ds_TimeoutSeconds drain \<le> dr_MaxTimeoutSeconds cap \<and> ds_MaxPods drain \<le> dr_MaxPods cap \<and>
           ds_MaxTerminationGraceSeconds drain \<le> dr_MaxTerminationGraceSeconds cap \<and>
           ds_MaxTerminationGraceSeconds drain + 120 \<le> ds_TimeoutSeconds drain)"
proof (cases "w_Drain spec")
  case None
  with assms show ?thesis
    by (auto simp: ValidateWorkloadPolicy_def Let_def split: sum.splits option.splits if_splits)
next
  case (Some drain)
  obtain cfg where cfg: "cfg = with_defaults (pp_Config p)" "w_Policy spec = ''Drain''"
    "\<exists>cap. c_WorkloadDrain cfg = Some cap \<and> drain_request_err E cap drain = None"
    using assms Some
    by (auto simp: ValidateWorkloadPolicy_def Let_def validateAdminPolicyConfig_Inr split: sum.splits option.splits if_splits)
  then obtain cap where cap: "c_WorkloadDrain (pp_Config p) = Some cap" "dr_Enabled cap" "drain_request_err E cap drain = None"
    by (auto simp: with_defaults_def split: option.splits if_splits)
  with Some cfg(2) show ?thesis
    unfolding drain_request_err_def or_err_None err_if_None outside_iff named_items_err_None by auto
qed

theorem workload_drain_within_caps_witness:
  "ValidateWorkloadPolicy example_ext ex_parsed \<lparr> w_Policy = ''Drain'', w_Drain = Some ex_drain \<rparr> = None \<and>
     (\<exists>cap. c_WorkloadDrain ex_config = Some cap \<and> set (ds_Namespaces ex_drain) \<subseteq> set (dr_AllowedNamespaces cap))"
proof -
  have "ValidateWorkloadPolicy example_ext ex_parsed \<lparr> w_Policy = ''Drain'', w_Drain = Some ex_drain \<rparr> = None" by code_simp
  with workload_drain_within_caps [OF this] show ?thesis by (auto simp: ex_parsed_def)
qed

text \<open>
  C21. A device is protected from disruption exactly when some rule of the policy selects it, and
  the rule reported is the one with the least name among them, whatever order the rules are
  written in.
\<close>

theorem protection_is_least_match:
  assumes "DisruptionProtection E p deviceLabels = Inr r"
  shows "(r = None \<longleftrightarrow> (\<forall>rule \<in> set (c_DisruptionProtections (pp_Config p)). \<not> matches E (d_Selector rule) deviceLabels)) \<and>
    (\<forall>m. r = Some m \<longrightarrow> m \<in> set (c_DisruptionProtections (pp_Config p)) \<and> matches E (d_Selector m) deviceLabels \<and>
       (\<forall>rule \<in> set (c_DisruptionProtections (pp_Config p)).
          matches E (d_Selector rule) deviceLabels \<longrightarrow> d_Name m \<le> d_Name rule))"
proof (cases "c_DisruptionProtections (pp_Config p) = []")
  case False
  then have "matching_protection E deviceLabels None (c_DisruptionProtections (pp_Config p)) = Inr r"
    using assms by (auto simp: DisruptionProtection_def split: option.splits)
  from matching_protection_Inr [OF this] show ?thesis by auto
qed (use assms in \<open>simp add: DisruptionProtection_def\<close>)

theorem protection_is_least_match_witness:
  "DisruptionProtection example_ext ex_parsed ex_labels = Inr (Some ex_core_rule) \<and>
     matches example_ext (d_Selector ex_core_rule) ex_labels"
proof -
  have r: "DisruptionProtection example_ext ex_parsed ex_labels = Inr (Some ex_core_rule)"
  proof -
    have "validateDisruptionProtections example_ext ex_config = None" by (rule config_ok_parts [OF ex_config_ok])
    moreover have "c_DisruptionProtections ex_config = [ex_core_rule]" by (simp add: ex_config_def)
    moreover obtain f where "LabelSelectorAsSelector example_ext (d_Selector ex_core_rule) = Some f" "f ex_labels"
    proof -
      have "matches example_ext (d_Selector ex_core_rule) ex_labels" by code_simp
      then show ?thesis using that by (auto simp: matches_def split: option.splits)
    qed
    ultimately show ?thesis by (simp add: DisruptionProtection_def ex_parsed_def)
  qed
  with protection_is_least_match [OF r] show ?thesis by simp
qed

section \<open>Documents and hashes\<close>

text \<open>
  C22. The policy document is a faithful carrier: a ConfigMap whose \<^verbatim>\<open>policy.json\<close> is
  what \<^verbatim>\<open>CanonicalPolicyJSON\<close> printed for a configuration, marked managed and with the
  matching Lease namespace, decodes to that configuration with its defaults filled in.
\<close>

theorem policy_document_roundtrip:
  assumes "policy_ascii E" "CanonicalPolicyJSON E cfg = Inr data" "cm_UID cm \<noteq> []" "cm_ResourceVersion cm \<noteq> []"
    "fmlookup (cm_Annotations cm) PolicyManagedAnnotation = Some ''true''"
    "fmlookup (cm_Annotations cm) ConfigLeaseNamespaceAnnotation = Some (c_ConfigLeaseNamespace cfg)"
    "fmlookup (cm_Data cm) PolicyDataKey = Some data"
  shows "decodeAdminPolicyConfig E cm = Inr (with_defaults cfg)"
proof -
  have "validateAdminPolicyConfig E (with_defaults cfg) = Inr (with_defaults cfg)"
    using assms(2) by (auto simp: CanonicalPolicyJSON_def validateAdminPolicyConfig_Inr split: sum.splits)
  moreover have "c_ConfigLeaseNamespace (with_defaults cfg) = c_ConfigLeaseNamespace cfg" by (simp add: with_defaults_def)
  ultimately show ?thesis
    using CanonicalPolicyJSON_reads_back [OF assms(1,2)] assms(3-7)
    by (simp add: decodeAdminPolicyConfig_def gm_str_def val_config_val)
qed

theorem policy_document_roundtrip_witness:
  "policy_ascii example_ext \<and> CanonicalPolicyJSON example_ext ex_config = Inr (Marshal config_type (config_val ex_config)) \<and>
     decodeAdminPolicyConfig example_ext ex_policy_cm = Inr ex_config"
proof -
  have json: "CanonicalPolicyJSON example_ext ex_config = Inr (Marshal config_type (config_val ex_config))"
    by (simp add: CanonicalPolicyJSON_def validateAdminPolicyConfig_def ex_config_defaults
        ex_config_ok [unfolded config_ok_def])
  have "decodeAdminPolicyConfig example_ext ex_policy_cm = Inr (with_defaults ex_config)"
    by (rule policy_document_roundtrip [OF example_policy_ascii json]) (simp_all add: ex_policy_cm_def ex_config_def)
  with json show ?thesis by (simp add: ex_config_defaults example_policy_ascii)
qed



text \<open>
  C24. The structural hash depends only on what shapes a frozen plan: two valid policies that agree
  on identities, selectors, topology keys, protections, risk groups and the set of budgeted domains
  have the same structural hash, whatever their budgets, freshness, limits and drain policy are.
\<close>

theorem structural_hash_ignores_budgets:
  assumes "AdminPolicyHashes E cfg = Inr (sem, struc)" "AdminPolicyHashes E cfg' = Inr (sem', struc')"
    "c_Version cfg' = c_Version cfg" "c_AppHostingServiceAccountName cfg' = c_AppHostingServiceAccountName cfg"
    "c_NetworkManagementServiceAccountName cfg' = c_NetworkManagementServiceAccountName cfg"
    "c_ConfigLeaseNamespace cfg' = c_ConfigLeaseNamespace cfg" "c_FleetSelector cfg' = c_FleetSelector cfg"
    "c_RequiredTopologyKeys cfg' = c_RequiredTopologyKeys cfg" "c_ProjectedTopologyKeys cfg' = c_ProjectedTopologyKeys cfg"
    "c_DisruptionProtections cfg' = c_DisruptionProtections cfg" "c_RiskGroups cfg' = c_RiskGroups cfg"
    "gm_keys (c_DomainMaxConcurrentTransfers cfg') = gm_keys (c_DomainMaxConcurrentTransfers cfg)"
    "gm_keys (c_DomainMaxUnavailable cfg') = gm_keys (c_DomainMaxUnavailable cfg)" "c_LedgerName cfg' = c_LedgerName cfg"
  shows "struc' = struc"
  using assms
  by (auto simp: AdminPolicyHashes_def Let_def validateAdminPolicyConfig_Inr structure_val_def sortedIntMapKeys_def
      canonicalizePolicyCollections_def cloneAdminPolicyConfig_def with_defaults_def split: sum.splits)

theorem structural_hash_ignores_budgets_witness:
  "\<exists>sem sem' struc. AdminPolicyHashes example_ext ex_config = Inr (sem, struc) \<and>
     AdminPolicyHashes example_ext (ex_config\<lparr> c_GlobalMaxUnavailable := 1 \<rparr>) = Inr (sem', struc)"
proof -
  let ?c = "ex_config\<lparr> c_GlobalMaxUnavailable := 1 \<rparr>"
  have "config_err example_ext (with_defaults ?c) = None" by code_simp
  then obtain sem' struc' where h': "AdminPolicyHashes example_ext ?c = Inr (sem', struc')"
    by (simp add: AdminPolicyHashes_def validateAdminPolicyConfig_def Let_def)
  obtain sem struc where h: "AdminPolicyHashes example_ext ex_config = Inr (sem, struc)"
    by (simp add: AdminPolicyHashes_def validateAdminPolicyConfig_def ex_config_defaults ex_config_ok [unfolded config_ok_def]
        Let_def)
  have "struc' = struc" by (rule structural_hash_ignores_budgets [OF h h']) simp_all
  with h h' show ?thesis by blast
qed









section \<open>Binding the policy to its ledger\<close>

text \<open>
  C26. The binding is one-way. Once the policy names a ledger, an attempt of
  \<^verbatim>\<open>BootstrapAdminPolicy\<close> patches nothing at all (its result is the same whatever a patch
  would do), and it fails unless the ledger object has the UID the policy names and holds a ledger
  of that UID; whenever an attempt succeeds, the policy it returns names the ledger object that
  was read.
\<close>

theorem bootstrap_is_one_way:
  assumes "k_get K ns name (env 0 w) = Inr policyCM" "TrimSpace (gm_str (cm_Annotations policyCM) LedgerUIDAnnotation) \<noteq> []"
  shows "bootstrap_attempt (K\<lparr> k_patch := f \<rparr>) E ns name env w = bootstrap_attempt K E ns name env w \<and>
    (\<forall>p w'. bootstrap_attempt K E ns name env w = (Inr p, w') \<longrightarrow>
      (\<exists>ledgerCM l. k_get K ns (c_LedgerName (pp_Config p)) (env 1 (env 0 w)) = Inr ledgerCM \<and>
         cm_UID ledgerCM = pp_LedgerUID p \<and>
         pp_LedgerUID p = TrimSpace (gm_str (cm_Annotations policyCM) LedgerUIDAnnotation) \<and>
         Decode E (TrimSpace (gm_str (cm_Data ledgerCM) LedgerDataKey)) (pp_LedgerUID p) = Inr l))"
proof (intro conjI allI impI)
  show "bootstrap_attempt (K\<lparr> k_patch := f \<rparr>) E ns name env w = bootstrap_attempt K E ns name env w"
    using assms by (rule bootstrap_attempt_bound)
next
  fix p w'
  assume "bootstrap_attempt K E ns name env w = (Inr p, w')"
  then show "\<exists>ledgerCM l. k_get K ns (c_LedgerName (pp_Config p)) (env 1 (env 0 w)) = Inr ledgerCM \<and>
      cm_UID ledgerCM = pp_LedgerUID p \<and> pp_LedgerUID p = TrimSpace (gm_str (cm_Annotations policyCM) LedgerUIDAnnotation) \<and>
      Decode E (TrimSpace (gm_str (cm_Data ledgerCM) LedgerDataKey)) (pp_LedgerUID p) = Inr l"
  proof (rule bootstrap_attempt_Inr)
    fix cm ledgerCM :: full_map and cfg prefix w2
    let ?bound = "TrimSpace (gm_str (cm_Annotations cm) LedgerUIDAnnotation)"
    assume a: "k_get K ns name (env 0 w) = Inr cm" "inspectAdminPolicy E cm = Inr (cfg, prefix)"
      "k_get K ns (c_LedgerName cfg) (env 1 (env 0 w)) = Inr ledgerCM" "?bound \<in> {[], cm_UID ledgerCM}"
      "initialize_ledger K E cfg ledgerCM ?bound env (env 1 (env 0 w)) = (None, w2)"
      "bind_policy K E cm (cm_UID ledgerCM) ?bound env w2 = (Inr p, w')"
    with assms have cm: "cm = policyCM" "?bound = cm_UID ledgerCM" "?bound \<noteq> []" by auto
    then have parse: "ParseAdminPolicy E cm = Inr p"
      using a(6) by (auto simp: bind_policy_bound parse_result_def split: sum.splits)
    then have p: "pp_Config p = cfg" "pp_LedgerUID p = cm_UID ledgerCM"
      using ParseAdminPolicy_Inr(1,2) [OF parse] a(2) cm by auto
    obtain l where "Decode E (TrimSpace (gm_str (cm_Data ledgerCM) LedgerDataKey)) (cm_UID ledgerCM) = Inr l"
      using a(5) cm(3) by (auto simp: initialize_ledger_def Let_def split: if_splits sum.splits)
    then show ?thesis using a(3) p cm by auto
  qed
qed

theorem bootstrap_is_one_way_witness:
  "\<forall>f. bootstrap_attempt (cluster_kube\<lparr> k_patch := f \<rparr>) example_ext ''fleet'' ''policy'' (\<lambda>_ w. w)
      (fmupd (''fleet'', ''policy'') ex_bound_cm ex_cluster)
    = bootstrap_attempt cluster_kube example_ext ''fleet'' ''policy'' (\<lambda>_ w. w)
      (fmupd (''fleet'', ''policy'') ex_bound_cm ex_cluster)"
proof
  fix f
  have read: "k_get cluster_kube ''fleet'' ''policy'' (fmupd (''fleet'', ''policy'') ex_bound_cm ex_cluster) = Inr ex_bound_cm"
    by (simp add: cluster_kube_def) (simp add: ex_bound_cm_def ex_policy_cm_def)
  have "TrimSpace ''ledger-uid'' \<noteq> []" by code_simp
  then have "TrimSpace (gm_str (cm_Annotations ex_bound_cm) LedgerUIDAnnotation) \<noteq> []"
    by (simp add: ex_bound_cm_def gm_str_def)
  from bootstrap_is_one_way [of cluster_kube _ _ "\<lambda>_ w. w", OF read this, of f example_ext]
  show "bootstrap_attempt (cluster_kube\<lparr> k_patch := f \<rparr>) example_ext ''fleet'' ''policy'' (\<lambda>_ w. w)
      (fmupd (''fleet'', ''policy'') ex_bound_cm ex_cluster)
    = bootstrap_attempt cluster_kube example_ext ''fleet'' ''policy'' (\<lambda>_ w. w)
      (fmupd (''fleet'', ''policy'') ex_bound_cm ex_cluster)" by blast
qed

text \<open>
  C27. An undisturbed bootstrap completes: for a valid unbound policy and a fresh ledger object,
  \<^verbatim>\<open>BootstrapAdminPolicy\<close> returns the parsed policy bound to the UID of the ledger, and
  the ledger object then holds the encoded empty ledger of that UID.
\<close>

theorem bootstrap_binds_fresh_ledger:
  assumes "applies K" "addressed K"
    "k_get K ns name w = Inr policyCM" "inspectAdminPolicy E policyCM = Inr (cfg, prefix)"
    "TrimSpace (gm_str (cm_Annotations policyCM) LedgerUIDAnnotation) = []"
    "k_get K ns (c_LedgerName cfg) w = Inr ledgerCM" "validBoundedIdentity (cm_UID ledgerCM) 128"
    "cm_ResourceVersion ledgerCM \<noteq> []" "TrimSpace (gm_str (cm_Data ledgerCM) LedgerDataKey) = []"
    "c_LedgerName cfg \<noteq> name" "ns \<noteq> []" "name \<noteq> []"
  shows "\<exists>p w' stored l. BootstrapAdminPolicy K E ns name (\<lambda>_ _ w. w) w = (Inr p, w') \<and> pp_Config p = cfg \<and>
    pp_LedgerUID p = cm_UID ledgerCM \<and> NewLedger (cm_UID ledgerCM) = Inr l \<and>
    k_get K ns (c_LedgerName cfg) w' = Inr stored \<and>
    Encode l (c_MaxLedgerBytes cfg) = Inr (gm_str (cm_Data stored) LedgerDataKey)"
  by (rule bootstrap_completes [OF assms]) auto

theorem bootstrap_binds_fresh_ledger_witness:
  "\<exists>p w'. BootstrapAdminPolicy cluster_kube example_ext ''fleet'' ''policy'' (\<lambda>_ _ w. w) ex_cluster = (Inr p, w') \<and>
     pp_LedgerUID p = ''ledger-uid''"
proof -
  have "k_get cluster_kube ''fleet'' ''policy'' ex_cluster = Inr ex_policy_cm"
    by (simp add: cluster_kube_def ex_cluster_def) (simp add: ex_policy_cm_def)
  moreover have "k_get cluster_kube ''fleet'' (c_LedgerName ex_config) ex_cluster = Inr ex_ledger_cm"
    by (simp add: cluster_kube_def ex_cluster_def ex_config_def) (simp add: ex_ledger_cm_def)
  moreover have "validBoundedIdentity (cm_UID ex_ledger_cm) 128" by code_simp
  ultimately have "\<exists>p w' stored l. BootstrapAdminPolicy cluster_kube example_ext ''fleet'' ''policy'' (\<lambda>_ _ w. w) ex_cluster = (Inr p, w') \<and>
      pp_Config p = ex_config \<and> pp_LedgerUID p = cm_UID ex_ledger_cm \<and> NewLedger (cm_UID ex_ledger_cm) = Inr l \<and>
      k_get cluster_kube ''fleet'' (c_LedgerName ex_config) w' = Inr stored \<and>
      Encode l (c_MaxLedgerBytes ex_config) = Inr (gm_str (cm_Data stored) LedgerDataKey)"
    by (intro bootstrap_binds_fresh_ledger [OF cluster_applies cluster_addressed _ ex_inspect])
      (simp_all add: ex_policy_cm_def ex_ledger_cm_def gm_str_def ex_config_def)
  then show ?thesis by (auto simp: ex_ledger_cm_def)
qed

end
