(* ===== verification/Family_Lease.thy ===== *)
theory Family_Lease
  imports Go_Time Go_Sha256
begin

text \<open>
  The lease that serialises the writers of one device and configuration family,
  \<^verbatim>\<open>internal/drivers/iosxe/configdriver/engine/lease.go\<close>, and the device keys of
  \<^verbatim>\<open>internal/devicecoordination/mutation.go\<close>. The Kubernetes client is the record
  \<open>lease_api\<close>; each operation takes what the other writers do before its \<open>i\<close>-th call as
  \<open>env i\<close>, and the reading of the clock as \<open>now\<close>. Times are nanoseconds, durations in a lease
  are whole seconds of type \<^verbatim>\<open>int32\<close>.
\<close>

subsection \<open>The API\<close>

record lease_obj =
  lo_UID :: string
  lo_ResourceVersion :: string
  lo_Namespace :: string
  lo_Name :: string
  lo_Labels :: "string gomap"
  lo_Annotations :: "string gomap"
  lo_HolderIdentity :: "string option"
  lo_LeaseDurationSeconds :: "int option"
  lo_AcquireTime :: "time option"
  lo_RenewTime :: "time option"
  lo_LeaseTransitions :: "int option"

datatype lease_error = NotFound | AlreadyExists | LeaseConflict | LeaseOther string

record 'w lease_api =
  la_get :: "string \<Rightarrow> string \<Rightarrow> 'w \<Rightarrow> lease_error + lease_obj"
  la_create :: "lease_obj \<Rightarrow> 'w \<Rightarrow> lease_error option \<times> 'w"
  la_update :: "lease_obj \<Rightarrow> 'w \<Rightarrow> lease_error option \<times> 'w"
  la_delete :: "lease_obj \<Rightarrow> 'w \<Rightarrow> lease_error option \<times> 'w"

datatype lease_failure = LeaseRefused string | LeaseFailed lease_error

record leaser =
  fl_HasClient :: bool
  fl_Namespace :: string
  fl_DeviceKey :: string
  fl_RequireExisting :: bool
  fl_TTL :: duration

record lease_result =
  lr_Owned :: bool
  lr_Holder :: string

text \<open>Conversion to \<^verbatim>\<open>int32\<close>.\<close>

definition to_int32 :: "int \<Rightarrow> int" where
  "to_int32 i = (i + 2 ^ 31) mod 2 ^ 32 - 2 ^ 31"

subsection \<open>Names\<close>

definition lease_byte :: "char \<Rightarrow> char" where
  "lease_byte c =
     (if 0x61 \<le> byte_of c \<and> byte_of c \<le> 0x7A then c
      else if 0x41 \<le> byte_of c \<and> byte_of c \<le> 0x5A then char_of (byte_of c + 0x20)
      else if is_digit c then c
      else CHR ''-'')"

fun collapse_dashes :: "bool \<Rightarrow> string \<Rightarrow> string" where
  "collapse_dashes prevDash [] = []"
| "collapse_dashes prevDash (c # cs) =
     (if c = CHR ''-'' then (if prevDash then collapse_dashes True cs else c # collapse_dashes True cs)
      else c # collapse_dashes False cs)"

definition TrimRight :: "string \<Rightarrow> char \<Rightarrow> string" where
  "TrimRight s c = rev (dropWhile (\<lambda>x. x = c) (rev s))"

definition Trim :: "string \<Rightarrow> char \<Rightarrow> string" where
  "Trim s c = TrimRight (dropWhile (\<lambda>x. x = c) s) c"

definition sanitiseLeaseSegment :: "string \<Rightarrow> string" where
  "sanitiseLeaseSegment s =
     (let result = Trim (collapse_dashes False (map lease_byte s)) CHR ''-''
      in if result = [] then ''x'' else result)"

definition shortLeaseHash :: "string \<Rightarrow> string" where
  "shortLeaseHash s = hex_encode (take 4 (Sum256 (bytes_of s)))"

definition leaseName :: "string \<Rightarrow> string \<Rightarrow> string" where
  "leaseName device family =
     (let d = sanitiseLeaseSegment device;
          f = sanitiseLeaseSegment family;
          hash = shortLeaseHash (device @ ''/'' @ family);
          name = ''cvk-'' @ d @ ''-'' @ f @ ''-'' @ hash
      in if length name > 253
         then let tail = ''-'' @ hash;
                  room = 253 - length ''cvk-'' - length tail;
                  middle = TrimRight (take room (d @ ''-'' @ f)) CHR ''-''
              in ''cvk-'' @ middle @ tail
         else name)"

text \<open>Keys and holder identities shared by the workflows of one device.\<close>

definition DeviceKey :: "string \<Rightarrow> string \<Rightarrow> string" where
  "DeviceKey namespace name = ''device-'' @ hex_encode (take 8 (Sum256 (bytes_of (namespace @ [CHR 0x00] @ name))))"

definition HolderIdentity :: "string \<Rightarrow> string \<Rightarrow> string \<Rightarrow> string \<Rightarrow> string" where
  "HolderIdentity workflow namespace name uid =
     (if uid \<noteq> [] then workflow @ ''/'' @ uid
      else workflow @ ''/'' @ hex_encode (take 16 (Sum256 (bytes_of (namespace @ [CHR 0x00] @ name)))))"

abbreviation MutationLeaseFamily :: string where "MutationLeaseFamily \<equiv> ''device-disruptive-mutation''"
abbreviation RetainLeaseAnnotation :: string where "RetainLeaseAnnotation \<equiv> ''topology.cisco.vk/retain-lease''"

subsection \<open>Operations\<close>

definition leaseDeviceKey :: "leaser \<Rightarrow> string \<Rightarrow> string" where
  "leaseDeviceKey l device = (if fl_DeviceKey l \<noteq> [] then fl_DeviceKey l else device)"

definition ttlSeconds :: "leaser \<Rightarrow> int" where
  "ttlSeconds l =
     (let ttl = (if fl_TTL l \<le> 0 then 30 * second else fl_TTL l);
          s = to_int32 (go_div ttl second)
      in if s < 1 then 1 else s)"

definition retained :: "lease_obj \<Rightarrow> bool" where
  "retained lease \<longleftrightarrow> gm_str (lo_Annotations lease) RetainLeaseAnnotation = ''true''"

definition maintenance_annotations :: "string list" where
  "maintenance_annotations =
     [''topology.cisco.vk/maintenance-request-version'', ''topology.cisco.vk/maintenance-session-token'',
      ''topology.cisco.vk/maintenance-requested-at'', ''topology.cisco.vk/maintenance-operation-namespace'',
      ''topology.cisco.vk/maintenance-operation-name'', ''topology.cisco.vk/maintenance-operation-uid'',
      ''topology.cisco.vk/maintenance-control-revision'', ''topology.cisco.vk/maintenance-purpose'']"

definition clearMaintenanceRequest :: "lease_obj \<Rightarrow> lease_obj" where
  "clearMaintenanceRequest lease =
     (if \<not> retained lease then lease
      else lease\<lparr> lo_Annotations := fold fmdrop maintenance_annotations (lo_Annotations lease) \<rparr>)"

definition leaseExpired :: "lease_obj \<Rightarrow> time \<Rightarrow> bool" where
  "leaseExpired lease now =
     (case (lo_RenewTime lease, lo_LeaseDurationSeconds lease) of
        (Some renew, Some secs) \<Rightarrow> now > renew + secs * second
      | _ \<Rightarrow> True)"

definition holder_of :: "lease_obj \<Rightarrow> string" where
  "holder_of lease = (case lo_HolderIdentity lease of None \<Rightarrow> [] | Some h \<Rightarrow> h)"

definition next_transition :: "lease_obj \<Rightarrow> int option" where
  "next_transition lease =
     Some (case lo_LeaseTransitions lease of None \<Rightarrow> 1 | Some t \<Rightarrow> to_int32 (t + 1))"

definition owned_by :: "string \<Rightarrow> lease_result" where
  "owned_by identity = \<lparr> lr_Owned = True, lr_Holder = identity \<rparr>"

definition held_by :: "string \<Rightarrow> lease_result" where
  "held_by holder = \<lparr> lr_Owned = False, lr_Holder = holder \<rparr>"

text \<open>An update of an existing lease: a conflict means that ownership is not proven.\<close>

definition update_lease ::
  "'w lease_api \<Rightarrow> (nat \<Rightarrow> 'w \<Rightarrow> 'w) \<Rightarrow> lease_obj \<Rightarrow> string \<Rightarrow> string \<Rightarrow> 'w \<Rightarrow> (lease_failure + lease_result) \<times> 'w" where
  "update_lease A env lease holder identity w =
     (case la_update A lease (env 3 w) of
        (None, w') \<Rightarrow> (Inr (owned_by identity), w')
      | (Some LeaseConflict, w') \<Rightarrow> (Inr (held_by holder), w')
      | (Some e, w') \<Rightarrow> (Inl (LeaseFailed e), w'))"

definition renewOrReport ::
  "'w lease_api \<Rightarrow> (nat \<Rightarrow> 'w \<Rightarrow> 'w) \<Rightarrow> lease_obj \<Rightarrow> string \<Rightarrow> int \<Rightarrow> time \<Rightarrow> 'w \<Rightarrow> (lease_failure + lease_result) \<times> 'w" where
  "renewOrReport A env lease identity secs now w =
     (let holder = holder_of lease
      in if holder = identity
         then update_lease A env
                (lease\<lparr> lo_RenewTime := Some now, lo_LeaseDurationSeconds := Some secs \<rparr>) holder identity w
         else if leaseExpired lease now
         then update_lease A env
                ((clearMaintenanceRequest lease)
                   \<lparr> lo_HolderIdentity := Some identity, lo_AcquireTime := Some now, lo_RenewTime := Some now,
                     lo_LeaseDurationSeconds := Some secs, lo_LeaseTransitions := next_transition lease \<rparr>) holder identity w
         else (Inr (held_by holder), w))"

definition new_lease :: "leaser \<Rightarrow> string \<Rightarrow> string \<Rightarrow> string \<Rightarrow> string \<Rightarrow> time \<Rightarrow> lease_obj" where
  "new_lease l name device family identity now =
     \<lparr> lo_UID = [], lo_ResourceVersion = [], lo_Namespace = fl_Namespace l, lo_Name = name,
       lo_Labels = fmap_of_list [(''cisco.vk/device'', device), (''cisco.vk/family'', family)], lo_Annotations = fmempty,
       lo_HolderIdentity = Some identity, lo_LeaseDurationSeconds = Some (ttlSeconds l), lo_AcquireTime = Some now,
       lo_RenewTime = Some now, lo_LeaseTransitions = Some 1 \<rparr>"

text \<open>
  The common frame of the two ways to acquire: read the lease, create it when it is missing, and
  continue with \<open>existing\<close> when there is one, also after losing the race to create it.
\<close>

definition acquire_with ::
  "(lease_obj \<Rightarrow> time \<Rightarrow> 'w \<Rightarrow> (lease_failure + lease_result) \<times> 'w) \<Rightarrow>
   'w lease_api \<Rightarrow> leaser \<Rightarrow> (nat \<Rightarrow> 'w \<Rightarrow> 'w) \<Rightarrow> time \<Rightarrow> string \<Rightarrow> string \<Rightarrow> string \<Rightarrow> 'w \<Rightarrow> (lease_failure + lease_result) \<times> 'w" where
  "acquire_with existing A l env now device0 family identity w =
     (if \<not> fl_HasClient l then (Inl (LeaseRefused ''FamilyLeaser: nil Client''), w)
      else if fl_Namespace l = [] then (Inl (LeaseRefused ''FamilyLeaser: empty Namespace''), w)
      else let device = leaseDeviceKey l device0; name = leaseName device family; w0 = env 0 w
           in case la_get A (fl_Namespace l) name w0 of
             Inr lease \<Rightarrow> existing lease now w0
           | Inl NotFound \<Rightarrow>
               if fl_RequireExisting l then (Inl (LeaseRefused ''required pre-created lease is missing''), w0)
               else (case la_create A (new_lease l name device family identity now) (env 1 w0) of
                       (None, w1) \<Rightarrow> (Inr (owned_by identity), w1)
                     | (Some AlreadyExists, w1) \<Rightarrow>
                         (case la_get A (fl_Namespace l) name (env 2 w1) of
                            Inl e \<Rightarrow> (Inl (LeaseFailed e), env 2 w1)
                          | Inr lease \<Rightarrow> existing lease now (env 2 w1))
                     | (Some e, w1) \<Rightarrow> (Inl (LeaseFailed e), w1))
           | Inl e \<Rightarrow> (Inl (LeaseFailed e), w0))"

definition Acquire ::
  "'w lease_api \<Rightarrow> leaser \<Rightarrow> (nat \<Rightarrow> 'w \<Rightarrow> 'w) \<Rightarrow> time \<Rightarrow> string \<Rightarrow> string \<Rightarrow> string \<Rightarrow> 'w \<Rightarrow> (lease_failure + lease_result) \<times> 'w" where
  "Acquire A l env now device family identity w =
     acquire_with (\<lambda>lease now. renewOrReport A env lease identity (ttlSeconds l) now) A l env now device family identity w"

text \<open>Taking only a free lease: an expired foreign holder still blocks.\<close>

definition claim_if_free ::
  "'w lease_api \<Rightarrow> (nat \<Rightarrow> 'w \<Rightarrow> 'w) \<Rightarrow> string \<Rightarrow> int \<Rightarrow> lease_obj \<Rightarrow> time \<Rightarrow> 'w \<Rightarrow> (lease_failure + lease_result) \<times> 'w" where
  "claim_if_free A env identity secs lease now w =
     (let holder = holder_of lease
      in if holder = [] \<or> holder = identity
         then let base = (if holder \<noteq> identity
                          then (clearMaintenanceRequest lease)
                                 \<lparr> lo_AcquireTime := Some now, lo_LeaseTransitions := next_transition lease \<rparr>
                          else lease)
              in update_lease A env
                   (base\<lparr> lo_HolderIdentity := Some identity, lo_RenewTime := Some now,
                          lo_LeaseDurationSeconds := Some secs \<rparr>) holder identity w
         else (Inr (held_by holder), w))"

definition AcquireIfFree ::
  "'w lease_api \<Rightarrow> leaser \<Rightarrow> (nat \<Rightarrow> 'w \<Rightarrow> 'w) \<Rightarrow> time \<Rightarrow> string \<Rightarrow> string \<Rightarrow> string \<Rightarrow> 'w \<Rightarrow> (lease_failure + lease_result) \<times> 'w" where
  "AcquireIfFree A l env now device family identity w =
     acquire_with (claim_if_free A env identity (ttlSeconds l)) A l env now device family identity w"

definition released :: "string \<Rightarrow> lease_obj \<Rightarrow> lease_obj" where
  "released family lease =
     clearMaintenanceRequest
       (lease\<lparr> lo_HolderIdentity := None, lo_AcquireTime := None, lo_RenewTime := None, lo_LeaseDurationSeconds := None,
               lo_LeaseTransitions := (if family \<noteq> MutationLeaseFamily then None else lo_LeaseTransitions lease) \<rparr>)"

definition release_attempt ::
  "'w lease_api \<Rightarrow> leaser \<Rightarrow> (nat \<Rightarrow> 'w \<Rightarrow> 'w) \<Rightarrow> string \<Rightarrow> string \<Rightarrow> string \<Rightarrow> 'w \<Rightarrow> lease_error option \<times> 'w" where
  "release_attempt A l env name family identity w =
     (let w0 = env 0 w
      in case la_get A (fl_Namespace l) name w0 of
        Inl e \<Rightarrow> if e = NotFound \<and> \<not> fl_RequireExisting l then (None, w0) else (Some e, w0)
      | Inr lease \<Rightarrow>
          if lo_HolderIdentity lease \<noteq> Some identity then (None, w0)
          else if retained lease then la_update A (released family lease) (env 1 w0)
          else (case la_delete A lease (env 1 w0) of
                  (Some NotFound, w1) \<Rightarrow> (None, w1)
                | (Some LeaseConflict, w1) \<Rightarrow> (None, w1)
                | r \<Rightarrow> r))"

fun release_loop ::
  "nat \<Rightarrow> 'w lease_api \<Rightarrow> leaser \<Rightarrow> (nat \<Rightarrow> nat \<Rightarrow> 'w \<Rightarrow> 'w) \<Rightarrow> string \<Rightarrow> string \<Rightarrow> string \<Rightarrow> 'w \<Rightarrow> lease_error option \<times> 'w" where
  "release_loop 0 A l env name family identity w = (Some LeaseConflict, w)"
| "release_loop (Suc n) A l env name family identity w =
     (case release_attempt A l (env n) name family identity w of
        (Some LeaseConflict, w') \<Rightarrow>
          if n = 0 then (Some LeaseConflict, w') else release_loop n A l env name family identity w'
      | r \<Rightarrow> r)"

text \<open>\<^verbatim>\<open>retry.DefaultBackoff\<close> makes at most four attempts.\<close>

definition Release ::
  "'w lease_api \<Rightarrow> leaser \<Rightarrow> (nat \<Rightarrow> nat \<Rightarrow> 'w \<Rightarrow> 'w) \<Rightarrow> string \<Rightarrow> string \<Rightarrow> string \<Rightarrow> 'w \<Rightarrow> lease_failure option \<times> 'w" where
  "Release A l env device family identity w =
     (if \<not> fl_HasClient l then (Some (LeaseRefused ''FamilyLeaser: nil Client''), w)
      else if fl_Namespace l = [] then (Some (LeaseRefused ''FamilyLeaser: empty Namespace''), w)
      else case release_loop 4 A l env (leaseName (leaseDeviceKey l device) family) family identity w of
        (None, w') \<Rightarrow> (None, w')
      | (Some e, w') \<Rightarrow>
          if e = NotFound \<and> fl_RequireExisting l
          then (Some (LeaseRefused ''required pre-created lease is missing during release''), w')
          else (Some (LeaseFailed e), w'))"

section \<open>Lease names\<close>

definition name_byte :: "char \<Rightarrow> bool" where
  "name_byte c \<longleftrightarrow> is_digit c \<or> 0x61 \<le> byte_of c \<and> byte_of c \<le> 0x7A"

text \<open>
  A name the API server accepts: at most 253 bytes of the lower-case alphabet, digits and dashes,
  not starting or ending with a dash.
\<close>

definition dns_name :: "string \<Rightarrow> bool" where
  "dns_name s \<longleftrightarrow> length s \<le> 253 \<and> list_all (\<lambda>c. name_byte c \<or> c = CHR ''-'') s \<and>
     s \<noteq> [] \<and> name_byte (hd s) \<and> name_byte (last s)"

lemma lease_byte_ok: "name_byte (lease_byte c) \<or> lease_byte c = CHR ''-''"
  by (auto simp: lease_byte_def name_byte_def)

lemma collapse_dashes_set: "set (collapse_dashes p s) \<subseteq> set s"
  by (induction p s rule: collapse_dashes.induct) auto

lemma TrimRight_set: "set (TrimRight s c) \<subseteq> set s"
  using set_dropWhileD by (fastforce simp: TrimRight_def)

lemma Trim_set: "set (Trim s c) \<subseteq> set s"
  using TrimRight_set [of "dropWhile (\<lambda>x. x = c) s" c] set_dropWhileD by (fastforce simp: Trim_def)

lemma sanitise_bytes: "list_all (\<lambda>c. name_byte c \<or> c = CHR ''-'') (sanitiseLeaseSegment s)"
proof -
  have "set (Trim (collapse_dashes False (map lease_byte s)) CHR ''-'') \<subseteq> lease_byte ` set s"
    using Trim_set [of "collapse_dashes False (map lease_byte s)" "CHR ''-''"]
      collapse_dashes_set [of False "map lease_byte s"] by auto
  then have "list_all (\<lambda>c. name_byte c \<or> c = CHR ''-'') (Trim (collapse_dashes False (map lease_byte s)) CHR ''-'')"
    unfolding list_all_iff using lease_byte_ok by fast
  moreover have "name_byte (CHR ''x'')" by (simp add: name_byte_def)
  ultimately show ?thesis by (simp add: sanitiseLeaseSegment_def Let_def)
qed

lemma lower_hex_name: "is_lower_hex c \<Longrightarrow> name_byte c"
  by (auto simp: is_lower_hex_def name_byte_def)

lemma shortLeaseHash_bytes: "list_all name_byte (shortLeaseHash s) \<and> length (shortLeaseHash s) = 8"
proof -
  have "list_all is_lower_hex (shortLeaseHash s)" unfolding shortLeaseHash_def by (rule hex_encode_lower)
  then show ?thesis
    by (auto simp: shortLeaseHash_def list_all_iff lower_hex_name)
qed

lemma leaseName_form:
  obtains middle where "leaseName device family = ''cvk-'' @ middle @ ''-'' @ shortLeaseHash (device @ ''/'' @ family)"
    "list_all (\<lambda>c. name_byte c \<or> c = CHR ''-'') middle" "length middle \<le> 240"
proof -
  let ?d = "sanitiseLeaseSegment device" and ?f = "sanitiseLeaseSegment family"
  let ?h = "shortLeaseHash (device @ ''/'' @ family)"
  have bytes: "list_all (\<lambda>c. name_byte c \<or> c = CHR ''-'') (?d @ ''-'' @ ?f)" using sanitise_bytes by simp
  have h: "length ?h = 8" using shortLeaseHash_bytes by simp
  show ?thesis
  proof (cases "length (''cvk-'' @ ?d @ ''-'' @ ?f @ ''-'' @ ?h) > 253")
    case False
    then show ?thesis using that [of "?d @ ''-'' @ ?f"] bytes h by (simp add: leaseName_def Let_def)
  next
    case True
    let ?m = "TrimRight (take 240 (?d @ ''-'' @ ?f)) CHR ''-''"
    have "set ?m \<subseteq> set (?d @ ''-'' @ ?f)"
      using TrimRight_set [of "take 240 (?d @ ''-'' @ ?f)" "CHR ''-''"] set_take_subset [of 240 "?d @ ''-'' @ ?f"] by fast
    moreover have "length ?m \<le> 240" by (simp add: TrimRight_def length_dropWhile_le [THEN order_trans])
    moreover have "leaseName device family = ''cvk-'' @ ?m @ ''-'' @ ?h"
      using True h by (simp add: leaseName_def Let_def)
    ultimately show ?thesis using that [of ?m] bytes unfolding list_all_iff by blast
  qed
qed

lemma leaseName_dns: "dns_name (leaseName device family)"
proof -
  let ?h = "shortLeaseHash (device @ ''/'' @ family)"
  obtain middle where m: "leaseName device family = ''cvk-'' @ middle @ ''-'' @ ?h"
    "list_all (\<lambda>c. name_byte c \<or> c = CHR ''-'') middle" "length middle \<le> 240"
    by (rule leaseName_form)
  have h: "list_all name_byte ?h" "length ?h = 8" using shortLeaseHash_bytes by auto
  then have "?h \<noteq> []" by auto
  then have "name_byte (last ?h)" using h(1) by (simp add: list_all_iff)
  with m h \<open>?h \<noteq> []\<close> show ?thesis by (auto simp: dns_name_def list_all_iff name_byte_def)
qed

section \<open>Exclusion\<close>

text \<open>
  Documented behaviour of the API server: a write under an optimistic lock replaces the object only
  when its resource version is still the one that was read, and a failed write changes nothing.
  Times of a lease are stored with microsecond precision.
\<close>

definition micro :: "time \<Rightarrow> time" where
  "micro t = t - t mod 1000"

definition as_stored :: "lease_obj \<Rightarrow> lease_obj \<Rightarrow> bool" where
  "as_stored obj new \<longleftrightarrow>
     lo_HolderIdentity new = lo_HolderIdentity obj \<and> lo_LeaseDurationSeconds new = lo_LeaseDurationSeconds obj \<and>
     lo_RenewTime new = map_option micro (lo_RenewTime obj) \<and>
     lo_AcquireTime new = map_option micro (lo_AcquireTime obj) \<and>
     lo_LeaseTransitions new = lo_LeaseTransitions obj \<and> lo_Annotations new = lo_Annotations obj"

definition lease_writes :: "'w lease_api \<Rightarrow> bool" where
  "lease_writes A \<longleftrightarrow>
     (\<forall>obj w w'. la_update A obj w = (None, w') \<longrightarrow>
        (\<exists>new. la_get A (lo_Namespace obj) (lo_Name obj) w' = Inr new \<and> as_stored obj new)) \<and>
     (\<forall>obj w w'. la_create A obj w = (None, w') \<longrightarrow>
        (\<exists>new. la_get A (lo_Namespace obj) (lo_Name obj) w' = Inr new \<and> as_stored obj new)) \<and>
     (\<forall>ns name w obj. la_get A ns name w = Inr obj \<longrightarrow> lo_Namespace obj = ns \<and> lo_Name obj = name)"

lemma lease_writes_update:
  assumes "lease_writes A" "la_get A ns name w0 = Inr lease" "lo_Namespace obj = lo_Namespace lease" "lo_Name obj = lo_Name lease"
    "la_update A obj w = (None, w')"
  shows "\<exists>new. la_get A ns name w' = Inr new \<and> as_stored obj new"
  using assms unfolding lease_writes_def by metis

lemma lease_writes_create:
  assumes "lease_writes A" "la_create A obj w = (None, w')" "lo_Namespace obj = ns" "lo_Name obj = name"
  shows "\<exists>new. la_get A ns name w' = Inr new \<and> as_stored obj new"
  using assms unfolding lease_writes_def by metis

text \<open>\<open>holds A ns name a T w\<close>: the stored lease belongs to \<open>a\<close> and does not expire before the time \<open>T\<close>.\<close>

definition holds :: "'w lease_api \<Rightarrow> string \<Rightarrow> string \<Rightarrow> string \<Rightarrow> time \<Rightarrow> 'w \<Rightarrow> bool" where
  "holds A ns name a T w \<longleftrightarrow>
     (\<exists>lease. la_get A ns name w = Inr lease \<and> lo_HolderIdentity lease = Some a \<and> \<not> leaseExpired lease T)"

lemma leaseExpired_mono: "leaseExpired lease t \<Longrightarrow> t \<le> t' \<Longrightarrow> leaseExpired lease t'"
  by (auto simp: leaseExpired_def split: option.splits)

lemma update_lease_owned:
  assumes "update_lease A env obj holder identity w = (Inr r, w')" "lr_Owned r"
  shows "lr_Holder r = identity \<and> la_update A obj (env 3 w) = (None, w')"
  using assms
  by (auto simp: update_lease_def owned_by_def held_by_def split: prod.splits option.splits lease_error.splits)

lemma clear_simps [simp]:
  "lo_HolderIdentity (clearMaintenanceRequest lease) = lo_HolderIdentity lease"
  "lo_RenewTime (clearMaintenanceRequest lease) = lo_RenewTime lease"
  "lo_AcquireTime (clearMaintenanceRequest lease) = lo_AcquireTime lease"
  "lo_LeaseDurationSeconds (clearMaintenanceRequest lease) = lo_LeaseDurationSeconds lease"
  "lo_LeaseTransitions (clearMaintenanceRequest lease) = lo_LeaseTransitions lease"
  "lo_Namespace (clearMaintenanceRequest lease) = lo_Namespace lease"
  "lo_Name (clearMaintenanceRequest lease) = lo_Name lease"
  "lo_UID (clearMaintenanceRequest lease) = lo_UID lease"
  "lo_ResourceVersion (clearMaintenanceRequest lease) = lo_ResourceVersion lease"
  by (simp_all add: clearMaintenanceRequest_def)

text \<open>What a stored lease with this holder, renewal and duration guarantees.\<close>

lemma stored_holds:
  assumes "la_get A ns name w = Inr new" "as_stored obj new" "lo_HolderIdentity obj = Some identity"
    "lo_RenewTime obj = Some now" "lo_LeaseDurationSeconds obj = Some secs"
  shows "holds A ns name identity (micro now + secs * second) w"
  using assms by (auto simp: holds_def as_stored_def leaseExpired_def)

text \<open>An existing lease is written only with the caller as its holder, renewed now.\<close>

definition writes_hold :: "'w lease_api \<Rightarrow> (nat \<Rightarrow> 'w \<Rightarrow> 'w) \<Rightarrow> string \<Rightarrow> int \<Rightarrow>
  (lease_obj \<Rightarrow> time \<Rightarrow> 'w \<Rightarrow> (lease_failure + lease_result) \<times> 'w) \<Rightarrow> bool" where
  "writes_hold A env identity secs existing \<longleftrightarrow>
     (\<forall>lease now w r w'. existing lease now w = (Inr r, w') \<longrightarrow> lr_Owned r \<longrightarrow>
        lr_Holder r = identity \<and>
        (\<exists>obj. la_update A obj (env 3 w) = (None, w') \<and> lo_Namespace obj = lo_Namespace lease \<and> lo_Name obj = lo_Name lease \<and>
           lo_HolderIdentity obj = Some identity \<and> lo_RenewTime obj = Some now \<and> lo_LeaseDurationSeconds obj = Some secs))"

lemma writes_holdI:
  assumes "\<And>lease now w r w'. existing lease now w = (Inr r, w') \<Longrightarrow> lr_Owned r \<Longrightarrow>
    \<exists>obj holder. update_lease A env obj holder identity w = (Inr r, w') \<and>
      lo_Namespace obj = lo_Namespace lease \<and> lo_Name obj = lo_Name lease \<and>
      lo_HolderIdentity obj = Some identity \<and> lo_RenewTime obj = Some now \<and> lo_LeaseDurationSeconds obj = Some secs"
  shows "writes_hold A env identity secs existing"
  unfolding writes_hold_def
proof (intro allI impI)
  fix lease now w r w'
  assume r: "existing lease now w = (Inr r, w')" "lr_Owned r"
  then obtain obj holder where obj: "update_lease A env obj holder identity w = (Inr r, w')"
    "lo_Namespace obj = lo_Namespace lease" "lo_Name obj = lo_Name lease" "lo_HolderIdentity obj = Some identity"
    "lo_RenewTime obj = Some now" "lo_LeaseDurationSeconds obj = Some secs"
    using assms by blast
  from update_lease_owned [OF obj(1) r(2)] obj(2-)
  show "lr_Holder r = identity \<and> (\<exists>obj. la_update A obj (env 3 w) = (None, w') \<and>
      lo_Namespace obj = lo_Namespace lease \<and> lo_Name obj = lo_Name lease \<and>
      lo_HolderIdentity obj = Some identity \<and> lo_RenewTime obj = Some now \<and> lo_LeaseDurationSeconds obj = Some secs)"
    by blast
qed

lemma renewOrReport_writes:
  assumes "identity \<noteq> []"
  shows "writes_hold A env identity secs (\<lambda>lease now. renewOrReport A env lease identity secs now)"
proof (rule writes_holdI)
  fix lease now w r w'
  assume r: "renewOrReport A env lease identity secs now w = (Inr r, w')" "lr_Owned r"
  have "holder_of lease = identity \<Longrightarrow> lo_HolderIdentity lease = Some identity"
    using assms by (auto simp: holder_of_def split: option.splits)
  then show "\<exists>obj holder. update_lease A env obj holder identity w = (Inr r, w') \<and>
      lo_Namespace obj = lo_Namespace lease \<and> lo_Name obj = lo_Name lease \<and>
      lo_HolderIdentity obj = Some identity \<and> lo_RenewTime obj = Some now \<and> lo_LeaseDurationSeconds obj = Some secs"
    using r unfolding renewOrReport_def Let_def
    by (auto simp: held_by_def split: if_splits intro!: exI)
qed

lemma claim_if_free_writes: "writes_hold A env identity secs (claim_if_free A env identity secs)"
proof (rule writes_holdI)
  fix lease now w r w'
  assume r: "claim_if_free A env identity secs lease now w = (Inr r, w')" "lr_Owned r"
  then show "\<exists>obj holder. update_lease A env obj holder identity w = (Inr r, w') \<and>
      lo_Namespace obj = lo_Namespace lease \<and> lo_Name obj = lo_Name lease \<and>
      lo_HolderIdentity obj = Some identity \<and> lo_RenewTime obj = Some now \<and> lo_LeaseDurationSeconds obj = Some secs"
    unfolding claim_if_free_def Let_def
    by (auto simp: held_by_def split: if_splits intro!: exI)
qed

lemma acquire_with_holds:
  assumes A: "lease_writes A" and existing: "writes_hold A env identity (ttlSeconds l) existing"
    and r: "acquire_with existing A l env now device family identity w = (Inr r, w')" "lr_Owned r"
  shows "lr_Holder r = identity \<and>
    holds A (fl_Namespace l) (leaseName (leaseDeviceKey l device) family) identity (micro now + ttlSeconds l * second) w'"
proof -
  let ?ns = "fl_Namespace l" and ?dev = "leaseDeviceKey l device"
  let ?name = "leaseName ?dev family"
  let ?T = "micro now + ttlSeconds l * second"
  have upd: ?thesis if "la_get A ?ns ?name w0 = Inr lease" "existing lease now w1 = (Inr r, w')" for lease w0 w1
  proof -
    from existing that(2) r(2) obtain obj where obj: "lr_Holder r = identity" "la_update A obj (env 3 w1) = (None, w')"
      "lo_Namespace obj = lo_Namespace lease" "lo_Name obj = lo_Name lease"
      "lo_HolderIdentity obj = Some identity" "lo_RenewTime obj = Some now" "lo_LeaseDurationSeconds obj = Some (ttlSeconds l)"
      unfolding writes_hold_def by blast
    from lease_writes_update [OF A that(1) obj(3,4,2)] obtain new
      where new: "la_get A ?ns ?name w' = Inr new" "as_stored obj new" by blast
    from stored_holds [OF new obj(5,6,7)] obj(1) show ?thesis by simp
  qed
  show ?thesis
  proof (cases "la_get A ?ns ?name (env 0 w)")
    case (Inr lease)
    then show ?thesis using r(1) upd by (auto simp: acquire_with_def Let_def split: if_splits)
  next
    case (Inl e)
    then have e: "e = NotFound" using r(1) by (auto simp: acquire_with_def Let_def split: if_splits lease_error.splits)
    obtain c w1 where c: "la_create A (new_lease l ?name ?dev family identity now) (env 1 (env 0 w)) = (c, w1)" by fastforce
    show ?thesis
    proof (cases c)
      case None
      then have "r = owned_by identity" "w1 = w'"
        using r(1) c e Inl by (auto simp: acquire_with_def Let_def split: if_splits)
      moreover obtain new where "la_get A ?ns ?name w1 = Inr new" "as_stored (new_lease l ?name ?dev family identity now) new"
        using lease_writes_create [OF A] c None by (force simp: new_lease_def)
      ultimately show ?thesis
        using stored_holds [of A ?ns ?name w1 new] by (auto simp: new_lease_def owned_by_def)
    next
      case (Some e')
      then show ?thesis
        using r(1) c e Inl upd by (auto simp: acquire_with_def Let_def split: if_splits lease_error.splits sum.splits)
    qed
  qed
qed

text \<open>Foreign operations while \<open>a\<close> holds: nothing is written and the holder is reported.\<close>

lemma foreign_existing:
  assumes "lo_HolderIdentity lease = Some a" "a \<noteq> b" "a \<noteq> []"
  shows "\<not> leaseExpired lease now \<Longrightarrow> renewOrReport A env lease b secs now w = (Inr (held_by a), w)"
    and "claim_if_free A env b secs lease now w = (Inr (held_by a), w)"
  using assms by (simp_all add: renewOrReport_def claim_if_free_def holder_of_def Let_def)

lemma acquire_with_foreign:
  assumes "holds A (fl_Namespace l) (leaseName (leaseDeviceKey l device) family) a T (env 0 w)"
    and "\<And>lease. lo_HolderIdentity lease = Some a \<Longrightarrow> \<not> leaseExpired lease T \<Longrightarrow>
      existing lease now (env 0 w) = (Inr (held_by a), env 0 w)"
    and "fl_HasClient l" "fl_Namespace l \<noteq> []"
  shows "acquire_with existing A l env now device family b w = (Inr (held_by a), env 0 w)"
  using assms by (auto simp: acquire_with_def holds_def Let_def)

lemma Acquire_foreign:
  assumes "holds A (fl_Namespace l) (leaseName (leaseDeviceKey l device) family) a T (env 0 w)"
    and "a \<noteq> b" "a \<noteq> []" "now \<le> T" "fl_HasClient l" "fl_Namespace l \<noteq> []"
  shows "Acquire A l env now device family b w = (Inr (held_by a), env 0 w)"
  unfolding Acquire_def
  by (rule acquire_with_foreign [where env = env and w = w, OF assms(1) _ assms(5,6)])
    (use assms(2-4) in \<open>auto intro: foreign_existing(1) dest: leaseExpired_mono\<close>)

lemma AcquireIfFree_foreign:
  assumes "holds A (fl_Namespace l) (leaseName (leaseDeviceKey l device) family) a T (env 0 w)"
    and "a \<noteq> b" "a \<noteq> []" "fl_HasClient l" "fl_Namespace l \<noteq> []"
  shows "AcquireIfFree A l env now device family b w = (Inr (held_by a), env 0 w)"
  unfolding AcquireIfFree_def
  by (rule acquire_with_foreign [where env = env and w = w, OF assms(1) _ assms(4,5)]) (use assms(2,3) in \<open>auto intro: foreign_existing(2)\<close>)

lemma release_attempt_foreign:
  assumes "holds A (fl_Namespace l) name a T (env 0 w)" "a \<noteq> b"
  shows "release_attempt A l env name family b w = (None, env 0 w)"
  using assms by (auto simp: release_attempt_def holds_def Let_def)

lemma Release_foreign:
  assumes "holds A (fl_Namespace l) (leaseName (leaseDeviceKey l device) family) a T (env 3 0 w)" "a \<noteq> b"
    "fl_HasClient l" "fl_Namespace l \<noteq> []"
  shows "Release A l env device family b w = (None, env 3 0 w)"
  using release_attempt_foreign [where env = "env 3" and w = w, OF assms(1,2), of family] assms(3,4)
  by (simp add: Release_def eval_nat_numeral)

text \<open>
  What parties other than \<open>a\<close> can do to the lease up to the time \<open>T\<close>: any interleaving of their
  acquisitions and releases (the operations of one run inside the environment of another), and
  anything that leaves the stored lease as it is.
\<close>

inductive_set others :: "'w lease_api \<Rightarrow> string \<Rightarrow> string \<Rightarrow> string \<Rightarrow> time \<Rightarrow> ('w \<Rightarrow> 'w) set"
  for A :: "'w lease_api" and ns name a :: string and T :: time where
  elsewhere: "(\<And>w. la_get A ns name (f w) = la_get A ns name w) \<Longrightarrow> f \<in> others A ns name a T"
| seq: "f \<in> others A ns name a T \<Longrightarrow> g \<in> others A ns name a T \<Longrightarrow> (\<lambda>w. g (f w)) \<in> others A ns name a T"
| acquire: "(\<And>i. env i \<in> others A ns name a T) \<Longrightarrow> b \<noteq> a \<Longrightarrow> now \<le> T \<Longrightarrow> fl_Namespace l = ns \<Longrightarrow>
    leaseName (leaseDeviceKey l device) family = name \<Longrightarrow>
    (\<lambda>w. snd (Acquire A l env now device family b w)) \<in> others A ns name a T"
| claim: "(\<And>i. env i \<in> others A ns name a T) \<Longrightarrow> b \<noteq> a \<Longrightarrow> fl_Namespace l = ns \<Longrightarrow>
    leaseName (leaseDeviceKey l device) family = name \<Longrightarrow>
    (\<lambda>w. snd (AcquireIfFree A l env now device family b w)) \<in> others A ns name a T"
| release: "(\<And>n i. env n i \<in> others A ns name a T) \<Longrightarrow> b \<noteq> a \<Longrightarrow> fl_Namespace l = ns \<Longrightarrow>
    leaseName (leaseDeviceKey l device) family = name \<Longrightarrow>
    (\<lambda>w. snd (Release A l env device family b w)) \<in> others A ns name a T"

lemma acquire_with_idle:
  "\<not> fl_HasClient l \<or> fl_Namespace l = [] \<Longrightarrow> snd (acquire_with existing A l env now device family b w) = w"
  by (auto simp: acquire_with_def)

lemma Release_idle:
  "\<not> fl_HasClient l \<or> fl_Namespace l = [] \<Longrightarrow> snd (Release A l env device family b w) = w"
  by (auto simp: Release_def)

theorem others_keep_holder:
  assumes "f \<in> others A ns name a T" "a \<noteq> []" "holds A ns name a T w"
  shows "holds A ns name a T (f w)"
  using assms
proof (induction arbitrary: w rule: others.induct)
  case (elsewhere f)
  then show ?case by (simp add: holds_def)
next
  case (acquire env b now l device family)
  show ?case
  proof (cases "\<not> fl_HasClient l \<or> fl_Namespace l = []")
    case True
    then show ?thesis using acquire.prems by (simp add: Acquire_def acquire_with_idle)
  next
    case False
    have held: "holds A ns name a T (env 0 w)" by (rule acquire.IH [OF acquire.prems])
    with False acquire.hyps acquire.prems show ?thesis by (simp add: Acquire_foreign [of A l device family a T])
  qed
next
  case (claim env b l device family now)
  show ?case
  proof (cases "\<not> fl_HasClient l \<or> fl_Namespace l = []")
    case True
    then show ?thesis using claim.prems by (simp add: AcquireIfFree_def acquire_with_idle)
  next
    case False
    have held: "holds A ns name a T (env 0 w)" by (rule claim.IH [OF claim.prems])
    with False claim.hyps claim.prems show ?thesis by (simp add: AcquireIfFree_foreign [of A l device family a T])
  qed
next
  case (release env b l device family)
  show ?case
  proof (cases "\<not> fl_HasClient l \<or> fl_Namespace l = []")
    case True
    then show ?thesis using release.prems by (simp add: Release_idle)
  next
    case False
    have held: "holds A ns name a T (env 3 0 w)" by (rule release.IH [OF release.prems])
    with False release.hyps release.prems show ?thesis by (simp add: Release_foreign [of A l device family a T])
  qed
qed simp

text \<open>
  The contract a workflow relies on: what it holds survives every step of the other parties.
\<close>

locale held_resource =
  fixes held :: "'w \<Rightarrow> bool" and foreign :: "('w \<Rightarrow> 'w) set"
  assumes foreign_keeps: "f \<in> foreign \<Longrightarrow> held w \<Longrightarrow> held (f w)"
begin

lemma held_run: "set fs \<subseteq> foreign \<Longrightarrow> held w \<Longrightarrow> held (fold (\<lambda>f. f) fs w)"
  by (induction fs arbitrary: w) (auto intro: foreign_keeps)

lemma held_at_call: "set fs \<subseteq> foreign \<Longrightarrow> g \<in> foreign \<Longrightarrow> held w \<Longrightarrow> held (g (fold (\<lambda>f. f) fs w))"
  using held_run foreign_keeps by blast

end

interpretation family_lease: held_resource "holds A ns name a T" "others A ns name a T \<inter> {f. a \<noteq> []}"
  for A :: "'w lease_api" and ns name a T
  by unfold_locales (auto intro: others_keep_holder)

text \<open>Hence a held lease is refused to everyone else, after any run of foreign steps.\<close>

lemma held_refuses:
  assumes "holds A (fl_Namespace l) (leaseName (leaseDeviceKey l device) family) a T w" "a \<noteq> []"
    and "set fs \<subseteq> others A (fl_Namespace l) (leaseName (leaseDeviceKey l device) family) a T"
    and "env 0 \<in> others A (fl_Namespace l) (leaseName (leaseDeviceKey l device) family) a T"
    and "fl_HasClient l" "fl_Namespace l \<noteq> []" "b \<noteq> a" "now \<le> T"
  shows "Acquire A l env now device family b (fold (\<lambda>f. f) fs w) = (Inr (held_by a), env 0 (fold (\<lambda>f. f) fs w))"
    and "AcquireIfFree A l env now' device family b (fold (\<lambda>f. f) fs w) = (Inr (held_by a), env 0 (fold (\<lambda>f. f) fs w))"
proof -
  let ?name = "leaseName (leaseDeviceKey l device) family"
  have held: "holds A (fl_Namespace l) ?name a T (env 0 (fold (\<lambda>f. f) fs w))"
    by (rule family_lease.held_at_call [where g = "env 0"]) (use assms(1-4) in auto)
  show "Acquire A l env now device family b (fold (\<lambda>f. f) fs w) = (Inr (held_by a), env 0 (fold (\<lambda>f. f) fs w))"
    using Acquire_foreign [where env = env, OF held] assms by auto
  show "AcquireIfFree A l env now' device family b (fold (\<lambda>f. f) fs w) = (Inr (held_by a), env 0 (fold (\<lambda>f. f) fs w))"
    using AcquireIfFree_foreign [where env = env, OF held] assms by auto
qed

section \<open>Releasing\<close>

definition not_holder :: "'w lease_api \<Rightarrow> string \<Rightarrow> string \<Rightarrow> string \<Rightarrow> 'w \<Rightarrow> bool" where
  "not_holder A ns name identity w \<longleftrightarrow> (\<forall>lease. la_get A ns name w = Inr lease \<longrightarrow> lo_HolderIdentity lease \<noteq> Some identity)"

text \<open>
  A conditional deletion: afterwards the object is gone, or it was not the one that had been read.
\<close>

definition lease_deletes :: "'w lease_api \<Rightarrow> bool" where
  "lease_deletes A \<longleftrightarrow>
     (\<forall>obj w e w'. la_delete A obj w = (e, w') \<longrightarrow>
        (e = None \<or> e = Some NotFound \<longrightarrow> (\<forall>x. la_get A (lo_Namespace obj) (lo_Name obj) w' \<noteq> Inr x)) \<and>
        (e = Some LeaseConflict \<longrightarrow> w' = w \<and> la_get A (lo_Namespace obj) (lo_Name obj) w \<noteq> Inr obj))"

text \<open>Writers that never make \<open>identity\<close> the holder: whatever they change belongs to someone else.\<close>

definition yields :: "'w lease_api \<Rightarrow> string \<Rightarrow> string \<Rightarrow> string \<Rightarrow> ('w \<Rightarrow> 'w) \<Rightarrow> bool" where
  "yields A ns name identity f \<longleftrightarrow> (\<forall>w. la_get A ns name (f w) = la_get A ns name w \<or> not_holder A ns name identity (f w))"

lemma released_simps [simp]:
  "lo_HolderIdentity (released family lease) = None" "lo_Namespace (released family lease) = lo_Namespace lease"
  "lo_Name (released family lease) = lo_Name lease"
  by (simp_all add: released_def)

lemma delete_done:
  assumes "lease_deletes A" "la_delete A obj w = (e, w')" "e = None \<or> e = Some NotFound"
  shows "not_holder A (lo_Namespace obj) (lo_Name obj) identity w'"
  using assms unfolding lease_deletes_def not_holder_def by blast

lemma delete_conflict:
  assumes "lease_deletes A" "la_delete A obj (f w) = (Some LeaseConflict, w')" "yields A ns name identity f"
    "la_get A ns name w = Inr obj" "lo_Namespace obj = ns" "lo_Name obj = name"
  shows "not_holder A ns name identity w'"
  using assms unfolding lease_deletes_def yields_def by metis

lemma release_attempt_done:
  assumes A: "lease_writes A" "lease_deletes A" and env: "\<And>i. yields A (fl_Namespace l) name identity (env i)"
    and ok: "release_attempt A l env name family identity w = (None, w')"
  shows "not_holder A (fl_Namespace l) name identity w'"
proof (cases "la_get A (fl_Namespace l) name (env 0 w)")
  case (Inl e)
  then show ?thesis using ok by (auto simp: release_attempt_def not_holder_def Let_def split: if_splits)
next
  case (Inr lease)
  from A(1) Inr have at: "lo_Namespace lease = fl_Namespace l" "lo_Name lease = name" unfolding lease_writes_def by blast+
  show ?thesis
  proof (cases "lo_HolderIdentity lease = Some identity")
    case False
    then show ?thesis using Inr ok by (auto simp: release_attempt_def not_holder_def Let_def)
  next
    case holder: True
    show ?thesis
    proof (cases "retained lease")
      case True
      then have "la_update A (released family lease) (env 1 (env 0 w)) = (None, w')"
        using Inr ok holder by (auto simp: release_attempt_def Let_def)
      from lease_writes_update [OF A(1) Inr _ _ this] show ?thesis by (auto simp: not_holder_def as_stored_def)
    next
      case False
      obtain e w1 where e: "la_delete A lease (env 1 (env 0 w)) = (e, w1)" by fastforce
      then have "w1 = w'" "e = None \<or> e = Some NotFound \<or> e = Some LeaseConflict"
        using Inr ok holder False by (auto simp: release_attempt_def Let_def split: option.splits lease_error.splits)
      then show ?thesis
        using delete_done [OF A(2) e] delete_conflict [OF A(2) _ env Inr at] e at by auto
    qed
  qed
qed

lemma release_loop_done:
  assumes A: "lease_writes A" "lease_deletes A" and env: "\<And>n i. yields A (fl_Namespace l) name identity (env n i)"
    and ok: "release_loop n A l env name family identity w = (None, w')"
  shows "not_holder A (fl_Namespace l) name identity w'"
  using ok
proof (induction n arbitrary: w)
  case (Suc n)
  obtain c w1 where c: "release_attempt A l (env n) name family identity w = (c, w1)" by fastforce
  show ?case
  proof (cases "c = Some LeaseConflict")
    case True
    then show ?thesis using Suc c by (auto split: if_splits)
  next
    case False
    then have "c = None" "w1 = w'" using Suc.prems c by (auto split: option.splits lease_error.splits)
    with c show ?thesis using release_attempt_done [OF A env] by simp
  qed
qed simp

lemma Release_done:
  assumes "lease_writes A" "lease_deletes A"
    "\<And>n i. yields A (fl_Namespace l) (leaseName (leaseDeviceKey l device) family) identity (env n i)"
    "Release A l env device family identity w = (None, w')"
  shows "not_holder A (fl_Namespace l) (leaseName (leaseDeviceKey l device) family) identity w'"
  using release_loop_done [OF assms(1-3)] assms(4)
  by (auto simp: Release_def split: if_splits option.splits prod.splits)

end
