(* ===== verification/Mutation_Guard.thy ===== *)
theory Mutation_Guard
  imports Family_Lease "HOL-Library.Product_Lexorder"
begin

text \<open>
  The barrier of \<^verbatim>\<open>internal/provider/mutationguard/guard.go\<close>: which upgrade and
  action objects may still have work running on a device, how long each of them blocks other
  mutations, the one risk all controllers agree on, and the lease taken in its name. The objects
  carry the fields the barrier reads; the API reader is the record \<open>guard_reader\<close>. A pointer that
  may be nil is an \<^typ>\<open>'a option\<close>.
\<close>

subsection \<open>Objects\<close>

record condition =
  cn_Type :: string
  cn_Reason :: string

record upgrade =
  up_Namespace :: string
  up_Name :: string
  up_UID :: string
  up_CreationTimestamp :: time
  up_DeviceRef :: string
  up_ExecutionModel :: string
  up_Phase :: string
  up_FailureReason :: string
  up_StartTime :: "time option"
  up_InstallStartTime :: "time option"
  up_ActivationStartTime :: "time option"
  up_RollbackStartTime :: "time option"
  up_CompletionTime :: "time option"
  up_HasTransferProgress :: bool
  up_StagingRequested :: bool
  up_PrimarySupervisorInstallRequested :: bool
  up_PrimarySupervisorInstalled :: bool
  up_StandbySupervisorInstallRequested :: bool
  up_StandbySupervisorInstalled :: bool
  up_StandbySupervisorActivationRequested :: bool
  up_StandbySupervisorActivated :: bool
  up_PrimarySupervisorActivationRequested :: bool
  up_NoRebootActivationAccepted :: bool
  up_RollbackActivationRequested :: bool
  up_Conditions :: "condition list"

record oper_action =
  ac_Namespace :: string
  ac_Name :: string
  ac_UID :: string
  ac_CreationTimestamp :: time
  ac_DeviceRef :: string
  ac_Kind :: string
  ac_RebootDelaySeconds :: "int option"
  ac_Phase :: string
  ac_InvocationID :: string
  ac_StartTime :: "time option"
  ac_CompletionTime :: "time option"

record risk =
  rk_Kind :: string
  rk_Namespace :: string
  rk_Name :: string
  rk_HolderIdentity :: string
  rk_LeaseTTL :: duration

record guard_result =
  gr_Risk :: "risk option"
  gr_LeaseOwned :: bool
  gr_CallerOwnsRisk :: bool
  gr_ExistingHolder :: string

datatype guard_error = GuardRefused string | ListFailed string string | QuarantineFailed risk lease_failure

record 'w guard_reader =
  rd_upgrades :: "string \<Rightarrow> 'w \<Rightarrow> string + upgrade list"
  rd_actions :: "string \<Rightarrow> 'w \<Rightarrow> string + oper_action list"

abbreviation LegacyIOSXEQuarantineTTL :: duration where "LegacyIOSXEQuarantineTTL \<equiv> 26 * hour"
abbreviation AtMostOnceV1 :: string where "AtMostOnceV1 \<equiv> ''AtMostOnceV1''"

subsection \<open>Time limits\<close>

definition RenewalInterval :: "duration \<Rightarrow> duration" where
  "RenewalInterval ttl =
     (let interval = go_div ttl 2;
          interval = (if interval > 5 * minute then 5 * minute else interval)
      in if interval < second then second else interval)"

text \<open>The latest of an anchor and the time stamps that are present.\<close>

definition later :: "time option \<Rightarrow> time \<Rightarrow> time" where
  "later candidate anchor = (case candidate of Some t \<Rightarrow> if t > anchor then t else anchor | None \<Rightarrow> anchor)"

definition remaining_after :: "time \<Rightarrow> time \<Rightarrow> duration \<Rightarrow> duration \<times> bool" where
  "remaining_after anchor now d =
     (if IsZero anchor then (d, True)
      else let remaining = time_sub (anchor + d) now
           in if remaining \<le> 0 then (0, False)
              else if remaining > d then (d, True) else (remaining, True))"

definition remainingUpgradeQuarantine :: "upgrade \<Rightarrow> time \<Rightarrow> duration \<Rightarrow> duration \<times> bool" where
  "remainingUpgradeQuarantine up now d =
     remaining_after
       (fold later [up_StartTime up, up_InstallStartTime up, up_ActivationStartTime up, up_RollbackStartTime up,
                    up_CompletionTime up] (up_CreationTimestamp up)) now d"

definition settled_phases :: "string list" where
  "settled_phases = ['''', ''Pending'', ''Resolving'', ''Succeeded'', ''StagedForNextBoot'', ''PreflightFailed'', ''RolledBack'',
     ''Cancelled'']"

definition upgradeQuarantineTTL :: "upgrade option \<Rightarrow> time \<Rightarrow> duration \<times> bool" where
  "upgradeQuarantineTTL up now =
     (case up of None \<Rightarrow> (0, False)
      | Some up \<Rightarrow>
          if up_ExecutionModel up \<noteq> '''' \<and> up_ExecutionModel up \<noteq> AtMostOnceV1 then (LegacyIOSXEQuarantineTTL, True)
          else if up_ExecutionModel up \<noteq> '''' then (0, False)
          else if up_Phase up \<in> set settled_phases then (0, False)
          else if up_Phase up \<in> set [''Failed'', ''ValidationFailed'', ''RebootTimeout'']
          then remainingUpgradeQuarantine up now LegacyIOSXEQuarantineTTL
          else (LegacyIOSXEQuarantineTTL, True))"

definition UpgradeRequiresQuarantineAt :: "upgrade option \<Rightarrow> time \<Rightarrow> bool" where
  "UpgradeRequiresQuarantineAt up now = snd (upgradeQuarantineTTL up now)"

definition legacyRebootDelay :: "oper_action option \<Rightarrow> duration" where
  "legacyRebootDelay act =
     (case act of None \<Rightarrow> 0
      | Some act \<Rightarrow>
          if ac_Kind act \<noteq> ''Reboot'' then 0
          else case ac_RebootDelaySeconds act of None \<Rightarrow> 0
             | Some seconds \<Rightarrow>
                 if seconds \<le> 0 then 0
                 else (if seconds > 7 * 24 * 60 * 60 then 7 * 24 * 60 * 60 else seconds) * second)"

definition remainingTerminalQuarantine :: "oper_action \<Rightarrow> time \<Rightarrow> duration \<Rightarrow> duration \<times> bool" where
  "remainingTerminalQuarantine act now d =
     remaining_after (fold later [ac_StartTime act, ac_CompletionTime act] (ac_CreationTimestamp act)) now d"

definition actionQuarantineTTL :: "oper_action option \<Rightarrow> time \<Rightarrow> duration \<times> bool" where
  "actionQuarantineTTL act0 now =
     (case act0 of None \<Rightarrow> (0, False)
      | Some act \<Rightarrow>
          if ac_Kind act = ''CancelReboot'' \<or> ac_InvocationID act = '''' then (0, False)
          else let delay = legacyRebootDelay act0
               in if ac_Phase act = ''Running'' then (LegacyIOSXEQuarantineTTL + delay, True)
                  else if ac_Phase act = ''Failed'' then remainingTerminalQuarantine act now (LegacyIOSXEQuarantineTTL + delay)
                  else if ac_Phase act = ''Succeeded'' \<and> ac_Kind act = ''Reboot''
                  then remainingTerminalQuarantine act now (LegacyIOSXEQuarantineTTL + delay)
                  else if ac_Phase act = ''Succeeded'' \<and> ac_Kind act = ''FactoryReset''
                  then remainingTerminalQuarantine act now LegacyIOSXEQuarantineTTL
                  else (0, False))"

definition ActionRequiresQuarantine :: "oper_action option \<Rightarrow> bool" where
  "ActionRequiresQuarantine act =
     (case act of None \<Rightarrow> False
      | Some act \<Rightarrow> ac_Kind act \<noteq> ''CancelReboot'' \<and> ac_Phase act = ''Running'' \<and> ac_InvocationID act \<noteq> '''')"

definition ActionRequiresQuarantineAt :: "oper_action option \<Rightarrow> time \<Rightarrow> bool" where
  "ActionRequiresQuarantineAt act now = snd (actionQuarantineTTL act now)"

subsection \<open>Evidence of dispatched work\<close>

definition upgradePhaseMayHaveDispatchedMutation :: "string \<Rightarrow> bool" where
  "upgradePhaseMayHaveDispatchedMutation phase \<longleftrightarrow> phase \<notin> set settled_phases"

definition dispatch_condition :: "condition \<Rightarrow> bool" where
  "dispatch_condition c \<longleftrightarrow>
     cn_Type c = ''Staged'' \<and> cn_Reason c = ''StagingRequested'' \<or>
     cn_Type c = ''DeviceMutationSettled'' \<and> cn_Reason c = ''MutationRequested'' \<or>
     cn_Type c = ''Transferred'' \<and>
       cn_Reason c \<in> set [''InstallRequested'', ''InstallObservationPending'', ''InstallInProgress'', ''SupervisorSync'',
                          ''Transferred''] \<or>
     cn_Type c = ''Activated'' \<and> cn_Reason c = ''ActivationRequested'' \<or>
     cn_Type c = ''Activated'' \<and> cn_Reason c = ''StandbyActivationRequested'' \<or>
     cn_Type c = ''Rollback'' \<and> cn_Reason c \<in> set [''RollbackRequested'', ''RollbackDispatched'']"

definition UpgradeMutationSubmitted :: "upgrade option \<Rightarrow> bool" where
  "UpgradeMutationSubmitted up =
     (case up of None \<Rightarrow> False
      | Some up \<Rightarrow>
          up_ExecutionModel up \<noteq> '''' \<and> up_ExecutionModel up \<noteq> AtMostOnceV1 \<or>
          up_ExecutionModel up = '''' \<and> upgradePhaseMayHaveDispatchedMutation (up_Phase up) \<or>
          up_FailureReason up \<in> set [''LegacyStateOutcomeUnknown'', ''InstallAttemptMarkerMissing'', ''StagingOperationMissing''] \<or>
          up_StagingRequested up \<or> up_InstallStartTime up \<noteq> None \<or> up_ActivationStartTime up \<noteq> None \<or>
          up_RollbackStartTime up \<noteq> None \<or> up_HasTransferProgress up \<or>
          up_PrimarySupervisorInstallRequested up \<or> up_PrimarySupervisorInstalled up \<or>
          up_StandbySupervisorInstallRequested up \<or> up_StandbySupervisorInstalled up \<or>
          up_StandbySupervisorActivationRequested up \<or> up_StandbySupervisorActivated up \<or>
          up_PrimarySupervisorActivationRequested up \<or> up_NoRebootActivationAccepted up \<or>
          up_RollbackActivationRequested up \<or>
          list_ex dispatch_condition (up_Conditions up))"

subsection \<open>The canonical risk\<close>

definition UpgradeHolderIdentity :: "upgrade option \<Rightarrow> string" where
  "UpgradeHolderIdentity up =
     (case up of None \<Rightarrow> ''''
      | Some up \<Rightarrow> HolderIdentity ''software-upgrade'' (up_Namespace up) (up_Name up) (up_UID up))"

definition ActionHolderIdentity :: "oper_action option \<Rightarrow> string" where
  "ActionHolderIdentity act =
     (case act of None \<Rightarrow> ''''
      | Some act \<Rightarrow> HolderIdentity ''operational-action'' (ac_Namespace act) (ac_Name act) (ac_UID act))"

definition upgrade_risk :: "string \<Rightarrow> time \<Rightarrow> upgrade \<Rightarrow> risk option" where
  "upgrade_risk deviceName now up =
     (if up_DeviceRef up \<noteq> deviceName then None
      else case upgradeQuarantineTTL (Some up) now of
        (leaseTTL, risky) \<Rightarrow>
          if \<not> risky then None
          else Some \<lparr> rk_Kind = ''IOSXESoftwareUpgrade'', rk_Namespace = up_Namespace up, rk_Name = up_Name up,
                      rk_HolderIdentity = UpgradeHolderIdentity (Some up), rk_LeaseTTL = leaseTTL \<rparr>)"

definition action_risk :: "string \<Rightarrow> time \<Rightarrow> oper_action \<Rightarrow> risk option" where
  "action_risk deviceName now act =
     (if ac_DeviceRef act \<noteq> deviceName then None
      else case actionQuarantineTTL (Some act) now of
        (leaseTTL, risky) \<Rightarrow>
          if \<not> risky then None
          else Some \<lparr> rk_Kind = ''IOSXEOperationalAction'', rk_Namespace = ac_Namespace act, rk_Name = ac_Name act,
                      rk_HolderIdentity = ActionHolderIdentity (Some act), rk_LeaseTTL = leaseTTL \<rparr>)"

definition risk_key :: "risk \<Rightarrow> string \<times> string \<times> string \<times> string" where
  "risk_key r = (rk_Kind r, rk_Namespace r, rk_Name r, rk_HolderIdentity r)"

definition least_risk :: "risk list \<Rightarrow> risk option" where
  "least_risk risks = (case sort_key risk_key risks of [] \<Rightarrow> None | r # _ \<Rightarrow> Some r)"

definition FindCanonicalRisk ::
  "'w guard_reader option \<Rightarrow> (nat \<Rightarrow> 'w \<Rightarrow> 'w) \<Rightarrow> string \<Rightarrow> string \<Rightarrow> time \<Rightarrow> 'w \<Rightarrow> (guard_error + risk option) \<times> 'w" where
  "FindCanonicalRisk reader env namespace deviceName now w =
     (case reader of None \<Rightarrow> (Inl (GuardRefused ''legacy mutation guard requires an API reader''), w)
      | Some R \<Rightarrow>
          let w0 = env 0 w
          in case rd_upgrades R namespace w0 of
               Inl e \<Rightarrow> (Inl (ListFailed ''IOSXESoftwareUpgrade'' e), w0)
             | Inr upgrades \<Rightarrow>
                 let w1 = env 1 w0
                 in case rd_actions R namespace w1 of
                      Inl e \<Rightarrow> (Inl (ListFailed ''IOSXEOperationalAction'' e), w1)
                    | Inr actions \<Rightarrow>
                        (Inr (least_risk (List.map_filter (upgrade_risk deviceName now) upgrades @
                                          List.map_filter (action_risk deviceName now) actions)), w1))"

text \<open>
  \<open>clock\<close> is the time \<open>Acquire\<close> itself reads, \<open>env'\<close> the other writers during it.
\<close>

definition no_result :: guard_result where
  "no_result = \<lparr> gr_Risk = None, gr_LeaseOwned = False, gr_CallerOwnsRisk = False, gr_ExistingHolder = '''' \<rparr>"

definition ensureCanonicalQuarantine ::
  "'w guard_reader option \<Rightarrow> 'w lease_api \<Rightarrow> leaser option \<Rightarrow> (nat \<Rightarrow> 'w \<Rightarrow> 'w) \<Rightarrow> (nat \<Rightarrow> 'w \<Rightarrow> 'w) \<Rightarrow> time \<Rightarrow>
   string \<Rightarrow> string \<Rightarrow> string \<Rightarrow> string \<Rightarrow> time \<Rightarrow> 'w \<Rightarrow> (guard_result \<times> guard_error option) \<times> 'w" where
  "ensureCanonicalQuarantine reader A leaser env env' clock namespace deviceName deviceKey callerIdentity now w =
     (case FindCanonicalRisk reader env namespace deviceName now w of
        (Inl e, w1) \<Rightarrow> ((no_result, Some e), w1)
      | (Inr None, w1) \<Rightarrow> ((no_result, None), w1)
      | (Inr (Some risk), w1) \<Rightarrow>
          let at_risk = no_result\<lparr> gr_Risk := Some risk \<rparr>
          in case leaser of
               None \<Rightarrow> ((at_risk, Some (GuardRefused ''mutation leaser is not configured'')), w1)
             | Some l \<Rightarrow>
                 let guardLeaser = (if rk_LeaseTTL risk > 0 then l\<lparr> fl_TTL := rk_LeaseTTL risk \<rparr> else l)
                 in case Acquire A guardLeaser env' clock deviceKey MutationLeaseFamily (rk_HolderIdentity risk) w1 of
                      (Inl e, w2) \<Rightarrow> ((at_risk, Some (QuarantineFailed risk e)), w2)
                    | (Inr lr, w2) \<Rightarrow>
                        ((\<lparr> gr_Risk = Some risk, gr_LeaseOwned = lr_Owned lr,
                            gr_CallerOwnsRisk = (lr_Owned lr \<and> callerIdentity = rk_HolderIdentity risk),
                            gr_ExistingHolder = lr_Holder lr \<rparr>, None), w2))"

text \<open>The two exported entries differ only in what their callers may do afterwards.\<close>

definition EnsureCanonicalQuarantine ::
  "'w guard_reader option \<Rightarrow> 'w lease_api \<Rightarrow> leaser option \<Rightarrow> (nat \<Rightarrow> 'w \<Rightarrow> 'w) \<Rightarrow> (nat \<Rightarrow> 'w \<Rightarrow> 'w) \<Rightarrow> time \<Rightarrow>
   string \<Rightarrow> string \<Rightarrow> string \<Rightarrow> string \<Rightarrow> time \<Rightarrow> 'w \<Rightarrow> (guard_result \<times> guard_error option) \<times> 'w" where
  "EnsureCanonicalQuarantine reader A leaser env env' clock namespace deviceName deviceKey callerIdentity now w =
     ensureCanonicalQuarantine reader A leaser env env' clock namespace deviceName deviceKey callerIdentity now w"

definition EnsureCanonicalQuarantineForDeletion ::
  "'w guard_reader option \<Rightarrow> 'w lease_api \<Rightarrow> leaser option \<Rightarrow> (nat \<Rightarrow> 'w \<Rightarrow> 'w) \<Rightarrow> (nat \<Rightarrow> 'w \<Rightarrow> 'w) \<Rightarrow> time \<Rightarrow>
   string \<Rightarrow> string \<Rightarrow> string \<Rightarrow> string \<Rightarrow> time \<Rightarrow> 'w \<Rightarrow> (guard_result \<times> guard_error option) \<times> 'w" where
  "EnsureCanonicalQuarantineForDeletion reader A leaser env env' clock namespace deviceName deviceKey callerIdentity now w =
     ensureCanonicalQuarantine reader A leaser env env' clock namespace deviceName deviceKey callerIdentity now w"

section \<open>Bounds on the barrier\<close>

lemma later_le: "anchor \<le> later candidate anchor"
  by (auto simp: later_def split: option.splits)

lemma remaining_after_bounds:
  assumes "remaining_after anchor now d = (ttl, True)" "0 < d"
  shows "0 < ttl \<and> ttl \<le> d"
  using assms by (auto simp: remaining_after_def Let_def split: if_splits)

lemma legacyRebootDelay_bounds: "0 \<le> legacyRebootDelay act \<and> legacyRebootDelay act \<le> 7 * 24 * hour"
  by (auto simp: legacyRebootDelay_def split: option.splits)

lemma upgrade_ttl_bounds:
  "upgradeQuarantineTTL up now = (ttl, True) \<Longrightarrow> 0 < ttl \<and> ttl \<le> LegacyIOSXEQuarantineTTL"
  by (auto simp: upgradeQuarantineTTL_def remainingUpgradeQuarantine_def
      dest!: remaining_after_bounds split: option.splits if_splits)

lemma terminal_bounds:
  "remainingTerminalQuarantine act now d = (ttl, True) \<Longrightarrow> 0 < d \<Longrightarrow> 0 < ttl \<and> ttl \<le> d"
  unfolding remainingTerminalQuarantine_def by (rule remaining_after_bounds)

lemma action_ttl_bounds:
  assumes "actionQuarantineTTL act now = (ttl, True)"
  shows "0 < ttl \<and> ttl \<le> LegacyIOSXEQuarantineTTL + legacyRebootDelay act"
proof -
  have d: "0 \<le> legacyRebootDelay act" using legacyRebootDelay_bounds by simp
  show ?thesis using assms d
    by (auto simp: actionQuarantineTTL_def Let_def dest!: terminal_bounds split: option.splits if_splits)
qed

text \<open>A quarantine that is no whole number of seconds is shortened to one, but never to none.\<close>

lemma go_div_second: "0 \<le> d \<Longrightarrow> go_div d second = d div second"
  by (cases "d = 0") (auto simp: go_div_def)

lemma ttlSeconds_quarantine:
  assumes "0 < d" "d \<le> 194 * hour"
  shows "ttlSeconds (l\<lparr> fl_TTL := d \<rparr>) = max 1 (d div second)"
proof -
  have "d div second \<le> 194 * 3600" using assms(2) by linarith
  moreover have "0 \<le> d div second" using assms(1) by simp
  ultimately have "to_int32 (d div second) = d div second" by (simp add: to_int32_def)
  then show ?thesis using assms(1) by (auto simp: ttlSeconds_def Let_def go_div_second)
qed

section \<open>Agreement on the risk\<close>

lemma least_risk_None: "least_risk risks = None \<longleftrightarrow> risks = []"
proof -
  have "sort_key risk_key risks = [] \<longleftrightarrow> risks = []" by (metis length_0_conv length_sort)
  then show ?thesis by (auto simp: least_risk_def split: list.splits)
qed

lemma least_risk_Some:
  assumes "least_risk risks = Some r"
  shows "r \<in> set risks \<and> (\<forall>r' \<in> set risks. risk_key r \<le> risk_key r')"
proof -
  from assms obtain rs where rs: "sort_key risk_key risks = r # rs" by (auto simp: least_risk_def split: list.splits)
  have "sorted (map risk_key (r # rs))" using sorted_sort_key [of risk_key risks] by (simp add: rs)
  moreover have "set (r # rs) = set risks" using set_sort [of risk_key risks] by (simp add: rs)
  ultimately show ?thesis by auto
qed

lemma least_risk_set:
  assumes "set xs = set ys" "inj_on risk_key (set xs)"
  shows "least_risk xs = least_risk ys"
proof (cases "least_risk xs")
  case None
  then show ?thesis using assms(1) by (metis least_risk_None set_empty)
next
  case (Some x)
  then have "ys \<noteq> []" using least_risk_None [of xs] assms(1) by auto
  then obtain y where y: "least_risk ys = Some y" using least_risk_None by fastforce
  from least_risk_Some [OF Some] least_risk_Some [OF y] assms(1) have "risk_key x = risk_key y" "x \<in> set xs" "y \<in> set xs"
    by (auto intro: order.antisym)
  with assms(2) Some y show ?thesis by (simp add: inj_on_eq_iff)
qed

text \<open>Objects of one kind have distinct names in a namespace.\<close>

definition named_apart :: "upgrade list \<Rightarrow> oper_action list \<Rightarrow> bool" where
  "named_apart ups acts \<longleftrightarrow> inj_on (\<lambda>u. (up_Namespace u, up_Name u)) (set ups) \<and> inj_on (\<lambda>a. (ac_Namespace a, ac_Name a)) (set acts)"

abbreviation all_risks :: "string \<Rightarrow> time \<Rightarrow> upgrade list \<Rightarrow> oper_action list \<Rightarrow> risk list" where
  "all_risks dev now ups acts \<equiv> List.map_filter (upgrade_risk dev now) ups @ List.map_filter (action_risk dev now) acts"

lemma in_map_filter: "y \<in> set (List.map_filter f xs) \<longleftrightarrow> (\<exists>x \<in> set xs. f x = Some y)"
  by (force simp: List.map_filter_def)

lemma set_map_filter_cong: "set xs = set ys \<Longrightarrow> set (List.map_filter f xs) = set (List.map_filter f ys)"
  by (auto simp: in_map_filter)

lemma upgrade_risk_Some:
  "upgrade_risk dev now up = Some r \<Longrightarrow>
     risk_key r = (''IOSXESoftwareUpgrade'', up_Namespace up, up_Name up, UpgradeHolderIdentity (Some up))"
  by (auto simp: upgrade_risk_def risk_key_def split: if_splits prod.splits)

lemma action_risk_Some:
  "action_risk dev now act = Some r \<Longrightarrow>
     risk_key r = (''IOSXEOperationalAction'', ac_Namespace act, ac_Name act, ActionHolderIdentity (Some act))"
  by (auto simp: action_risk_def risk_key_def split: if_splits prod.splits)

lemma map_filter_None: "List.map_filter f xs = [] \<longleftrightarrow> (\<forall>x \<in> set xs. f x = None)"
  by (auto simp: List.map_filter_def filter_empty_conv)

lemma upgrade_risk_None:
  "upgrade_risk dev now u = None \<longleftrightarrow> (up_DeviceRef u = dev \<longrightarrow> \<not> UpgradeRequiresQuarantineAt (Some u) now)"
  by (auto simp: upgrade_risk_def UpgradeRequiresQuarantineAt_def split: prod.splits)

lemma action_risk_None:
  "action_risk dev now a = None \<longleftrightarrow> (ac_DeviceRef a = dev \<longrightarrow> \<not> ActionRequiresQuarantineAt (Some a) now)"
  by (auto simp: action_risk_def ActionRequiresQuarantineAt_def split: prod.splits)

lemma kinds_differ:
  "upgrade_risk dev now up = Some r \<Longrightarrow> action_risk dev now act = Some r' \<Longrightarrow> risk_key r = risk_key r' \<Longrightarrow> False"
  by (auto dest!: upgrade_risk_Some action_risk_Some)

lemma all_risks_inj:
  assumes "named_apart ups acts"
  shows "inj_on risk_key (set (all_risks dev now ups acts))"
proof (rule inj_onI)
  fix r r'
  assume r: "r \<in> set (all_risks dev now ups acts)" "r' \<in> set (all_risks dev now ups acts)" and key: "risk_key r = risk_key r'"
  consider (up) u u' where "u \<in> set ups" "u' \<in> set ups" "upgrade_risk dev now u = Some r" "upgrade_risk dev now u' = Some r'"
    | (act) a a' where "a \<in> set acts" "a' \<in> set acts" "action_risk dev now a = Some r" "action_risk dev now a' = Some r'"
    using r kinds_differ [OF _ _ key] kinds_differ [OF _ _ key [symmetric]] unfolding set_append Un_iff in_map_filter by blast
  then show "r = r'"
  proof cases
    case up
    with key have "u = u'" using assms
      by (auto simp: named_apart_def dest!: upgrade_risk_Some dest: inj_onD)
    with up show ?thesis by simp
  next
    case act
    with key have "a = a'" using assms
      by (auto simp: named_apart_def dest!: action_risk_Some dest: inj_onD)
    with act show ?thesis by simp
  qed
qed

lemma canonical_risk_set:
  assumes "set ups = set ups'" "set acts = set acts'" "named_apart ups acts"
  shows "least_risk (all_risks dev now ups acts) = least_risk (all_risks dev now ups' acts')"
  using assms by (intro least_risk_set all_risks_inj) (auto simp: in_map_filter)

section \<open>Consistency of the two predicates\<close>

lemma quarantine_submitted: "UpgradeRequiresQuarantineAt up now \<Longrightarrow> UpgradeMutationSubmitted up"
  by (auto simp: UpgradeRequiresQuarantineAt_def upgradeQuarantineTTL_def UpgradeMutationSubmitted_def
      upgradePhaseMayHaveDispatchedMutation_def split: option.splits if_splits)

lemma running_quarantined: "ActionRequiresQuarantine act \<Longrightarrow> ActionRequiresQuarantineAt act now"
  by (auto simp: ActionRequiresQuarantine_def ActionRequiresQuarantineAt_def actionQuarantineTTL_def Let_def split: option.splits)

section \<open>The lease of a risk\<close>

lemma upgrade_risk_ttl:
  "upgrade_risk dev now up = Some r \<Longrightarrow> upgradeQuarantineTTL (Some up) now = (rk_LeaseTTL r, True)"
  by (auto simp: upgrade_risk_def split: if_splits prod.splits)

lemma action_risk_ttl:
  "action_risk dev now act = Some r \<Longrightarrow> actionQuarantineTTL (Some act) now = (rk_LeaseTTL r, True)"
  by (auto simp: action_risk_def split: if_splits prod.splits)

lemma risk_ttl_bounds:
  assumes "r \<in> set (all_risks dev now ups acts)"
  shows "0 < rk_LeaseTTL r \<and> rk_LeaseTTL r \<le> 194 * hour"
proof -
  have "actionQuarantineTTL act now = (ttl, True) \<Longrightarrow> 0 < ttl \<and> ttl \<le> 194 * hour" for act ttl
    using action_ttl_bounds [of act now ttl] legacyRebootDelay_bounds [of act] by auto
  moreover have "upgradeQuarantineTTL up now = (ttl, True) \<Longrightarrow> 0 < ttl \<and> ttl \<le> 194 * hour" for up ttl
    using upgrade_ttl_bounds [of up now ttl] by simp
  ultimately show ?thesis
    using assms unfolding set_append Un_iff in_map_filter by (blast dest: upgrade_risk_ttl action_risk_ttl)
qed

lemma HolderIdentity_nonempty: "workflow \<noteq> [] \<Longrightarrow> HolderIdentity workflow ns name uid \<noteq> []"
  by (simp add: HolderIdentity_def)

lemma risk_identity_nonempty:
  "r \<in> set (all_risks dev now ups acts) \<Longrightarrow> rk_HolderIdentity r \<noteq> []"
  by (auto simp: in_map_filter UpgradeHolderIdentity_def ActionHolderIdentity_def HolderIdentity_nonempty HolderIdentity_nonempty [THEN not_sym] risk_key_def
      dest!: upgrade_risk_Some action_risk_Some)

lemma FindCanonicalRisk_Some:
  assumes "FindCanonicalRisk reader env ns dev now w = (Inr (Some r), w1)"
  obtains ups acts where "r \<in> set (all_risks dev now ups acts)"
  using assms
  by (auto simp: FindCanonicalRisk_def Let_def split: option.splits sum.splits dest!: least_risk_Some)

lemma quarantine_acquired:
  assumes r: "ensureCanonicalQuarantine reader A leaser env env' clock ns dev key caller now w = ((res, None), w')"
    "gr_LeaseOwned res"
  obtains risk l w1 lr where "FindCanonicalRisk reader env ns dev now w = (Inr (Some risk), w1)" "leaser = Some l"
    "0 < rk_LeaseTTL risk" "rk_LeaseTTL risk \<le> 194 * hour" "rk_HolderIdentity risk \<noteq> []" "gr_Risk res = Some risk"
    "Acquire A (l\<lparr> fl_TTL := rk_LeaseTTL risk \<rparr>) env' clock key MutationLeaseFamily (rk_HolderIdentity risk) w1 = (Inr lr, w')"
    "lr_Owned lr" "gr_CallerOwnsRisk res \<longleftrightarrow> caller = rk_HolderIdentity risk"
proof -
  obtain risk w1 where risk: "FindCanonicalRisk reader env ns dev now w = (Inr (Some risk), w1)"
    using r by (auto simp: ensureCanonicalQuarantine_def no_result_def split: prod.splits sum.splits option.splits)
  then obtain ups acts where "risk \<in> set (all_risks dev now ups acts)" by (rule FindCanonicalRisk_Some)
  note bounds = risk_ttl_bounds [OF this] risk_identity_nonempty [OF this]
  obtain l where l: "leaser = Some l" using r risk by (cases leaser) (auto simp: ensureCanonicalQuarantine_def)
  obtain x w2 where x: "Acquire A (l\<lparr> fl_TTL := rk_LeaseTTL risk \<rparr>) env' clock key MutationLeaseFamily (rk_HolderIdentity risk) w1 = (x, w2)"
    by fastforce
  show ?thesis
  proof (cases x)
    case (Inl e)
    then show ?thesis using r risk l x bounds by (simp add: ensureCanonicalQuarantine_def)
  next
    case (Inr lr)
    then show ?thesis using r risk l x bounds that [OF risk l] by (auto simp: ensureCanonicalQuarantine_def)
  qed
qed

end
