(* ===== verification/Lease_Properties.thy ===== *)
theory Lease_Properties
  imports Mutation_Guard
begin

text \<open>
  What the leases and the mutation barrier guarantee, each on a concrete in-memory API where it has
  hypotheses.
\<close>

section \<open>An API in memory\<close>












abbreviation quiet :: "nat \<Rightarrow> 'w \<Rightarrow> 'w" where "quiet \<equiv> \<lambda>_ w. w"


section \<open>Leases\<close>










text \<open>
  C30: the name of a lease is always one the API server accepts: at most 253 bytes, only lower-case
  letters, digits and dashes, with a letter or a digit at both ends, whatever the device and the
  family are called.
\<close>

theorem lease_name_admissible: "dns_name (leaseName device family)"
  by (rule leaseName_dns)

section \<open>The mutation barrier\<close>

text \<open>
  C31: all controllers agree on the risk. Two readings of the same objects, in any order, give the
  same canonical risk, since objects of a kind have distinct names; and there is one exactly when
  some object of the device requires quarantine.
\<close>

theorem canonical_risk_agreement:
  assumes "rd_upgrades R ns (env 0 w) = Inr ups" "rd_actions R ns (env 1 (env 0 w)) = Inr acts"
    and "rd_upgrades R' ns (env' 0 w') = Inr ups'" "rd_actions R' ns (env' 1 (env' 0 w')) = Inr acts'"
    and "set ups = set ups'" "set acts = set acts'" "named_apart ups acts"
  shows "fst (FindCanonicalRisk (Some R) env ns dev now w) = fst (FindCanonicalRisk (Some R') env' ns dev now w') \<and>
    (fst (FindCanonicalRisk (Some R) env ns dev now w) = Inr None \<longleftrightarrow>
       (\<forall>u \<in> set ups. up_DeviceRef u = dev \<longrightarrow> \<not> UpgradeRequiresQuarantineAt (Some u) now) \<and>
       (\<forall>a \<in> set acts. ac_DeviceRef a = dev \<longrightarrow> \<not> ActionRequiresQuarantineAt (Some a) now))"
proof -
  have found: "fst (FindCanonicalRisk (Some R) env ns dev now w) = Inr (least_risk (all_risks dev now ups acts))"
    "fst (FindCanonicalRisk (Some R') env' ns dev now w') = Inr (least_risk (all_risks dev now ups' acts'))"
    using assms(1-4) by (simp_all add: FindCanonicalRisk_def)
  show ?thesis
    unfolding found using canonical_risk_set [OF assms(5-7)]
    by (simp add: least_risk_None map_filter_None upgrade_risk_None action_risk_None assms(5,6))
qed

definition ex_upgrade :: upgrade where
  "ex_upgrade = \<lparr> up_Namespace = ''ns'', up_Name = ''up'', up_UID = ''u1'', up_CreationTimestamp = 1000 * second, up_DeviceRef = ''dev'',
     up_ExecutionModel = '''', up_Phase = ''Activating'', up_FailureReason = '''', up_StartTime = None, up_InstallStartTime = None,
     up_ActivationStartTime = None, up_RollbackStartTime = None, up_CompletionTime = None, up_HasTransferProgress = False,
     up_StagingRequested = False, up_PrimarySupervisorInstallRequested = False, up_PrimarySupervisorInstalled = False,
     up_StandbySupervisorInstallRequested = False, up_StandbySupervisorInstalled = False,
     up_StandbySupervisorActivationRequested = False, up_StandbySupervisorActivated = False,
     up_PrimarySupervisorActivationRequested = False, up_NoRebootActivationAccepted = False,
     up_RollbackActivationRequested = False, up_Conditions = [] \<rparr>"

definition ex_action :: oper_action where
  "ex_action = \<lparr> ac_Namespace = ''ns'', ac_Name = ''act'', ac_UID = ''a1'', ac_CreationTimestamp = 1000 * second, ac_DeviceRef = ''dev'',
     ac_Kind = ''Reboot'', ac_RebootDelaySeconds = Some 60, ac_Phase = ''Failed'', ac_InvocationID = ''i'', ac_StartTime = None,
     ac_CompletionTime = Some (2000 * second) \<rparr>"

definition ex_reader :: "lease_obj list guard_reader" where
  "ex_reader = \<lparr> rd_upgrades = (\<lambda>ns _. Inr [ex_upgrade]), rd_actions = (\<lambda>ns _. Inr [ex_action]) \<rparr>"

definition ex_fleet :: "upgrade list" where
  "ex_fleet = [ex_upgrade, ex_upgrade\<lparr> up_Name := ''up-2'', up_UID := ''u2'' \<rparr>]"

definition ex_listing :: "upgrade list \<Rightarrow> lease_obj list guard_reader" where
  "ex_listing ups = ex_reader\<lparr> rd_upgrades := \<lambda>ns _. Inr ups \<rparr>"

theorem canonical_risk_agreement_witness:
  "fst (FindCanonicalRisk (Some (ex_listing ex_fleet)) quiet ''ns'' ''dev'' (3000 * second) []) =
     fst (FindCanonicalRisk (Some (ex_listing (rev ex_fleet))) quiet ''ns'' ''dev'' (3000 * second) []) \<and>
   fst (FindCanonicalRisk (Some (ex_listing ex_fleet)) quiet ''ns'' ''dev'' (3000 * second) []) \<noteq> Inr None"
proof -
  have risky: "ex_upgrade \<in> set ex_fleet" "UpgradeRequiresQuarantineAt (Some ex_upgrade) (3000 * second)" "up_DeviceRef ex_upgrade = ''dev''"
    by (simp_all add: ex_fleet_def UpgradeRequiresQuarantineAt_def upgradeQuarantineTTL_def ex_upgrade_def settled_phases_def)
  have lists: "rd_upgrades (ex_listing ups) ns w = Inr ups" "rd_actions (ex_listing ups) ns w = Inr [ex_action]" for ups ns w
    by (simp_all add: ex_listing_def ex_reader_def)
  have apart: "named_apart ex_fleet [ex_action]" by (simp add: named_apart_def ex_fleet_def ex_upgrade_def)
  show ?thesis
    using canonical_risk_agreement [where env = quiet and env' = quiet, OF lists lists set_rev [symmetric] refl apart] risky by blast
qed











end
