(* ===== verification/Go_Strings.thy ===== *)
theory Go_Strings
  imports Go_Text "HOL-Library.Sublist"
begin

text \<open>Searching in strings, and the lemmas on occurrences that the text formats share.\<close>

text \<open>\<^verbatim>\<open>strings.Index\<close>: the offset of the first occurrence.\<close>

fun Index :: "string \<Rightarrow> string \<Rightarrow> nat option" where
  "Index [] sub = (if sub = [] then Some 0 else None)"
| "Index (c # cs) sub = (if prefix sub (c # cs) then Some 0 else map_option Suc (Index cs sub))"

section \<open>Lemmas\<close>

lemma Index_least:
  "\<lbrakk>\<And>i. i < n \<Longrightarrow> \<not> prefix p (drop i s); prefix p (drop n s); n \<le> length s\<rbrakk> \<Longrightarrow> Index s p = Some n"
proof (induction s arbitrary: n)
  case (Cons c s)
  show ?case
  proof (cases n)
    case 0
    then show ?thesis using Cons.prems by simp
  next
    case (Suc m)
    have "Index s p = Some m" by (rule Cons.IH) (use Cons.prems Suc in \<open>force+\<close>)
    moreover have "\<not> prefix p (c # s)" using Cons.prems(1) [of 0] Suc by simp
    ultimately show ?thesis using Suc by simp
  qed
qed simp

lemma Index_None: "(\<And>i. i \<le> length s \<Longrightarrow> \<not> prefix p (drop i s)) \<Longrightarrow> Index s p = None"
proof (induction s)
  case (Cons c s)
  have "Index s p = None" by (rule Cons.IH) (use Cons.prems [of "Suc _"] in simp)
  moreover have "\<not> prefix p (c # s)" using Cons.prems [of 0] by simp
  ultimately show ?case by simp
qed auto

lemma occurs_chars: "prefix p (drop i s) \<Longrightarrow> set p \<subseteq> set s"
  using set_mono_prefix set_drop_subset by fast

lemma Index_sublist: "\<not> sublist p s \<Longrightarrow> Index s p = None"
proof (rule Index_None)
  fix i assume "\<not> sublist p s"
  then show "\<not> prefix p (drop i s)"
    by (metis prefix_imp_sublist sublist_drop sublist_order.order_trans)
qed

lemma split_at_unique:
  assumes "x @ c # y = x' @ c # y'" "c \<notin> set x" "c \<notin> set x'"
  shows "x = x' \<and> y = y'"
proof -
  have "takeWhile (\<lambda>a. a \<noteq> c) (x @ c # y) = x" "takeWhile (\<lambda>a. a \<noteq> c) (x' @ c # y') = x'"
    using assms(2,3) by (simp_all add: takeWhile_tail takeWhile_eq_all_conv) metis+
  with assms(1) show ?thesis by simp
qed

lemma prefix_in_word:
  assumes "prefix p (w @ c # rest)" "c \<notin> set p"
  shows "prefix p w"
proof -
  have "prefix p w \<or> prefix w p" using assms(1) by (meson prefix_same_cases prefixI)
  moreover have "prefix p w" if wp: "prefix w p"
  proof -
    obtain q where q: "p = w @ q" using wp by (auto simp: prefix_def)
    have "q = []" using assms q by (cases q) auto
    with q show ?thesis by simp
  qed
  ultimately show ?thesis by blast
qed

end
