(* ===== verification/App_Naming.thy ===== *)
theory App_Naming
  imports Go_Strings Go_Prelude
begin

text \<open>
  How workloads are named on a device and recognised again,
  \<^verbatim>\<open>internal/drivers/common/naming.go\<close>: application names made of a container index
  and the UID of the pod, and the identity labels in the run options. An \<^verbatim>\<open>int8\<close> is an
  \<^typ>\<open>int\<close> with the conversion written out.
\<close>

record pod_names =
  pn_UID :: string
  pn_Containers :: "string list"

definition to_int8 :: "int \<Rightarrow> int" where
  "to_int8 i = (i + 128) mod 256 - 128"

abbreviation LabelPodName :: string where "LabelPodName \<equiv> ''io.kubernetes.pod.name''"
abbreviation LabelPodNamespace :: string where "LabelPodNamespace \<equiv> ''io.kubernetes.pod.namespace''"
abbreviation LabelPodUID :: string where "LabelPodUID \<equiv> ''io.kubernetes.pod.uid''"
abbreviation LabelContainerName :: string where "LabelContainerName \<equiv> ''io.kubernetes.container.name''"
abbreviation CVKAppNamePrefix :: string where "CVKAppNamePrefix \<equiv> ''cvk''"

subsection \<open>Environment variables\<close>

definition isASCIIAlpha :: "char \<Rightarrow> bool" where
  "isASCIIAlpha c \<longleftrightarrow> 0x41 \<le> byte_of c \<and> byte_of c \<le> 0x5A \<or> 0x61 \<le> byte_of c \<and> byte_of c \<le> 0x7A"

definition IsPortableEnvironmentVariableName :: "string \<Rightarrow> bool" where
  "IsPortableEnvironmentVariableName name =
     (case name of [] \<Rightarrow> False
      | c # cs \<Rightarrow> (isASCIIAlpha c \<or> c = CHR ''_'') \<and> list_all (\<lambda>c. isASCIIAlpha c \<or> is_digit c \<or> c = CHR ''_'') cs)"

subsection \<open>Application names\<close>

text \<open>The verb \<^verbatim>\<open>%04d\<close>: a sign counts towards the width.\<close>

definition show_04d :: "int \<Rightarrow> string" where
  "show_04d i = (if i < 0 then CHR ''-'' # pad_left 3 (show_nat (nat (- i))) else pad_left 4 (show_nat (nat i)))"

definition cleanUUID :: "string \<Rightarrow> string" where
  "cleanUUID uid = filter (\<lambda>c. c \<noteq> CHR ''-'') uid"

definition GetAppHostingName :: "pod_names \<Rightarrow> int \<Rightarrow> string" where
  "GetAppHostingName pod index = ''cvk'' @ show_04d index @ ''_'' @ cleanUUID (pn_UID pod)"

definition GenerateContainerAppIDs :: "pod_names \<Rightarrow> string gomap" where
  "GenerateContainerAppIDs pod =
     fold (\<lambda>(i, name) appIDs. fmupd name (GetAppHostingName pod (to_int8 (int i))) appIDs)
       (enumerate 0 (pn_Containers pod)) fmempty"

definition ParseCVKAppName :: "string \<Rightarrow> (int \<times> string) option" where
  "ParseCVKAppName appName =
     (if length appName \<noteq> 40 then None
      else if \<not> HasPrefix appName CVKAppNamePrefix then None
      else if appName ! 7 \<noteq> CHR ''_'' then None
      else case read_nat (take 4 (drop 3 appName)) of None \<Rightarrow> None
         | Some parsedIndex \<Rightarrow>
             if parsedIndex > 127 then None
             else let uid = drop 8 appName
                  in if list_all is_lower_hex uid then Some (to_int8 (int parsedIndex), uid) else None)"

definition IsCVKManagedApp :: "string \<Rightarrow> bool" where
  "IsCVKManagedApp appName \<longleftrightarrow> ParseCVKAppName appName \<noteq> None"

subsection \<open>Labels in run options\<close>

definition upto_space :: "string \<Rightarrow> string" where
  "upto_space s = (case Index s '' '' of None \<Rightarrow> s | Some e \<Rightarrow> take e s)"

definition ExtractLabelValue :: "string \<Rightarrow> string \<Rightarrow> string" where
  "ExtractLabelValue line labelKey =
     (let dockerPrefix = ''--label '' @ labelKey @ ''=''; rawPrefix = labelKey @ ''=''
      in case Index line dockerPrefix of
           Some i \<Rightarrow> upto_space (drop (i + length dockerPrefix) line)
         | None \<Rightarrow> (case Index line rawPrefix of None \<Rightarrow> ''''
                    | Some i \<Rightarrow> upto_space (drop (i + length rawPrefix) line)))"

definition ExtractContainerNameFromLabels :: "string \<Rightarrow> string" where
  "ExtractContainerNameFromLabels line = ExtractLabelValue line LabelContainerName"

text \<open>A value that is still empty is taken from the line, which may leave it empty.\<close>

definition keep_first :: "string \<Rightarrow> string \<Rightarrow> string" where
  "keep_first old new = (if old = '''' then (if new \<noteq> '''' then new else old) else old)"

fun PodIdentityFromRunOpts :: "string \<times> string \<times> string \<times> string \<Rightarrow> string list \<Rightarrow> string \<times> string \<times> string \<times> string" where
  "PodIdentityFromRunOpts found [] = found"
| "PodIdentityFromRunOpts (namespace, name, uid, container) (line # lines) =
     PodIdentityFromRunOpts
       (keep_first namespace (ExtractLabelValue line LabelPodNamespace), keep_first name (ExtractLabelValue line LabelPodName),
        keep_first uid (ExtractLabelValue line LabelPodUID), keep_first container (ExtractContainerNameFromLabels line)) lines"

section \<open>Names and their parts\<close>

lemma show_04d_small:
  assumes "0 \<le> i" "i \<le> 127"
  shows "length (show_04d i) = 4 \<and> read_nat (show_04d i) = Some (nat i)"
proof -
  have "length (show_nat (nat i)) \<le> 3" by (rule length_show_nat_le) (use assms in auto)
  then show ?thesis using assms by (simp add: show_04d_def pad_left_def [of 4]) (metis pad_left_def read_pad_left)
qed

lemma digit_chars: "is_digit c \<Longrightarrow> digit_char (digit_val c) = c"
  by (auto simp: is_digit_def digit_char_def digit_val_def)

lemma to_int8_small: "0 \<le> i \<Longrightarrow> i \<le> 127 \<Longrightarrow> to_int8 i = i"
  by (simp add: to_int8_def)

text \<open>Numerals of one width with the same value are equal.\<close>

lemma digits_val_bound: "list_all is_digit s \<Longrightarrow> digits_val s < 10 ^ length s"
proof (induction s rule: rev_induct)
  case (snoc c s)
  then have "digit_val c \<le> 9" by (auto simp: is_digit_def digit_val_def)
  with snoc show ?case by (simp add: digits_val_append1)
qed (simp add: digits_val_def)

lemma digits_val_inj:
  "list_all is_digit s \<Longrightarrow> list_all is_digit t \<Longrightarrow> length s = length t \<Longrightarrow> digits_val s = digits_val t \<Longrightarrow> s = t"
proof (induction s arbitrary: t rule: rev_induct)
  case (snoc c s)
  from snoc.prems(3) obtain d t' where t: "t = t' @ [d]" by (metis append_butlast_last_id length_0_conv snoc_eq_iff_butlast)
  have "is_digit c" "is_digit d" using snoc.prems(1,2) t by simp_all
  then have "digit_val c \<le> 9" "digit_val d \<le> 9" by (auto simp: is_digit_def digit_val_def)
  moreover have same: "10 * digits_val s + digit_val c = 10 * digits_val t' + digit_val d"
    using snoc.prems(4) t by (simp add: digits_val_append1)
  ultimately have "digits_val s = digits_val t'" by linarith
  moreover from this same have "digit_char (digit_val c) = digit_char (digit_val d)" by simp
  then have "c = d" unfolding digit_chars [OF \<open>is_digit c\<close>] digit_chars [OF \<open>is_digit d\<close>] .
  ultimately show ?case using snoc t by simp
qed simp

lemma show_04d_inverse:
  assumes "read_nat s = Some n" "length s = 4" "n \<le> 127"
  shows "show_04d (int n) = s"
proof -
  from assms(1) have s: "list_all is_digit s" "digits_val s = n" by (auto simp: read_nat_def split: if_splits)
  from show_04d_small [of "int n"] assms(3) have "read_nat (show_04d (int n)) = Some n" "length (show_04d (int n)) = 4" by auto
  moreover from this have "list_all is_digit (show_04d (int n))" "digits_val (show_04d (int n)) = n"
    by (auto simp: read_nat_def split: if_splits)
  ultimately show ?thesis using digits_val_inj s assms(2) by simp
qed

lemma cleanUUID_hex: "list_all is_lower_hex u \<Longrightarrow> cleanUUID u = u"
  unfolding cleanUUID_def filter_id_conv by (auto simp: list_all_iff is_lower_hex_def is_digit_def)

lemma split_name:
  assumes "length s = 40" "HasPrefix s ''cvk''" "s ! 7 = CHR ''_''"
  shows "s = ''cvk'' @ take 4 (drop 3 s) @ ''_'' @ drop 8 s"
proof -
  have "take 3 s = ''cvk''" using assms(2) by (simp add: HasPrefix_def eval_nat_numeral)
  moreover have "drop 7 s = CHR ''_'' # drop 8 s" using assms(1,3) Cons_nth_drop_Suc [of 7 s] by simp
  moreover have "s = take 3 s @ take 4 (drop 3 s) @ drop 7 s" using append_take_drop_id [of 4 "drop 3 s"] by simp
  ultimately show ?thesis by (metis append_Cons append_Nil)
qed

lemma parse_app_name:
  "ParseCVKAppName s = Some (i, u) \<longleftrightarrow>
     0 \<le> i \<and> i \<le> 127 \<and> length u = 32 \<and> list_all is_lower_hex u \<and> s = ''cvk'' @ show_04d i @ ''_'' @ u"
proof
  assume p: "ParseCVKAppName s = Some (i, u)"
  then obtain n where n: "length s = 40" "HasPrefix s ''cvk''" "s ! 7 = CHR ''_''" "read_nat (take 4 (drop 3 s)) = Some n" "n \<le> 127"
    "i = int n" "u = drop 8 s" "list_all is_lower_hex u"
    by (auto simp: ParseCVKAppName_def Let_def to_int8_small split: if_splits option.splits)
  have "show_04d i = take 4 (drop 3 s)" using show_04d_inverse [OF n(4)] n(1,5,6) by simp
  then show "0 \<le> i \<and> i \<le> 127 \<and> length u = 32 \<and> list_all is_lower_hex u \<and> s = ''cvk'' @ show_04d i @ ''_'' @ u"
    using split_name [OF n(1-3)] n by simp
next
  assume s: "0 \<le> i \<and> i \<le> 127 \<and> length u = 32 \<and> list_all is_lower_hex u \<and> s = ''cvk'' @ show_04d i @ ''_'' @ u"
  then have d: "length (show_04d i) = 4" "read_nat (show_04d i) = Some (nat i)" using show_04d_small by auto
  have "take 4 (drop 3 s) = show_04d i" "drop 8 s = u" "s ! 7 = CHR ''_''" "length s = 40" "HasPrefix s ''cvk''"
    using s d(1) by (auto simp: nth_append nth_Cons' HasPrefix_def)
  then show "ParseCVKAppName s = Some (i, u)"
    using s d by (auto simp: ParseCVKAppName_def to_int8_small)
qed

lemma app_ids_lookup:
  assumes "distinct (pn_Containers pod)" "k < length (pn_Containers pod)"
  shows "fmlookup (GenerateContainerAppIDs pod) (pn_Containers pod ! k) = Some (GetAppHostingName pod (to_int8 (int k)))"
proof -
  have "fmlookup (fold (\<lambda>(i, name) m. fmupd name (f i) m) (enumerate n xs) m) (xs ! k) = Some (f (n + k))"
    if "distinct xs" "k < length xs" for n k and xs :: "string list" and f :: "nat \<Rightarrow> string" and m
    using that
  proof (induction xs arbitrary: n k m)
    case (Cons x xs)
    have other: "fmlookup (fold (\<lambda>(i, name) m. fmupd name (f i) m) (enumerate j ys) m) x = fmlookup m x"
      if "x \<notin> set ys" for j m and ys
      using that by (induction ys arbitrary: j m) auto
    show ?case
    proof (cases k)
      case 0
      then show ?thesis using Cons.prems other by simp
    next
      case (Suc k')
      then show ?thesis using Cons by simp
    qed
  qed simp
  from this [OF assms, of "\<lambda>i. GetAppHostingName pod (to_int8 (int i))" 0] show ?thesis
    by (simp add: GenerateContainerAppIDs_def)
qed

section \<open>Finding a label\<close>

lemma upto_space_value: "CHR '' '' \<notin> set v \<Longrightarrow> upto_space v = v"
proof -
  assume "CHR '' '' \<notin> set v"
  then have "Index v '' '' = None" by (intro Index_None) (auto dest: occurs_chars)
  then show ?thesis by (simp add: upto_space_def)
qed

lemma upto_space_stops: "CHR '' '' \<notin> set v \<Longrightarrow> upto_space (v @ CHR '' '' # rest) = v"
proof -
  assume v: "CHR '' '' \<notin> set v"
  have "Index (v @ CHR '' '' # rest) '' '' = Some (length v)"
  proof (rule Index_least)
    fix i assume "i < length v"
    then have "drop i (v @ CHR '' '' # rest) = v ! i # drop (Suc i) v @ CHR '' '' # rest" by (simp add: Cons_nth_drop_Suc [symmetric])
    then show "\<not> prefix '' '' (drop i (v @ CHR '' '' # rest))" using v \<open>i < length v\<close> by auto
  qed simp_all
  then show ?thesis by (simp add: upto_space_def)
qed

text \<open>
  A line is a sequence of words separated by one space. \<open>lead ws\<close> is the part of a line before
  the next word.
\<close>

definition lead :: "string list \<Rightarrow> string" where
  "lead ws = concat (map (\<lambda>w. w @ '' '') ws)"

lemma lead_simps [simp]: "lead [] = []" "lead (w # ws) = w @ CHR '' '' # lead ws" "lead (us @ ws) = lead us @ lead ws"
  by (simp_all add: lead_def)

lemma label_not_earlier:
  assumes "\<And>w. w \<in> set ws \<Longrightarrow> CHR '' '' \<notin> set w \<and> \<not> prefix kq w" "CHR '' '' \<notin> set kq" "kq \<noteq> []" "hd kq \<noteq> CHR ''-''"
    and "i < length (lead ws)"
  shows "\<not> prefix (''--label '' @ kq) (drop i (lead ws @ ''--label '' @ rest))"
  using assms(1,5)
proof (induction ws arbitrary: i)
  case (Cons w ws)
  let ?next = "lead ws @ ''--label '' @ rest"
  show ?case
  proof (cases "length w < i")
    case True
    then have "drop i (lead (w # ws) @ ''--label '' @ rest) = drop (i - length w - 1) ?next"
      by (simp add: drop_Cons' Suc_diff_Suc)
    moreover have "\<not> prefix (''--label '' @ kq) (drop (i - length w - 1) ?next)"
      by (rule Cons.IH) (use Cons.prems True in auto)
    ultimately show ?thesis by simp
  next
    case False
    show ?thesis
    proof
      assume "prefix (''--label '' @ kq) (drop i (lead (w # ws) @ ''--label '' @ rest))"
      then obtain z where "''--label'' @ CHR '' '' # (kq @ z) = drop i w @ CHR '' '' # ?next"
        using False by (auto simp: prefix_def)
      moreover have "CHR '' '' \<notin> set (drop i w)" using Cons.prems(1) [of w] in_set_dropD by fastforce
      ultimately have "kq @ z = ?next" using split_at_unique [of "''--label''" "CHR '' ''"] by simp
      then have start: "prefix kq ?next" by (metis prefixI)
      show False
      proof (cases ws)
        case Nil
        then show False using start assms(3,4) by (cases kq) auto
      next
        case (Cons w' ws')
        then show False using start assms(2) Cons.prems(1) [of w'] prefix_in_word [of kq w' "CHR '' ''"] by simp
      qed
    qed
  qed
qed simp

lemma sublist_words:
  assumes "CHR '' '' \<notin> set p" "p \<noteq> []"
  shows "sublist p (w @ CHR '' '' # rest) \<longleftrightarrow> sublist p w \<or> sublist p rest"
proof
  assume "sublist p (w @ CHR '' '' # rest)"
  then obtain x y where xy: "w @ CHR '' '' # rest = x @ p @ y" by (auto simp: sublist_def)
  show "sublist p w \<or> sublist p rest"
  proof (cases "length x \<le> length w")
    case True
    then obtain u where u: "w = x @ u" using xy by (auto simp: append_eq_append_conv2)
    then have "prefix p (u @ CHR '' '' # rest)" using xy by (auto simp: prefix_def)
    then have "prefix p u" by (rule prefix_in_word) (rule assms(1))
    then obtain z where "w = x @ p @ z" using u by (auto simp: prefix_def)
    then show ?thesis by simp
  next
    case False
    then have "drop (Suc (length w)) (w @ CHR '' '' # rest) = drop (Suc (length w)) x @ p @ y" using xy by simp
    then have "rest = drop (Suc (length w)) x @ p @ y" by simp
    then show ?thesis by (metis sublist_appendI)
  qed
next
  assume "sublist p w \<or> sublist p rest"
  then show "sublist p (w @ CHR '' '' # rest)" by (auto simp: sublist_append sublist_Cons_right)
qed

lemma sublist_lead:
  assumes "CHR '' '' \<notin> set p" "p \<noteq> []"
  shows "sublist p (lead ws) \<longleftrightarrow> (\<exists>w \<in> set ws. sublist p w)"
  using assms by (induction ws) (auto simp: sublist_words)

text \<open>What a label yields on a line that starts with other words, and on a line without it.\<close>

lemma extract_found:
  assumes "\<And>w. w \<in> set ws \<Longrightarrow> CHR '' '' \<notin> set w \<and> \<not> prefix (key @ ''='') w"
    "CHR '' '' \<notin> set key" "key \<noteq> []" "hd key \<noteq> CHR ''-''" "CHR '' '' \<notin> set v" "rest = [] \<or> hd rest = CHR '' ''"
  shows "ExtractLabelValue (lead ws @ ''--label '' @ key @ ''='' @ v @ rest) key = v"
proof -
  let ?p = "''--label '' @ key @ ''=''" and ?line = "lead ws @ ''--label '' @ key @ ''='' @ v @ rest"
  have "Index ?line ?p = Some (length (lead ws))"
  proof (rule Index_least)
    fix i assume "i < length (lead ws)"
    then show "\<not> prefix ?p (drop i ?line)"
      using label_not_earlier [of ws "key @ ''=''" i "key @ ''='' @ v @ rest"] assms(1-4) by (cases key) auto
  qed simp_all
  moreover have "drop (length a + length p) (a @ p @ c) = c" for a p c :: string by simp
  from this [of "lead ws" ?p "v @ rest"] have "drop (length (lead ws) + length ?p) ?line = v @ rest" by (simp only: append_assoc)
  moreover have "upto_space (v @ rest) = v"
    using assms(5,6) upto_space_value upto_space_stops by (cases rest) auto
  ultimately show ?thesis unfolding ExtractLabelValue_def Let_def by (simp only: option.case)
qed

lemma extract_absent:
  assumes "\<not> sublist (key @ ''='') line"
  shows "ExtractLabelValue line key = ''''"
proof -
  have "\<not> sublist (''--label '' @ key @ ''='') line"
    using assms sublist_append_leftI [of "key @ ''=''" "''--label ''"] sublist_order.order_trans by blast
  with assms show ?thesis by (simp add: ExtractLabelValue_def Let_def Index_sublist)
qed

text \<open>The identity is, part by part, the first value that is not empty.\<close>

fun first_value :: "(string \<Rightarrow> string) \<Rightarrow> string list \<Rightarrow> string" where
  "first_value f [] = ''''"
| "first_value f (l # ls) = (if f l \<noteq> '''' then f l else first_value f ls)"

lemma keep_first_value:
  "(if keep_first a (f l) = '''' then first_value f ls else keep_first a (f l)) = (if a = '''' then first_value f (l # ls) else a)"
  by (simp add: keep_first_def)

lemma PodIdentity_parts:
  "PodIdentityFromRunOpts (a, b, c, d) ls =
     (if a = '''' then first_value (\<lambda>l. ExtractLabelValue l LabelPodNamespace) ls else a,
      if b = '''' then first_value (\<lambda>l. ExtractLabelValue l LabelPodName) ls else b,
      if c = '''' then first_value (\<lambda>l. ExtractLabelValue l LabelPodUID) ls else c,
      if d = '''' then first_value ExtractContainerNameFromLabels ls else d)"
proof (induction ls arbitrary: a b c d)
  case (Cons l ls)
  show ?case
    unfolding PodIdentityFromRunOpts.simps(2) Cons
    by (intro arg_cong2 [where f = Pair] keep_first_value)
qed simp

lemma first_value_found: "(\<And>l. l \<in> set us \<Longrightarrow> f l = '''') \<Longrightarrow> f l = v \<Longrightarrow> v \<noteq> '''' \<Longrightarrow> first_value f (us @ l # ls) = v"
  by (induction us) auto

end
