(* ===== verification/Run_Options.thy ===== *)
theory Run_Options
  imports App_Naming
begin

text \<open>
  The run options of a container: the identity labels and the environment, packed into the lines
  a device accepts. \<^verbatim>\<open>internal/drivers/iosxe/pod_transforms.go\<close> and
  \<^verbatim>\<open>internal/drivers/nxos/pod_transforms.go\<close> do this with small differences. The
  map from line numbers to lines that IOS XE uses has the keys 1 to n; it is the list of its values
  in that order. The listers for secrets and config maps are parameters.
\<close>

subsection \<open>Environment\<close>

datatype run_error =
    NotPortable | Unresolved string | Unsupported string | TooManyLines | OptionTooLong nat | UnsafeValue string | EmptyOption | UnsafeOption

record key_ref =
  kr_Name :: string
  kr_Key :: string
  kr_Optional :: "bool option"

record env_source =
  es_SecretKeyRef :: "key_ref option"
  es_ConfigMapKeyRef :: "key_ref option"
  es_FieldRef :: bool
  es_ResourceFieldRef :: bool

record env_var =
  ev_Name :: string
  ev_Value :: string
  ev_ValueFrom :: "env_source option"

text \<open>A lister finds the data of an object by its name, or fails; it may be missing altogether.\<close>

type_synonym lister = "(string \<Rightarrow> string gomap option) option"

record listers =
  ls_Secrets :: lister
  ls_ConfigMaps :: lister

definition is_optional :: "key_ref \<Rightarrow> bool" where
  "is_optional ref \<longleftrightarrow> kr_Optional ref = Some True"

definition resolve_key_ref :: "lister \<Rightarrow> key_ref \<Rightarrow> run_error + string option" where
  "resolve_key_ref lister ref =
     (case lister of None \<Rightarrow> Inl (Unresolved ''lister not available'')
      | Some get \<Rightarrow>
          (case get (kr_Name ref) of
             None \<Rightarrow> if is_optional ref then Inr None else Inl (Unresolved ''failed to get'')
           | Some data \<Rightarrow>
               (case fmlookup data (kr_Key ref) of
                  None \<Rightarrow> if is_optional ref then Inr None else Inl (Unresolved ''key not found'')
                | Some v \<Rightarrow> Inr (Some v))))"

definition resolveSecretKeyRef :: "listers \<Rightarrow> key_ref \<Rightarrow> run_error + string option" where
  "resolveSecretKeyRef L ref = resolve_key_ref (ls_Secrets L) ref"

definition resolveConfigMapKeyRef :: "listers \<Rightarrow> key_ref \<Rightarrow> run_error + string option" where
  "resolveConfigMapKeyRef L ref = resolve_key_ref (ls_ConfigMaps L) ref"

definition resolveEnvVarValueFrom :: "listers \<Rightarrow> env_source \<Rightarrow> run_error + string option" where
  "resolveEnvVarValueFrom L src =
     (case es_SecretKeyRef src of
        Some ref \<Rightarrow> resolveSecretKeyRef L ref
      | None \<Rightarrow>
          (case es_ConfigMapKeyRef src of
             Some ref \<Rightarrow> resolveConfigMapKeyRef L ref
           | None \<Rightarrow>
               Inl (if es_FieldRef src then Unsupported ''fieldRef''
                    else if es_ResourceFieldRef src then Unsupported ''resourceFieldRef'' else Unsupported ''unknown'')))"

definition escapeShellValue :: "string \<Rightarrow> string" where
  "escapeShellValue v =
     [CHR 0x27] @ concat (map (\<lambda>c. if c = CHR 0x27 then [CHR 0x27, CHR 0x5C, CHR 0x27, CHR 0x27] else [c]) v) @ [CHR 0x27]"

text \<open>The value of a variable; none and the empty value are both skipped.\<close>

definition env_value :: "listers \<Rightarrow> env_var \<Rightarrow> run_error + string" where
  "env_value L env =
     (if ev_Value env \<noteq> '''' then Inr (ev_Value env)
      else case ev_ValueFrom env of
        None \<Rightarrow> Inr ''''
      | Some src \<Rightarrow> (case resolveEnvVarValueFrom L src of Inl e \<Rightarrow> Inl e | Inr None \<Rightarrow> Inr '''' | Inr (Some v) \<Rightarrow> Inr v))"

fun buildEnvironmentOptions :: "listers \<Rightarrow> env_var list \<Rightarrow> run_error + string list" where
  "buildEnvironmentOptions L [] = Inr []"
| "buildEnvironmentOptions L (env # envs) =
     (if \<not> IsPortableEnvironmentVariableName (ev_Name env) then Inl NotPortable
      else case env_value L env of
        Inl e \<Rightarrow> Inl e
      | Inr v \<Rightarrow>
          (case buildEnvironmentOptions L envs of
             Inl e \<Rightarrow> Inl e
           | Inr opts \<Rightarrow> Inr (if v = '''' then opts else (''-e '' @ ev_Name env @ ''='' @ escapeShellValue v) # opts)))"

text \<open>NX-OS: variables that only link services are left out, and values must be safe on its command line.\<close>

definition cut_suffix :: "string \<Rightarrow> string \<Rightarrow> string option" where
  "cut_suffix s suf = (if suffix suf s then Some (take (length s - length suf) s) else None)"

definition serviceLinkPrefixes :: "env_var list \<Rightarrow> string list" where
  "serviceLinkPrefixes envs =
     filter (\<lambda>p. p \<noteq> []) (List.map_filter (\<lambda>env. cut_suffix (ev_Name env) ''_SERVICE_HOST'') envs)"

definition isServiceLinkEnv :: "string \<Rightarrow> string list \<Rightarrow> bool" where
  "isServiceLinkEnv name links =
     list_ex (\<lambda>p. name = p @ ''_SERVICE_HOST'' \<or> name = p @ ''_SERVICE_PORT'' \<or> HasPrefix name (p @ ''_SERVICE_PORT_'') \<or>
                  name = p @ ''_PORT'' \<or> HasPrefix name (p @ ''_PORT_'')) links"

definition cli_safe :: "string \<Rightarrow> char \<Rightarrow> bool" where
  "cli_safe banned c \<longleftrightarrow> 0x20 \<le> byte_of c \<and> byte_of c \<le> 0x7E \<and> c \<notin> set banned"

definition validateNXOSEnvironmentValue :: "string \<Rightarrow> bool" where
  "validateNXOSEnvironmentValue v = list_all (cli_safe [CHR '';'', CHR ''|'', CHR 0x22, CHR 0x27, CHR 0x5C, CHR 0x60]) v"

definition validateNXOSRunOption :: "string \<Rightarrow> run_error option" where
  "validateNXOSRunOption opt =
     (if opt = [] then Some EmptyOption
      else if list_all (cli_safe [CHR '';'', CHR ''|'', CHR 0x22, CHR 0x5C, CHR 0x60]) opt then None else Some UnsafeOption)"

definition resolveEnvironmentValue :: "listers \<Rightarrow> env_var \<Rightarrow> run_error + string option" where
  "resolveEnvironmentValue L env =
     (if ev_Value env \<noteq> [] then Inr (Some (ev_Value env))
      else case ev_ValueFrom env of None \<Rightarrow> Inr None | Some src \<Rightarrow> resolveEnvVarValueFrom L src)"

fun nxosEnvironmentOptions :: "listers \<Rightarrow> string list \<Rightarrow> env_var list \<Rightarrow> run_error + string list" where
  "nxosEnvironmentOptions L links [] = Inr []"
| "nxosEnvironmentOptions L links (env # envs) =
     (if \<not> IsPortableEnvironmentVariableName (ev_Name env) then Inl NotPortable
      else if isServiceLinkEnv (ev_Name env) links then nxosEnvironmentOptions L links envs
      else case resolveEnvironmentValue L env of
        Inl e \<Rightarrow> Inl e
      | Inr None \<Rightarrow> nxosEnvironmentOptions L links envs
      | Inr (Some v) \<Rightarrow>
          if v = '''' then nxosEnvironmentOptions L links envs
          else if \<not> validateNXOSEnvironmentValue v then Inl (UnsafeValue (ev_Name env))
          else (case nxosEnvironmentOptions L links envs of
                  Inl e \<Rightarrow> Inl e
                | Inr opts \<Rightarrow> Inr ((''--env '' @ ev_Name env @ ''='' @ escapeShellValue v) # opts)))"

subsection \<open>Lines\<close>

abbreviation MaxRunOptsLines :: nat where "MaxRunOptsLines \<equiv> 30"
abbreviation MaxRunOptsLineLength :: nat where "MaxRunOptsLineLength \<equiv> 235"

type_synonym packing = "string \<times> string list"

fun addLine :: "packing \<Rightarrow> run_error + packing" where
  "addLine (current, lines) =
     (if current = [] then Inr (current, lines)
      else if length lines + 1 > MaxRunOptsLines then Inl TooManyLines
      else Inr ([], lines @ [TrimSpace current]))"

definition append_option :: "string \<Rightarrow> packing \<Rightarrow> packing" where
  "append_option opt = (\<lambda>(current, lines). ((if current \<noteq> [] then current @ '' '' else current) @ opt, lines))"

fun addOption :: "string \<Rightarrow> packing \<Rightarrow> run_error + packing" where
  "addOption opt (current, lines) =
     (let needed = length opt + (if current \<noteq> [] then 1 else 0)
      in case (if current \<noteq> [] \<and> length current + needed > MaxRunOptsLineLength then addLine (current, lines)
               else Inr (current, lines)) of
           Inl e \<Rightarrow> Inl e
         | Inr st \<Rightarrow> if needed > MaxRunOptsLineLength then Inl (OptionTooLong needed) else Inr (append_option opt st))"

definition distributeRunOpts :: "string list \<Rightarrow> string list \<Rightarrow> run_error + string list" where
  "distributeRunOpts baseOpts envOpts =
     (case fold_err addOption baseOpts ([], []) of
        Inl e \<Rightarrow> Inl e
      | Inr s \<Rightarrow>
          (case fold_err addOption envOpts s of
             Inl e \<Rightarrow> Inl e
           | Inr s \<Rightarrow>
               (case addLine s of Inl e \<Rightarrow> Inl e | Inr (_, lines) \<Rightarrow> Inr (if lines = [] then [''''] else lines))))"

definition nxosBaseLine :: "string \<Rightarrow> string list \<Rightarrow> run_error + string list" where
  "nxosBaseLine opt lines =
     (case validateNXOSRunOption opt of
        Some e \<Rightarrow> Inl e
      | None \<Rightarrow> if length opt > MaxRunOptsLineLength then Inl (OptionTooLong (length opt))
                else if length lines \<ge> MaxRunOptsLines then Inl TooManyLines else Inr (lines @ [opt]))"

fun nxosAddOption :: "string \<Rightarrow> packing \<Rightarrow> run_error + packing" where
  "nxosAddOption opt (current, lines) =
     (case validateNXOSRunOption opt of
        Some e \<Rightarrow> Inl e
      | None \<Rightarrow>
          let needed = length opt + (if current \<noteq> [] then 1 else 0);
              full = current \<noteq> [] \<and> length current + needed > MaxRunOptsLineLength
          in case (if full then addLine (current, lines) else Inr (current, lines)) of
               Inl e \<Rightarrow> Inl e
             | Inr st \<Rightarrow>
                 let needed = (if full then length opt else needed)
                 in if needed > MaxRunOptsLineLength then Inl (OptionTooLong needed) else Inr (append_option opt st))"

definition distributeNXOSRunOpts :: "string list \<Rightarrow> string list \<Rightarrow> run_error + string list" where
  "distributeNXOSRunOpts baseOpts envOpts =
     (case fold_err nxosBaseLine baseOpts [] of
        Inl e \<Rightarrow> Inl e
      | Inr lines \<Rightarrow>
          (case fold_err nxosAddOption envOpts ([], lines) of
             Inl e \<Rightarrow> Inl e
           | Inr s \<Rightarrow>
               (case addLine s of Inl e \<Rightarrow> Inl e | Inr (_, lines) \<Rightarrow> Inr (if lines = [] then [''''] else lines))))"

definition identity_options :: "string \<Rightarrow> string \<Rightarrow> string \<Rightarrow> string \<Rightarrow> string list" where
  "identity_options namespace name uid container =
     [''--label '' @ LabelPodName @ ''='' @ name, ''--label '' @ LabelPodNamespace @ ''='' @ namespace,
      ''--label '' @ LabelPodUID @ ''='' @ uid, ''--label '' @ LabelContainerName @ ''='' @ container,
      ''--hostname='' @ container]"

definition xeRunOptions :: "listers \<Rightarrow> string \<Rightarrow> string \<Rightarrow> string \<Rightarrow> string \<Rightarrow> env_var list \<Rightarrow> run_error + string list" where
  "xeRunOptions L namespace name uid container envs =
     (case buildEnvironmentOptions L envs of
        Inl e \<Rightarrow> Inl e
      | Inr envOpts \<Rightarrow> distributeRunOpts (identity_options namespace name uid container) envOpts)"

definition buildRunOptions :: "listers \<Rightarrow> string \<Rightarrow> string \<Rightarrow> string \<Rightarrow> string \<Rightarrow> env_var list \<Rightarrow> run_error + string list" where
  "buildRunOptions L namespace name uid container envs =
     (case nxosEnvironmentOptions L (serviceLinkPrefixes envs) envs of
        Inl e \<Rightarrow> Inl e
      | Inr envOpts \<Rightarrow> distributeNXOSRunOpts (identity_options namespace name uid container) envOpts)"

section \<open>Packing\<close>

fun spaced :: "string list \<Rightarrow> string" where
  "spaced [] = []"
| "spaced (opt # opts) = opt @ concat (map (\<lambda>x. CHR '' '' # x) opts)"

lemma spaced_snoc: "spaced (opts @ [opt]) = (if opts = [] then opt else spaced opts @ '' '' @ opt)"
  by (cases opts) auto

lemma spaced_Nil: "list_all (\<lambda>x. x \<noteq> []) opts \<Longrightarrow> spaced opts = [] \<longleftrightarrow> opts = []"
  by (cases opts) auto

definition bounded :: "packing \<Rightarrow> bool" where
  "bounded s \<longleftrightarrow> length (fst s) \<le> MaxRunOptsLineLength \<and> length (snd s) \<le> MaxRunOptsLines \<and>
     list_all (\<lambda>l. length l \<le> MaxRunOptsLineLength) (snd s)"

text \<open>The finished lines after \<open>start\<close> and the current line are the options so far, in order.\<close>

definition packed :: "string list \<Rightarrow> string list \<Rightarrow> packing \<Rightarrow> bool" where
  "packed start opts s \<longleftrightarrow>
     (\<exists>chunks rest. snd s = start @ map (\<lambda>c. TrimSpace (spaced c)) chunks \<and> fst s = spaced rest \<and> concat chunks @ rest = opts)"

text \<open>
  What both drivers promise about adding an option: it extends the current line, or the current
  line is finished and the option starts the next one; nothing ever exceeds the limits.
\<close>

locale line_packer =
  fixes add :: "string \<Rightarrow> packing \<Rightarrow> run_error + packing"
  assumes add_cases: "add opt (current, lines) = Inr s \<Longrightarrow>
    s = (if current = [] then opt else current @ '' '' @ opt, lines) \<and> length (fst s) \<le> MaxRunOptsLineLength \<or>
    current \<noteq> [] \<and> length lines < MaxRunOptsLines \<and> s = (opt, lines @ [TrimSpace current]) \<and> length opt \<le> MaxRunOptsLineLength"
begin

lemma add_bounded:
  assumes "add opt s = Inr s'" "bounded s"
  shows "bounded s'"
proof -
  obtain current lines where s: "s = (current, lines)" by (cases s)
  have "length (TrimSpace current) \<le> MaxRunOptsLineLength" using assms(2) s length_TrimSpace [of current] by (simp add: bounded_def)
  then show ?thesis using add_cases [of opt current lines s'] assms s by (auto simp: bounded_def)
qed

lemma finish_bounded: "addLine s = Inr s' \<Longrightarrow> bounded s \<Longrightarrow> bounded s'"
  using length_TrimSpace [of "fst s"] by (cases s) (auto simp: bounded_def split: if_splits)

lemma run_bounded: "fold_err add opts s = Inr s' \<Longrightarrow> bounded s \<Longrightarrow> bounded s'"
  by (rule fold_err_invariant [where I = bounded]) (auto intro: add_bounded)

lemma add_packed:
  assumes "add opt s = Inr s'" "packed start opts s" "list_all (\<lambda>x. x \<noteq> []) opts"
  shows "packed start (opts @ [opt]) s'"
proof -
  from assms(2) obtain chunks rest where r: "snd s = start @ map (\<lambda>c. TrimSpace (spaced c)) chunks" "fst s = spaced rest"
    "concat chunks @ rest = opts" by (auto simp: packed_def)
  then have empty: "spaced rest = [] \<longleftrightarrow> rest = []" using assms(3) by (intro spaced_Nil) auto
  obtain current lines where s: "s = (current, lines)" by (cases s)
  from add_cases [OF assms(1) [unfolded s]] show ?thesis
  proof
    assume "s' = (if current = [] then opt else current @ '' '' @ opt, lines) \<and> length (fst s') \<le> MaxRunOptsLineLength"
    then have "fst s' = spaced (rest @ [opt])" "snd s' = snd s" using r(2) s empty by (auto simp: spaced_snoc)
    with r show ?thesis unfolding packed_def by (intro exI [of _ chunks] exI [of _ "rest @ [opt]"]) auto
  next
    assume "current \<noteq> [] \<and> length lines < MaxRunOptsLines \<and> s' = (opt, lines @ [TrimSpace current]) \<and> length opt \<le> MaxRunOptsLineLength"
    with r s show ?thesis unfolding packed_def by (intro exI [of _ "chunks @ [rest]"] exI [of _ "[opt]"]) auto
  qed
qed

lemma run_packed:
  "fold_err add further s = Inr s' \<Longrightarrow> packed start opts s \<Longrightarrow> list_all (\<lambda>x. x \<noteq> []) (opts @ further) \<Longrightarrow> packed start (opts @ further) s'"
proof (induction further arbitrary: opts s)
  case (Cons opt further)
  then obtain s1 where s1: "add opt s = Inr s1" "fold_err add further s1 = Inr s'" by (auto split: sum.splits)
  have "packed start (opts @ [opt]) s1" by (rule add_packed [OF s1(1) Cons.prems(2)]) (use Cons.prems(3) in simp)
  from Cons.IH [OF s1(2) this] Cons.prems(3) show ?case by simp
qed simp

lemma finish_packed:
  assumes "addLine s = Inr (c, lines)" "packed start opts s" "list_all (\<lambda>x. x \<noteq> []) opts"
  obtains chunks where "lines = start @ map (\<lambda>c. TrimSpace (spaced c)) chunks" "concat chunks = opts"
proof -
  from assms(2) obtain chunks rest where r: "snd s = start @ map (\<lambda>c. TrimSpace (spaced c)) chunks" "fst s = spaced rest"
    "concat chunks @ rest = opts" by (auto simp: packed_def)
  then have empty: "spaced rest = [] \<longleftrightarrow> rest = []" using assms(3) by (intro spaced_Nil) auto
  obtain cur ls where s: "s = (cur, ls)" by (cases s)
  show ?thesis
  proof (cases "cur = []")
    case True
    then show ?thesis using that [of chunks] r s empty assms(1) by simp
  next
    case False
    then show ?thesis using that [of "chunks @ [rest]"] r s assms(1) by (auto split: if_splits)
  qed
qed

end

lemma addLine_Inr:
  "addLine (current, lines) = Inr s \<longleftrightarrow>
     (if current = [] then s = (current, lines) else length lines < MaxRunOptsLines \<and> s = ([], lines @ [TrimSpace current]))"
  by auto

interpretation iosxe: line_packer addOption
proof
  fix opt current lines s
  assume "addOption opt (current, lines) = Inr s"
  then show "s = (if current = [] then opt else current @ '' '' @ opt, lines) \<and> length (fst s) \<le> MaxRunOptsLineLength \<or>
    current \<noteq> [] \<and> length lines < MaxRunOptsLines \<and> s = (opt, lines @ [TrimSpace current]) \<and> length opt \<le> MaxRunOptsLineLength"
    by (auto simp: Let_def append_option_def split: if_splits sum.splits)
qed

interpretation nxos: line_packer nxosAddOption
proof
  fix opt current lines s
  assume "nxosAddOption opt (current, lines) = Inr s"
  then show "s = (if current = [] then opt else current @ '' '' @ opt, lines) \<and> length (fst s) \<le> MaxRunOptsLineLength \<or>
    current \<noteq> [] \<and> length lines < MaxRunOptsLines \<and> s = (opt, lines @ [TrimSpace current]) \<and> length opt \<le> MaxRunOptsLineLength"
    by (auto simp: Let_def append_option_def split: if_splits sum.splits option.splits)
qed

lemma distributeRunOpts_steps:
  assumes "distributeRunOpts base env = Inr lines"
  obtains s c ls where "fold_err addOption (base @ env) ([], []) = Inr s" "addLine s = Inr (c, ls)" "lines = (if ls = [] then [''''] else ls)"
  using assms by (auto simp: distributeRunOpts_def fold_err_append split: sum.splits prod.splits)

lemma iosxe_lines_bounded:
  assumes "distributeRunOpts base env = Inr lines"
  shows "length lines \<le> MaxRunOptsLines \<and> list_all (\<lambda>l. length l \<le> MaxRunOptsLineLength) lines"
proof -
  from assms obtain s c ls where s: "fold_err addOption (base @ env) ([], []) = Inr s" "addLine s = Inr (c, ls)"
    "lines = (if ls = [] then [''''] else ls)" by (rule distributeRunOpts_steps)
  have "bounded ([], [])" by (simp add: bounded_def)
  from iosxe.finish_bounded [OF s(2) iosxe.run_bounded [OF s(1) this]] s(3) show ?thesis by (simp add: bounded_def)
qed

lemma iosxe_chunks:
  assumes "distributeRunOpts base env = Inr lines" "list_all (\<lambda>x. x \<noteq> []) (base @ env)" "base @ env \<noteq> []"
  obtains chunks where "lines = map (\<lambda>c. TrimSpace (spaced c)) chunks" "concat chunks = base @ env"
proof -
  from assms(1) obtain s c ls where s: "fold_err addOption (base @ env) ([], []) = Inr s" "addLine s = Inr (c, ls)"
    "lines = (if ls = [] then [''''] else ls)" by (rule distributeRunOpts_steps)
  have "packed [] [] ([], [])" unfolding packed_def by (intro exI [of _ "[]"]) auto
  from iosxe.run_packed [OF s(1) this] assms(2) have "packed [] (base @ env) s" by simp
  from iosxe.finish_packed [OF s(2) this assms(2)] obtain chunks
    where c: "ls = map (\<lambda>c. TrimSpace (spaced c)) chunks" "concat chunks = base @ env" by auto
  with assms(3) have "ls \<noteq> []" by auto
  with c s(3) that show ?thesis by auto
qed

lemma nxos_base_lines:
  "fold_err nxosBaseLine base lines = Inr lines' \<Longrightarrow> length lines \<le> MaxRunOptsLines \<Longrightarrow>
     list_all (\<lambda>l. length l \<le> MaxRunOptsLineLength) lines \<Longrightarrow>
     lines' = lines @ base \<and> length lines' \<le> MaxRunOptsLines \<and> list_all (\<lambda>l. length l \<le> MaxRunOptsLineLength) lines'"
proof (induction base arbitrary: lines)
  case (Cons opt base)
  then have step: "nxosBaseLine opt lines = Inr (lines @ [opt])" "length opt \<le> MaxRunOptsLineLength" "length lines < MaxRunOptsLines"
    by (auto simp: nxosBaseLine_def split: sum.splits option.splits if_splits)
  with Cons.prems(1) have "fold_err nxosBaseLine base (lines @ [opt]) = Inr lines'" by simp
  from Cons.IH [OF this] step Cons.prems show ?case by auto
qed simp

lemma distributeNXOSRunOpts_steps:
  assumes "distributeNXOSRunOpts base env = Inr lines"
  obtains s c ls where "length base \<le> MaxRunOptsLines" "list_all (\<lambda>l. length l \<le> MaxRunOptsLineLength) base"
    "fold_err nxosAddOption env ([], base) = Inr s" "addLine s = Inr (c, ls)" "lines = (if ls = [] then [''''] else ls)"
  using assms nxos_base_lines [of base "[]"]
  by (auto simp: distributeNXOSRunOpts_def split: sum.splits prod.splits)

lemma nxos_lines_bounded:
  assumes "distributeNXOSRunOpts base env = Inr lines"
  shows "length lines \<le> MaxRunOptsLines \<and> list_all (\<lambda>l. length l \<le> MaxRunOptsLineLength) lines"
proof -
  from assms obtain s c ls where s: "length base \<le> MaxRunOptsLines" "list_all (\<lambda>l. length l \<le> MaxRunOptsLineLength) base"
    "fold_err nxosAddOption env ([], base) = Inr s" "addLine s = Inr (c, ls)" "lines = (if ls = [] then [''''] else ls)"
    by (rule distributeNXOSRunOpts_steps)
  have "bounded ([], base)" using s by (simp add: bounded_def)
  from nxos.finish_bounded [OF s(4) nxos.run_bounded [OF s(3) this]] s(5) show ?thesis by (simp add: bounded_def)
qed

lemma nxos_chunks:
  assumes "distributeNXOSRunOpts base env = Inr lines" "list_all (\<lambda>x. x \<noteq> []) env" "base \<noteq> []"
  obtains chunks where "lines = base @ map (\<lambda>c. TrimSpace (spaced c)) chunks" "concat chunks = env"
proof -
  from assms(1) obtain s c ls where s: "fold_err nxosAddOption env ([], base) = Inr s" "addLine s = Inr (c, ls)"
    "lines = (if ls = [] then [''''] else ls)" by (rule distributeNXOSRunOpts_steps)
  have "packed base [] ([], base)" unfolding packed_def by (intro exI [of _ "[]"]) auto
  from nxos.run_packed [OF s(1) this] assms(2) have "packed base env s" by simp
  from nxos.finish_packed [OF s(2) this assms(2)] obtain chunks
    where "ls = base @ map (\<lambda>c. TrimSpace (spaced c)) chunks" "concat chunks = env" by auto
  with assms(3) s(3) that show ?thesis by auto
qed

section \<open>Identity labels\<close>

text \<open>
  Names and UIDs of Kubernetes objects: not empty, printable, without \<^verbatim>\<open>=\<close>.
\<close>

definition label_safe :: "string \<Rightarrow> bool" where
  "label_safe v \<longleftrightarrow> v \<noteq> [] \<and> list_all is_graphic v \<and> CHR ''='' \<notin> set v"

definition option_ok :: "string \<Rightarrow> bool" where
  "option_ok x \<longleftrightarrow> x \<noteq> [] \<and> is_graphic (hd x) \<and> is_graphic (last x)"

definition lab :: "string \<times> string \<Rightarrow> string" where
  "lab = (\<lambda>(key, v). ''--label '' @ key @ ''='' @ v)"

definition other_key :: "string \<Rightarrow> string \<times> string \<Rightarrow> bool" where
  "other_key key = (\<lambda>(k, v). CHR ''='' \<notin> set k \<and> CHR '' '' \<notin> set k \<and> CHR ''='' \<notin> set v \<and> CHR '' '' \<notin> set v \<and> \<not> suffix key k)"

lemma env_options_ok: "buildEnvironmentOptions L envs = Inr opts \<Longrightarrow> list_all option_ok opts"
proof (induction envs arbitrary: opts)
  case (Cons env envs)
  have "option_ok (''-e '' @ ev_Name env @ ''='' @ escapeShellValue v)" for v
    by (simp add: option_ok_def escapeShellValue_def is_graphic_def)
  with Cons show ?case by (auto split: if_splits sum.splits)
qed simp

lemma nxos_env_options_ok: "nxosEnvironmentOptions L links envs = Inr opts \<Longrightarrow> list_all option_ok opts"
proof (induction envs arbitrary: opts)
  case (Cons env envs)
  have "option_ok (''--env '' @ ev_Name env @ ''='' @ escapeShellValue v)" for v
    by (simp add: option_ok_def escapeShellValue_def is_graphic_def)
  with Cons show ?case by (auto split: if_splits sum.splits option.splits)
qed simp

lemma spaced_ok:
  assumes "list_all option_ok c"
  shows "TrimSpace (spaced c) = spaced c"
proof (rule TrimSpace_ends)
  assume "spaced c \<noteq> []"
  then obtain x xs where c: "c = x # xs" by (cases c) auto
  then obtain ys y where y: "c = ys @ [y]" by (metis list.distinct(1) rev_exhaust)
  have "last (spaced c) = last y" "option_ok y" using assms y by (auto simp: spaced_snoc option_ok_def)
  moreover have "hd (spaced c) = hd x" "option_ok x" using assms c by (auto simp: option_ok_def)
  ultimately show "is_graphic (hd (spaced c)) \<and> is_graphic (last (spaced c))" by (simp add: option_ok_def)
qed

lemma lead_shift: "concat (map (\<lambda>y. CHR '' '' # y) a) @ CHR '' '' # r = CHR '' '' # lead a @ r"
  by (induction a) auto

lemma spaced_split: "spaced (a @ x # b) = lead a @ x @ concat (map (\<lambda>y. CHR '' '' # y) b)"
  by (cases a) (auto simp: lead_shift)

lemma spaced_lead: "c \<noteq> [] \<Longrightarrow> lead c = spaced c @ '' ''"
  using lead_shift [of "tl c" "[]"] by (cases c) auto

lemma lead_labels: "lead (map lab kvs) = lead (concat (map (\<lambda>(k, v). [''--label'', k @ ''='' @ v]) kvs))"
  by (induction kvs) (auto simp: lab_def)

text \<open>The words of other labels do not contain this key.\<close>

lemma other_label_words:
  assumes "other_key key kv" "CHR ''='' \<notin> set key" "w \<in> set (case kv of (k, v) \<Rightarrow> [''--label'', k @ ''='' @ v])"
  shows "CHR '' '' \<notin> set w \<and> \<not> sublist (key @ ''='') w"
proof -
  obtain k v where kv: "kv = (k, v)" by (cases kv)
  have "\<not> sublist (key @ ''='') (k @ ''='' @ v)"
  proof
    assume "sublist (key @ ''='') (k @ ''='' @ v)"
    then obtain x y where "k @ CHR ''='' # v = x @ key @ CHR ''='' # y" by (auto simp: sublist_def)
    then obtain z where z: "k @ CHR ''='' # v = (x @ key) @ CHR ''='' # y" by simp
    have "CHR ''='' \<notin> set x"
    proof
      assume "CHR ''='' \<in> set x"
      then obtain x1 x2 where x: "x = x1 @ CHR ''='' # x2" "CHR ''='' \<notin> set x1" by (meson split_list_first)
      then have "k @ CHR ''='' # v = x1 @ CHR ''='' # (x2 @ key @ CHR ''='' # y)" using z by simp
      then have "v = x2 @ key @ CHR ''='' # y" using split_at_unique x(2) assms(1) kv by (metis (no_types, lifting) other_key_def case_prodD)
      then show False using assms(1) kv by (auto simp: other_key_def)
    qed
    then have "k = x @ key" using split_at_unique [OF z] assms(1,2) kv by (auto simp: other_key_def)
    then show False using assms(1) kv by (auto simp: other_key_def suffix_def)
  qed
  moreover have "\<not> sublist (key @ ''='') ''--label''" by (auto dest: set_mono_sublist)
  ultimately show ?thesis using assms(1,3) kv by (auto simp: other_key_def)
qed

definition plain_key :: "string \<Rightarrow> bool" where
  "plain_key key \<longleftrightarrow> key \<noteq> [] \<and> hd key \<noteq> CHR ''-'' \<and> CHR '' '' \<notin> set key \<and> CHR ''='' \<notin> set key"

lemma chunk_absent:
  assumes "list_all (other_key key) kvs" "plain_key key"
  shows "ExtractLabelValue (spaced (map lab kvs)) key = ''''"
proof (rule extract_absent)
  have "\<not> sublist (key @ ''='') (lead (map lab kvs))"
    unfolding lead_labels using assms other_label_words
    by (subst sublist_lead) (fastforce simp: plain_key_def list_all_iff)+
  then show "\<not> sublist (key @ ''='') (spaced (map lab kvs))"
    using spaced_lead [of "map lab kvs"] by (cases kvs) (auto simp: sublist_append)
qed

lemma chunk_found:
  assumes "list_all (other_key key) kvs" "plain_key key" "CHR '' '' \<notin> set v"
  shows "ExtractLabelValue (spaced (map lab kvs @ lab (key, v) # b)) key = v"
proof -
  let ?rest = "concat (map (\<lambda>y. CHR '' '' # y) b)"
  have "spaced (map lab kvs @ lab (key, v) # b) =
      lead (concat (map (\<lambda>(k, v). [''--label'', k @ ''='' @ v]) kvs)) @ ''--label '' @ key @ ''='' @ v @ ?rest"
    unfolding spaced_split lead_labels by (simp add: lab_def)
  moreover have "ExtractLabelValue (lead (concat (map (\<lambda>(k, v). [''--label'', k @ ''='' @ v]) kvs)) @ ''--label '' @ key @ ''='' @ v @ ?rest) key = v"
  proof (rule extract_found)
    fix w assume "w \<in> set (concat (map (\<lambda>(k, v). [''--label'', k @ ''='' @ v]) kvs))"
    then obtain kv where "kv \<in> set kvs" "w \<in> set (case kv of (k, v) \<Rightarrow> [''--label'', k @ ''='' @ v])" by auto
    with other_label_words [of key kv w] assms(1,2)
    show "CHR '' '' \<notin> set w \<and> \<not> prefix (key @ ''='') w" by (auto simp: list_all_iff plain_key_def)
  next
    show "?rest = [] \<or> hd ?rest = CHR '' ''" by (cases b) auto
  qed (use assms(2,3) in \<open>auto simp: plain_key_def\<close>)
  ultimately show ?thesis by simp
qed

lemma concat_split:
  "concat chunks = P @ x # Q \<Longrightarrow> \<exists>C1 a b C2. chunks = C1 @ (a @ x # b) # C2 \<and> concat C1 @ a = P"
proof (induction chunks arbitrary: P)
  case (Cons c chunks)
  show ?case
  proof (cases "length P < length c")
    case True
    then obtain b where "c = P @ x # b" using Cons.prems by (auto simp: append_eq_append_conv2 append_eq_Cons_conv)
    then have "c # chunks = [] @ (P @ x # b) # chunks \<and> concat [] @ P = P" by simp
    then show ?thesis by blast
  next
    case False
    then obtain P' where P: "P = c @ P'" using Cons.prems by (auto simp: append_eq_append_conv2)
    with Cons.prems have "concat chunks = P' @ x # Q" by simp
    from Cons.IH [OF this] obtain C1 a b C2 where "chunks = C1 @ (a @ x # b) # C2" "concat C1 @ a = P'" by blast
    with P have "c # chunks = (c # C1) @ (a @ x # b) # C2 \<and> concat (c # C1) @ a = P" by simp
    then show ?thesis by blast
  qed
qed simp

lemma subset_image_map: "set d \<subseteq> f ` K \<Longrightarrow> \<exists>xs. d = map f xs \<and> set xs \<subseteq> K"
proof (induction d)
  case (Cons y d)
  then obtain x xs where "y = f x" "x \<in> K" "d = map f xs" "set xs \<subseteq> K" by auto
  then show ?case by (intro exI [of _ "x # xs"]) simp
qed simp

text \<open>Whatever follows, the first line that yields a value yields the one of the label.\<close>

lemma labels_survive:
  assumes "concat chunks = map lab kvs @ lab (key, v) # Q" "list_all (other_key key) kvs" "plain_key key"
    "CHR '' '' \<notin> set v" "v \<noteq> []"
  shows "first_value (\<lambda>l. ExtractLabelValue l key) (map spaced chunks) = v"
proof -
  from concat_split [OF assms(1)] obtain C1 a b C2
    where c: "chunks = C1 @ (a @ lab (key, v) # b) # C2" "concat C1 @ a = map lab kvs" by blast
  have sub: "\<exists>xs. d = map lab xs \<and> list_all (other_key key) xs" if "set d \<subseteq> set (map lab kvs)" for d
    using subset_image_map [of d lab "set kvs"] that assms(2) by (auto simp: list_all_iff)
  have "set a \<subseteq> set (map lab kvs)" "\<And>d. d \<in> set C1 \<Longrightarrow> set d \<subseteq> set (map lab kvs)"
    unfolding c(2) [symmetric] by auto
  note sub1 = sub [OF this(1)] and sub2 = sub [OF this(2)]
  have "ExtractLabelValue (spaced d) key = ''''" if "d \<in> set C1" for d
    using sub2 [OF that] chunk_absent assms(3) by blast
  moreover have "ExtractLabelValue (spaced (a @ lab (key, v) # b)) key = v"
    using sub1 chunk_found assms(3,4) by blast
  ultimately show ?thesis unfolding c(1) map_append list.map using assms(5) by (intro first_value_found) auto
qed

lemma label_safe_chars: "label_safe v \<Longrightarrow> CHR '' '' \<notin> set v \<and> CHR ''='' \<notin> set v \<and> v \<noteq> []"
  by (auto simp: label_safe_def list_all_iff is_graphic_def)

lemma identity_labels:
  "identity_options ns name uid ctr =
     map lab [(LabelPodName, name), (LabelPodNamespace, ns), (LabelPodUID, uid), (LabelContainerName, ctr)] @ [''--hostname='' @ ctr]"
  by (simp add: identity_options_def lab_def)

lemma identity_keys:
  assumes "label_safe ns" "label_safe name" "label_safe uid" "label_safe ctr"
  shows "plain_key LabelPodName" "plain_key LabelPodNamespace" "plain_key LabelPodUID" "plain_key LabelContainerName"
    "list_all (other_key LabelPodNamespace) [(LabelPodName, name)]"
    "list_all (other_key LabelPodUID) [(LabelPodName, name), (LabelPodNamespace, ns)]"
    "list_all (other_key LabelContainerName) [(LabelPodName, name), (LabelPodNamespace, ns), (LabelPodUID, uid)]"
  using assms [THEN label_safe_chars] by (simp_all add: plain_key_def other_key_def suffix_to_prefix)

lemma identity_options_ok:
  assumes "label_safe ns" "label_safe name" "label_safe uid" "label_safe ctr"
  shows "list_all option_ok (identity_options ns name uid ctr)"
proof -
  have "is_graphic (last v)" if "label_safe v" for v using that by (auto simp: label_safe_def list_all_iff)
  with assms show ?thesis by (auto simp: identity_options_def option_ok_def is_graphic_def dest: label_safe_chars)
qed

lemma identity_in_chunks:
  assumes safe: "label_safe ns" "label_safe name" "label_safe uid" "label_safe ctr" and env: "list_all option_ok envOpts"
    and c: "lines = map (\<lambda>c. TrimSpace (spaced c)) chunks" "concat chunks = identity_options ns name uid ctr @ envOpts"
  shows "PodIdentityFromRunOpts ('''', '''', '''', '''') lines = (ns, name, uid, ctr)"
proof -
  have "list_all option_ok d" if "d \<in> set chunks" for d
  proof -
    have "set d \<subseteq> set (identity_options ns name uid ctr @ envOpts)" using that unfolding c(2) [symmetric] by auto
    then show ?thesis using identity_options_ok [OF safe] env by (auto simp: list_all_iff)
  qed
  then have lines: "lines = map spaced chunks" using spaced_ok by (simp add: c(1))
  note keys = identity_keys [OF safe] and chars = safe [THEN label_safe_chars]
  have "first_value (\<lambda>l. ExtractLabelValue l LabelPodName) lines = name"
    unfolding lines using c(2) keys(1) chars(2) by (intro labels_survive [where kvs = "[]"]) (auto simp: identity_labels)
  moreover have "first_value (\<lambda>l. ExtractLabelValue l LabelPodNamespace) lines = ns"
    unfolding lines using c(2) keys(2,5) chars(1)
    by (intro labels_survive [where kvs = "[(LabelPodName, name)]"]) (auto simp: identity_labels)
  moreover have "first_value (\<lambda>l. ExtractLabelValue l LabelPodUID) lines = uid"
    unfolding lines using c(2) keys(3,6) chars(3)
    by (intro labels_survive [where kvs = "[(LabelPodName, name), (LabelPodNamespace, ns)]"]) (auto simp: identity_labels)
  moreover have "first_value ExtractContainerNameFromLabels lines = ctr"
    unfolding lines ExtractContainerNameFromLabels_def using c(2) keys(4,7) chars(4)
    by (intro labels_survive [where kvs = "[(LabelPodName, name), (LabelPodNamespace, ns), (LabelPodUID, uid)]"]) (auto simp: identity_labels)
  ultimately show ?thesis by (simp add: PodIdentity_parts)
qed

lemma option_ok_nonempty: "list_all option_ok opts \<Longrightarrow> list_all (\<lambda>x. x \<noteq> []) opts"
  by (auto simp: list_all_iff option_ok_def)

lemma iosxe_identity:
  assumes safe: "label_safe ns" "label_safe name" "label_safe uid" "label_safe ctr"
    and run: "xeRunOptions L ns name uid ctr envs = Inr lines"
  shows "PodIdentityFromRunOpts ('''', '''', '''', '''') lines = (ns, name, uid, ctr)"
proof -
  let ?base = "identity_options ns name uid ctr"
  from run obtain envOpts where env: "buildEnvironmentOptions L envs = Inr envOpts" "distributeRunOpts ?base envOpts = Inr lines"
    by (auto simp: xeRunOptions_def split: sum.splits)
  have "list_all option_ok (?base @ envOpts)" using identity_options_ok [OF safe] env_options_ok [OF env(1)] by simp
  moreover have "?base @ envOpts \<noteq> []" by (simp add: identity_options_def)
  ultimately obtain chunks where "lines = map (\<lambda>c. TrimSpace (spaced c)) chunks" "concat chunks = ?base @ envOpts"
    using iosxe_chunks [OF env(2)] option_ok_nonempty by blast
  from identity_in_chunks [OF safe env_options_ok [OF env(1)] this] show ?thesis .
qed

lemma nxos_identity:
  assumes safe: "label_safe ns" "label_safe name" "label_safe uid" "label_safe ctr"
    and run: "buildRunOptions L ns name uid ctr envs = Inr lines"
  shows "PodIdentityFromRunOpts ('''', '''', '''', '''') lines = (ns, name, uid, ctr)"
proof -
  let ?base = "identity_options ns name uid ctr"
  from run obtain envOpts where env: "nxosEnvironmentOptions L (serviceLinkPrefixes envs) envs = Inr envOpts"
    "distributeNXOSRunOpts ?base envOpts = Inr lines"
    by (auto simp: buildRunOptions_def split: sum.splits)
  note ok = identity_options_ok [OF safe] nxos_env_options_ok [OF env(1)]
  from env(2) obtain chunks where c: "lines = ?base @ map (\<lambda>c. TrimSpace (spaced c)) chunks" "concat chunks = envOpts"
    using nxos_chunks [OF env(2) option_ok_nonempty [OF ok(2)]] by (auto simp: identity_options_def)
  have "map (\<lambda>x. TrimSpace (spaced [x])) ?base = ?base"
    using ok(1) spaced_ok [of "[_]"] by (intro map_idI) (auto simp: list_all_iff)
  then have "lines = map (\<lambda>c. TrimSpace (spaced c)) (map (\<lambda>x. [x]) ?base @ chunks)" using c(1) by (simp add: comp_def)
  moreover have "concat (map (\<lambda>x. [x]) ?base @ chunks) = ?base @ envOpts" using c(2) by simp
  ultimately show ?thesis by (rule identity_in_chunks [OF safe ok(2)])
qed

end
