(* ===== verification/Netconf_Framing.thy ===== *)
theory Netconf_Framing
  imports Go_Strings Go_Time
begin

text \<open>
  The framing of NETCONF messages,
  \<^verbatim>\<open>internal/drivers/iosxe/configdriver/transport/netconf_framing.go\<close>. A buffered reader is
  the bytes still to come together with the error that follows them, which is the end of the file
  or a failure of the transport. A writer is a function on an abstract state that may fail.
\<close>

datatype io_error = EOF | UnexpectedEOF | ReadFailed string

datatype frame_error =
    Transport io_error | MidFrame nat | Expected string io_error | ExpectedByte string char char | ChunkSize io_error
  | BadChunkSize string | OutOfBounds int | ChunkBody io_error

type_synonym reader = "string \<times> io_error"
type_synonym 'w byte_writer = "string \<Rightarrow> 'w \<Rightarrow> io_error option \<times> 'w"

subsection \<open>Reading primitives\<close>

definition ReadByte :: "reader \<Rightarrow> io_error + char \<times> reader" where
  "ReadByte r = (case r of ([], e) \<Rightarrow> Inl e | (c # cs, e) \<Rightarrow> Inr (c, (cs, e)))"

text \<open>Up to and including a delimiter; without one the error is returned.\<close>

definition ReadBytes :: "char \<Rightarrow> reader \<Rightarrow> io_error + string \<times> reader" where
  "ReadBytes d r =
     (case dropWhile (\<lambda>c. c \<noteq> d) (fst r) of
        [] \<Rightarrow> Inl (snd r)
      | _ # rest \<Rightarrow> Inr (takeWhile (\<lambda>c. c \<noteq> d) (fst r) @ [d], (rest, snd r)))"

definition Peek :: "nat \<Rightarrow> reader \<Rightarrow> string \<times> io_error option" where
  "Peek n r = (take n (fst r), if length (fst r) < n then Some (snd r) else None)"

definition ReadFull :: "nat \<Rightarrow> reader \<Rightarrow> io_error + string \<times> reader" where
  "ReadFull n r =
     (if n \<le> length (fst r) then Inr (take n (fst r), (drop n (fst r), snd r))
      else Inl (if snd r = EOF \<and> fst r \<noteq> [] then UnexpectedEOF else snd r))"

lemma ReadBytes_shorter: "ReadBytes d r = Inr (chunk, r') \<Longrightarrow> length (fst r') < length (fst r)"
  using length_dropWhile_le [of "\<lambda>c. c \<noteq> d" "fst r"] by (auto simp: ReadBytes_def split: list.splits)

subsection \<open>End-of-message framing\<close>

abbreviation endOfMessage10 :: string where "endOfMessage10 \<equiv> '']]>]]>''"

definition writeFrame10 :: "'w byte_writer \<Rightarrow> string \<Rightarrow> 'w \<Rightarrow> io_error option \<times> 'w" where
  "writeFrame10 wr payload w = (case wr payload w of (Some e, w') \<Rightarrow> (Some e, w') | (None, w') \<Rightarrow> wr endOfMessage10 w')"

function read10_loop :: "string \<Rightarrow> reader \<Rightarrow> frame_error + string \<times> reader" where
  "read10_loop buf r =
     (case ReadBytes CHR '']'' r of
        Inl e \<Rightarrow> Inl (if e = EOF \<and> buf \<noteq> [] then MidFrame (length buf) else Transport e)
      | Inr (chunk, r') \<Rightarrow>
          (case Peek 5 r' of
             (peek, err) \<Rightarrow>
               if err \<noteq> None \<and> err \<noteq> Some EOF then Inl (Transport (the err))
               else if 5 \<le> length peek \<and> take 5 peek = '']>]]>''
               then Inr (butlast (buf @ chunk), (drop 5 (fst r'), snd r'))
               else read10_loop (buf @ chunk) r'))"
  by pat_completeness auto
termination
  by (relation "measure (\<lambda>(buf, r). length (fst r))") (auto dest: ReadBytes_shorter)

declare read10_loop.simps [simp del]

definition readFrame10 :: "reader \<Rightarrow> frame_error + string \<times> reader" where
  "readFrame10 r = read10_loop [] r"

subsection \<open>Chunked framing\<close>

definition writeFrame11 :: "'w byte_writer \<Rightarrow> string \<Rightarrow> 'w \<Rightarrow> io_error option \<times> 'w" where
  "writeFrame11 wr payload w =
     (case wr ([CHR 0x0A, CHR ''#''] @ show_nat (length payload) @ [CHR 0x0A]) w of
        (Some e, w1) \<Rightarrow> (Some e, w1)
      | (None, w1) \<Rightarrow>
          (case wr payload w1 of
             (Some e, w2) \<Rightarrow> (Some e, w2)
           | (None, w2) \<Rightarrow> wr [CHR 0x0A, CHR ''#'', CHR ''#'', CHR 0x0A] w2))"

definition expectByte :: "string \<Rightarrow> char \<Rightarrow> reader \<Rightarrow> frame_error + reader" where
  "expectByte what want r =
     (case ReadByte r of
        Inl e \<Rightarrow> Inl (Expected what e)
      | Inr (got, r') \<Rightarrow> if got \<noteq> want then Inl (ExpectedByte what want got) else Inr r')"

lemma expectByte_shorter: "expectByte what c r = Inr r' \<Longrightarrow> Suc (length (fst r')) = length (fst r)"
  by (auto simp: expectByte_def ReadByte_def split: sum.splits prod.splits list.splits if_splits)

lemma ReadFull_le: "ReadFull n r = Inr (chunk, r') \<Longrightarrow> length (fst r') \<le> length (fst r)"
  by (auto simp: ReadFull_def split: if_splits)

text \<open>
  \<^verbatim>\<open>fmt.Sscanf\<close> with the format \<^verbatim>\<open>%d\n\<close>: blanks, a sign, digits that fit
  64 bits, blanks, and the end of the line.
\<close>

definition skip_blanks :: "string \<Rightarrow> string" where
  "skip_blanks s = trim_with (filter (\<lambda>w. w \<noteq> [CHR 0x0A]) space_encodings) s"

definition scan_size :: "string \<Rightarrow> int option" where
  "scan_size line =
     (let s = skip_blanks line;
          neg = (s \<noteq> [] \<and> hd s = CHR ''-'');
          s = (if s \<noteq> [] \<and> (hd s = CHR ''-'' \<or> hd s = CHR ''+'') then tl s else s);
          digits = takeWhile is_digit s;
          rest = skip_blanks (dropWhile is_digit s)
      in if digits = [] then None
         else let n = int (digits_val digits); v = (if neg then - n else n)
              in if v < - (2 ^ 63) \<or> v > 2 ^ 63 - 1 then None
                 else if rest = [] \<or> hd rest = CHR 0x0A then Some v else None)"

function read11_loop :: "string \<Rightarrow> reader \<Rightarrow> frame_error + string \<times> reader" where
  "read11_loop out r =
     (case expectByte ''chunk LF'' CHR 0x0A r of
        Inl e \<Rightarrow> Inl e
      | Inr r1 \<Rightarrow>
          (case expectByte ''chunk #'' CHR ''#'' r1 of
             Inl e \<Rightarrow> Inl e
           | Inr r2 \<Rightarrow>
               (case Peek 1 r2 of
                  (peek, Some e) \<Rightarrow> Inl (Transport e)
                | (peek, None) \<Rightarrow>
                    if hd peek = CHR ''#''
                    then (case expectByte ''trailing LF'' CHR 0x0A (drop 1 (fst r2), snd r2) of
                            Inl e \<Rightarrow> Inl e | Inr r3 \<Rightarrow> Inr (out, r3))
                    else (case ReadBytes CHR 0x0A r2 of
                            Inl e \<Rightarrow> Inl (ChunkSize e)
                          | Inr (sizeLine, r3) \<Rightarrow>
                              (case scan_size sizeLine of
                                 None \<Rightarrow> Inl (BadChunkSize sizeLine)
                               | Some n \<Rightarrow>
                                   if n \<le> 0 \<or> n > 4 * 2 ^ 20 then Inl (OutOfBounds n)
                                   else (case ReadFull (nat n) r3 of
                                           Inl e \<Rightarrow> Inl (ChunkBody e)
                                         | Inr (chunk, r4) \<Rightarrow> read11_loop (out @ chunk) r4))))))"
  by pat_completeness auto
termination
  by (relation "measure (\<lambda>(out, r). length (fst r))")
    (auto dest!: expectByte_shorter ReadBytes_shorter ReadFull_le)

declare read11_loop.simps [simp del]

definition readFrame11 :: "reader \<Rightarrow> frame_error + string \<times> reader" where
  "readFrame11 r = read11_loop [] r"

section \<open>Searching for the marker\<close>

lemma Index_skip: "p = c # p' \<Longrightarrow> c \<notin> set pre \<Longrightarrow> Index (pre @ s) p = map_option ((+) (length pre)) (Index s p)"
proof (induction pre)
  case Nil
  then show ?case by (cases "Index s p") auto
next
  case (Cons x pre)
  then show ?case by (cases "Index s p") auto
qed

lemma Index_fits: "Index s p = Some n \<Longrightarrow> n + length p \<le> length s"
  by (induction s arbitrary: n) (auto split: if_splits dest: prefix_length_le)

lemma Index_append: "Index s p = Some n \<Longrightarrow> Index (s @ t) p = Some n"
proof (induction s arbitrary: n)
  case Nil
  then show ?case by (cases t) (auto split: if_splits)
next
  case (Cons c s)
  show ?case
  proof (cases "prefix p (c # s)")
    case True
    then have "prefix p ((c # s) @ t)" by (rule prefix_prefix)
    with True Cons.prems show ?thesis by simp
  next
    case False
    then obtain m where m: "Index s p = Some m" "n = Suc m" using Cons.prems by auto
    have "\<not> prefix p ((c # s) @ t)"
    proof
      assume "prefix p ((c # s) @ t)"
      then have "p = take (length p) ((c # s) @ t)" by (auto simp: prefix_def)
      moreover have "take (length p) ((c # s) @ t) = take (length p) (c # s)" unfolding take_append using Index_fits [OF m(1)] by simp
      ultimately show False using False take_is_prefix [of "length p" "c # s"] by simp
    qed
    with m Cons.IH [OF m(1)] show ?thesis by simp
  qed
qed

lemma marker_start: "prefix endOfMessage10 (CHR '']'' # s) \<longleftrightarrow> take 5 s = '']>]]>''"
  by (auto simp: prefix_def eval_nat_numeral) (metis append_take_drop_id append.simps)

lemma ReadBytes_found: "d \<notin> set pre \<Longrightarrow> ReadBytes d (pre @ d # rest, e) = Inr (pre @ [d], (rest, e))"
  by (simp add: ReadBytes_def takeWhile_tail dropWhile_append takeWhile_eq_all_conv [THEN iffD2])

lemma ReadBytes_missing: "d \<notin> set s \<Longrightarrow> ReadBytes d (s, e) = Inl e"
proof -
  assume "d \<notin> set s"
  then have "dropWhile (\<lambda>c. c \<noteq> d) s = []" by (auto simp: dropWhile_eq_Nil_conv)
  then show ?thesis by (simp add: ReadBytes_def del: dropWhile_eq_Nil_conv)
qed

text \<open>The position just after the last bracket, up to which the reader has buffered.\<close>

definition buffered :: "string \<Rightarrow> nat" where
  "buffered s = length s - length (takeWhile (\<lambda>c. c \<noteq> CHR '']'') (rev s))"

lemma buffered_none: "CHR '']'' \<notin> set s \<Longrightarrow> buffered s = 0"
proof -
  assume "CHR '']'' \<notin> set s"
  then have "takeWhile (\<lambda>c. c \<noteq> CHR '']'') (rev s) = rev s" by (auto simp: takeWhile_eq_all_conv)
  then show ?thesis unfolding buffered_def by (simp only: length_rev)
qed

lemma buffered_split: "buffered (pre @ CHR '']'' # rest) = length pre + 1 + buffered rest"
proof (cases "CHR '']'' \<in> set rest")
  case True
  then have "takeWhile (\<lambda>c. c \<noteq> CHR '']'') (rev rest @ CHR '']'' # rev pre) = takeWhile (\<lambda>c. c \<noteq> CHR '']'') (rev rest)"
    by (simp add: takeWhile_append1 [of "CHR '']''"])
  then show ?thesis using length_takeWhile_le [of "\<lambda>c. c \<noteq> CHR '']''" "rev rest"] by (simp add: buffered_def)
next
  case False
  then have "takeWhile (\<lambda>c. c \<noteq> CHR '']'') (rev rest @ CHR '']'' # rev pre) = rev rest"
    by (simp add: takeWhile_tail takeWhile_eq_all_conv) auto
  with buffered_none [OF False] show ?thesis by (simp add: buffered_def)
qed

lemma read10_spec:
  "read10_loop buf (s, e) =
     (case Index s endOfMessage10 of
        Some n \<Rightarrow> Inr (buf @ take n s, (drop (n + 6) s, e))
      | None \<Rightarrow> Inl (if e = EOF \<and> (buf \<noteq> [] \<or> CHR '']'' \<in> set s) then MidFrame (length buf + buffered s) else Transport e))"
proof (induction "length s" arbitrary: buf s rule: less_induct)
  case less
  show ?case
  proof (cases "CHR '']'' \<in> set s")
    case False
    then have "Index s endOfMessage10 = None" by (intro Index_None) (auto dest: occurs_chars)
    with False show ?thesis
      by (subst read10_loop.simps) (simp add: ReadBytes_missing buffered_none)
  next
    case True
    then obtain pre rest where s: "s = pre @ CHR '']'' # rest" "CHR '']'' \<notin> set pre" by (meson split_list_first)
    have read: "ReadBytes CHR '']'' (s, e) = Inr (pre @ [CHR '']''], (rest, e))" using s by (simp add: ReadBytes_found)
    have step: "read10_loop buf (s, e) =
        (if length rest < 5 \<and> e \<noteq> EOF then Inl (Transport e)
         else if 5 \<le> length rest \<and> take 5 rest = '']>]]>'' then Inr (buf @ pre, (drop 5 rest, e))
         else read10_loop (buf @ pre @ [CHR '']'']) (rest, e))"
      by (subst read10_loop.simps, subst read) (auto simp: Peek_def butlast_append)
    have index: "Index s endOfMessage10 = map_option ((+) (length pre)) (Index (CHR '']'' # rest) endOfMessage10)"
      unfolding s(1) by (rule Index_skip) (use s(2) in auto)
    show ?thesis
    proof (cases "take 5 rest = '']>]]>''")
      case True
      then have "length (take 5 rest) = 5" by simp
      then have "5 \<le> length rest" by simp
      moreover have "Index s endOfMessage10 = Some (length pre)" using index True marker_start [of rest] by simp
      ultimately show ?thesis unfolding step using True s(1) by simp
    next
      case False
      then have next_index: "Index s endOfMessage10 = map_option (\<lambda>n. length pre + Suc n) (Index rest endOfMessage10)"
        using index marker_start [of rest] by (cases "Index rest endOfMessage10") auto
      have ih: "read10_loop (buf @ pre @ [CHR '']'']) (rest, e) =
          (case Index rest endOfMessage10 of
             Some n \<Rightarrow> Inr ((buf @ pre @ [CHR '']'']) @ take n rest, (drop (n + 6) rest, e))
           | None \<Rightarrow> Inl (if e = EOF then MidFrame (length (buf @ pre @ [CHR '']'']) + buffered rest) else Transport e))"
        using less.hyps [of rest "buf @ pre @ [CHR '']'']"] s(1) by simp
      have "Index rest endOfMessage10 \<noteq> None \<Longrightarrow> 6 \<le> length rest" by (auto dest: Index_fits)
      then show ?thesis
        unfolding step using False ih next_index s(1) by (auto simp: buffered_split drop_Cons' add.commute split: option.splits)
    qed
  qed
qed

text \<open>A payload after which the first marker is the one that ends the frame.\<close>

definition frame10_safe :: "string \<Rightarrow> bool" where
  "frame10_safe payload \<longleftrightarrow> Index (payload @ endOfMessage10) endOfMessage10 = Some (length payload)"

lemma read10_safe:
  assumes "frame10_safe payload"
  shows "readFrame10 (payload @ endOfMessage10 @ rest, e) = Inr (payload, (rest, e))"
proof -
  have "Index (payload @ endOfMessage10 @ rest) endOfMessage10 = Some (length payload)"
    using Index_append [of "payload @ endOfMessage10" endOfMessage10 "length payload" rest] assms by (simp add: frame10_safe_def)
  then show ?thesis by (simp add: readFrame10_def read10_spec)
qed

section \<open>Chunks\<close>

lemma skip_blanks_id: "s = [] \<or> hd s = CHR 0x0A \<or> is_graphic (hd s) \<Longrightarrow> skip_blanks s = s"
  unfolding skip_blanks_def
  by (rule trim_with_id) (cases s; auto simp: space_encodings_def is_graphic_def)

lemma scan_size_show:
  assumes "int n < 2 ^ 63"
  shows "scan_size (show_nat n @ [CHR 0x0A]) = Some (int n)"
proof -
  have d: "list_all is_digit (show_nat n)" "show_nat n \<noteq> []" using show_nat_digits by auto
  then obtain c cs where c: "show_nat n = c # cs" "is_digit c" by (cases "show_nat n") auto
  then have "c \<noteq> CHR ''-''" "c \<noteq> CHR ''+''" "is_graphic c" by (auto simp: is_digit_def is_graphic_def)
  moreover have "takeWhile is_digit (show_nat n @ [CHR 0x0A]) = show_nat n" "dropWhile is_digit (show_nat n @ [CHR 0x0A]) = [CHR 0x0A]"
    using d(1) by (auto simp: list_all_iff takeWhile_append2 dropWhile_append2 is_digit_def)
  ultimately show ?thesis
    using assms d(2) c(1) skip_blanks_id [of "show_nat n @ [CHR 0x0A]"] skip_blanks_id [of "[CHR 0x0A]"]
      digits_val_show_nat [of n]
    by (auto simp: scan_size_def Let_def)
qed

definition chunk11 :: "string \<Rightarrow> string" where
  "chunk11 c = [CHR 0x0A, CHR ''#''] @ show_nat (length c) @ [CHR 0x0A] @ c"

lemma read11_end: "read11_loop out ([CHR 0x0A, CHR ''#'', CHR ''#'', CHR 0x0A] @ rest, e) = Inr (out, (rest, e))"
  by (subst read11_loop.simps) (simp add: expectByte_def ReadByte_def Peek_def)

lemma read11_chunk:
  assumes "int (length c) < 2 ^ 63"
  shows "read11_loop out (chunk11 c @ rest, e) =
    (if 0 < length c \<and> length c \<le> 4 * 2 ^ 20 then read11_loop (out @ c) (rest, e) else Inl (OutOfBounds (int (length c))))"
proof -
  let ?d = "show_nat (length c)"
  have d: "list_all is_digit ?d" "?d \<noteq> []" using show_nat_digits by auto
  then have nl: "CHR 0x0A \<notin> set ?d" by (auto simp: list_all_iff is_digit_def)
  have hash: "hd ?d \<noteq> CHR ''#''" using d by (cases ?d) (auto simp: is_digit_def)
  have line: "ReadBytes CHR 0x0A (?d @ CHR 0x0A # c @ rest, e) = Inr (?d @ [CHR 0x0A], (c @ rest, e))"
    by (rule ReadBytes_found [OF nl])
  have peek: "Peek (Suc 0) (?d @ CHR 0x0A # c @ rest, e) = ([hd ?d], None)" using d(2) by (cases ?d) (auto simp: Peek_def)
  have full: "ReadFull (length c) (c @ rest, e) = Inr (c, (rest, e))" by (simp add: ReadFull_def)
  have "read11_loop out (chunk11 c @ rest, e) =
      (if int (length c) \<le> 0 \<or> int (length c) > 4 * 2 ^ 20 then Inl (OutOfBounds (int (length c))) else read11_loop (out @ c) (rest, e))"
    by (subst read11_loop.simps)
      (simp add: chunk11_def expectByte_def ReadByte_def peek hash line scan_size_show [OF assms] full del: length_greater_0_conv)
  then show ?thesis by auto
qed

text \<open>A writer that collects what is written.\<close>

definition buf_write :: "string byte_writer" where
  "buf_write s w = (None, w @ s)"

lemma write10_bytes: "writeFrame10 buf_write payload w = (None, w @ payload @ endOfMessage10)"
  by (simp add: writeFrame10_def buf_write_def)

lemma write11_bytes:
  "writeFrame11 buf_write payload w = (None, w @ chunk11 payload @ [CHR 0x0A, CHR ''#'', CHR ''#'', CHR 0x0A])"
  by (simp add: writeFrame11_def buf_write_def chunk11_def)

end
