(* ===== verification/Workload_Properties.thy ===== *)
theory Workload_Properties
  imports Run_Options Netconf_Framing
begin

text \<open>
  What the naming of workloads, their run options and the NETCONF framing guarantee.
\<close>

section \<open>Workloads on a device\<close>

text \<open>
  C35: application names identify containers. In a pod with up to 128 containers and a UID of 32
  hexadecimal digits every container gets a name from which its index and the UID are read back,
  and no other name reads back the same.
\<close>

theorem app_names_identify_containers:
  assumes "distinct (pn_Containers pod)" "length (pn_Containers pod) \<le> 128" "k < length (pn_Containers pod)"
    "uid = cleanUUID (pn_UID pod)" "length uid = 32" "list_all is_lower_hex uid"
  shows "\<exists>name. fmlookup (GenerateContainerAppIDs pod) (pn_Containers pod ! k) = Some name \<and>
    ParseCVKAppName name = Some (int k, uid) \<and> (\<forall>s. ParseCVKAppName s = Some (int k, uid) \<longrightarrow> s = name)"
proof -
  have "to_int8 (int k) = int k" using assms(2,3) by (simp add: to_int8_small)
  then have "fmlookup (GenerateContainerAppIDs pod) (pn_Containers pod ! k) = Some (''cvk'' @ show_04d (int k) @ ''_'' @ uid)"
    using app_ids_lookup [OF assms(1,3)] assms(4) by (simp add: GetAppHostingName_def)
  then show ?thesis using assms(2,3,5,6) by (simp add: parse_app_name)
qed

definition ex_pod :: pod_names where
  "ex_pod = \<lparr> pn_UID = ''0123abcd-0123-abcd-0123-abcd0123abcd'', pn_Containers = [''app'', ''proxy''] \<rparr>"

theorem app_names_identify_containers_witness:
  "ParseCVKAppName ''cvk0001_0123abcd0123abcd0123abcd0123abcd'' = Some (1, ''0123abcd0123abcd0123abcd0123abcd'') \<and>
   fmlookup (GenerateContainerAppIDs ex_pod) ''proxy'' = Some ''cvk0001_0123abcd0123abcd0123abcd0123abcd''"
proof -
  have uid: "cleanUUID (pn_UID ex_pod) = ''0123abcd0123abcd0123abcd0123abcd''" by (simp add: ex_pod_def cleanUUID_def)
  have parse: "ParseCVKAppName ''cvk0001_0123abcd0123abcd0123abcd0123abcd'' = Some (1, ''0123abcd0123abcd0123abcd0123abcd'')"
    by code_simp
  show ?thesis
    using app_names_identify_containers [of ex_pod 1, OF _ _ _ refl] parse
    unfolding uid by (auto simp: ex_pod_def is_lower_hex_def is_digit_def)
qed



text \<open>
  C37: the identity of a pod survives. Reading the lines in their order returns the namespace, name
  and UID of the pod and the name of the container that were written, on either platform, no matter
  what the environment of the container contains.
\<close>

theorem pod_identity_survives:
  assumes "label_safe ns" "label_safe name" "label_safe uid" "label_safe ctr"
    and "xeRunOptions L ns name uid ctr envs = Inr lines \<or> buildRunOptions L ns name uid ctr envs = Inr lines"
  shows "PodIdentityFromRunOpts ('''', '''', '''', '''') lines = (ns, name, uid, ctr)"
  using assms(5) iosxe_identity [OF assms(1-4)] nxos_identity [OF assms(1-4)] by blast

definition ex_env :: "env_var list" where
  "ex_env = [\<lparr> ev_Name = ''X'',
     ev_Value = ''x --label io.kubernetes.pod.name=admin --label io.kubernetes.pod.namespace=kube-system y'', ev_ValueFrom = None \<rparr>]"

definition ex_listers :: listers where
  "ex_listers = \<lparr> ls_Secrets = None, ls_ConfigMaps = None \<rparr>"

definition ex_run_lines :: "string list" where
  "ex_run_lines =
     [''--label io.kubernetes.pod.name=web --label io.kubernetes.pod.namespace=default --label io.kubernetes.pod.uid=uid-1 --label io.kubernetes.container.name=app --hostname=app'',
      ''-e X='' @ [CHR 0x27] @ ''x --label io.kubernetes.pod.name=admin --label io.kubernetes.pod.namespace=kube-system y'' @ [CHR 0x27]]"

lemma ex_run: "xeRunOptions ex_listers ''default'' ''web'' ''uid-1'' ''app'' ex_env = Inr ex_run_lines"
  by code_simp

theorem pod_identity_survives_witness:
  "PodIdentityFromRunOpts ('''', '''', '''', '''') ex_run_lines = (''default'', ''web'', ''uid-1'', ''app'')"
  by (rule pod_identity_survives [of _ _ _ _ ex_listers ex_env])
    (simp_all add: label_safe_def is_graphic_def ex_run)


section \<open>NETCONF frames\<close>

text \<open>
  C39: frames are read back. A chunked frame returns exactly the payload that was written and leaves
  what follows, if the payload has between one byte and four megabytes; any other payload is written
  but refused by the reader. A frame with an end marker is read back if no marker starts inside
  the payload, including one that the payload completes only together with the end marker.
\<close>

theorem frames_roundtrip:
  assumes "int (length payload) < 2 ^ 63"
  shows "readFrame11 (snd (writeFrame11 buf_write payload []) @ rest, e) =
      (if 0 < length payload \<and> length payload \<le> 4 * 2 ^ 20 then Inr (payload, (rest, e)) else Inl (OutOfBounds (int (length payload))))
    \<and> (frame10_safe payload \<longrightarrow> readFrame10 (snd (writeFrame10 buf_write payload []) @ rest, e) = Inr (payload, (rest, e)))"
  using read11_chunk [OF assms, of "[]" "[CHR 0x0A, CHR ''#'', CHR ''#'', CHR 0x0A] @ rest" e] read10_safe [of payload rest e]
    read11_end [of payload rest e]
  by (auto simp: write10_bytes write11_bytes readFrame11_def)

theorem frames_roundtrip_witness:
  "readFrame11 (snd (writeFrame11 buf_write ''<ok/>'' []) @ ''next'', EOF) = Inr (''<ok/>'', (''next'', EOF)) \<and>
   readFrame10 (snd (writeFrame10 buf_write ''<ok/>'' []) @ ''next'', EOF) = Inr (''<ok/>'', (''next'', EOF)) \<and>
   readFrame11 (snd (writeFrame11 buf_write [] []), EOF) = Inl (OutOfBounds 0)"
  using frames_roundtrip [of "''<ok/>''" "''next''" EOF] frames_roundtrip [of "[]" "[]" EOF]
  by (simp add: frame10_safe_def)

text \<open>
  C40: the reader of marked frames always returns. On every finite stream it ends with the bytes
  before the first marker, leaving those after it, or, if there is no marker, with the error of
  the transport, or at the end of the file with the number of bytes it had buffered.
\<close>

theorem readFrame10_returns:
  "readFrame10 (s, e) =
     (case Index s endOfMessage10 of
        Some n \<Rightarrow> Inr (take n s, (drop (n + 6) s, e))
      | None \<Rightarrow> Inl (if e = EOF \<and> CHR '']'' \<in> set s then MidFrame (buffered s) else Transport e))"
  by (cases "Index s endOfMessage10") (simp_all add: readFrame10_def read10_spec)

end
