(* ===== verification/Spec2Isabelle.thy ===== *)
theory Spec2Isabelle
  imports Rollout_Properties Policy_Properties Lease_Properties Workload_Properties
begin

text \<open>
  A verification library for the Cisco virtual kubelet, a Kubernetes node agent and a set of
  controllers that run workloads on network devices, configure them and upgrade their software.
  All source files named below are relative to \<^verbatim>\<open>src/\<close>.

  \<^bold>\<open>The modelled parts and how they interact.\<close>

  \<^item> The \<^emph>\<open>rollout ledger\<close> (\<^verbatim>\<open>internal/topologyrollout/ledger.go\<close>) is the
    document in which a fleet upgrade reserves the right to take a device out of service. It is stored in a
    config map by \<^verbatim>\<open>store.go\<close> with optimistic locking.
  \<^item> The \<^emph>\<open>administrator policy\<close> (\<^verbatim>\<open>policy.go\<close>) gives the budgets the ledger
    enforces and binds one ledger object, once, on bootstrap.
  \<^item> The \<^emph>\<open>family lease\<close> (\<^verbatim>\<open>internal/drivers/iosxe/configdriver/engine/lease.go\<close>,
    \<^verbatim>\<open>internal/devicecoordination/mutation.go\<close>) lets one party at a time write to a device. The
    \<^emph>\<open>mutation guard\<close> (\<^verbatim>\<open>internal/provider/mutationguard/guard.go\<close>) takes that lease
    in the name of an upgrade or action whose effect on the device is still uncertain.
  \<^item> \<^emph>\<open>Workload naming\<close> (\<^verbatim>\<open>internal/drivers/common/naming.go\<close>) and the
    \<^emph>\<open>run options\<close> of containers (\<^verbatim>\<open>internal/drivers/iosxe/pod_transforms.go\<close>,
    \<^verbatim>\<open>internal/drivers/nxos/pod_transforms.go\<close>, \<^verbatim>\<open>internal/drivers/nxos/pod.go\<close>) write
    the identity of a pod to a device and read it back.
  \<^item> \<^emph>\<open>NETCONF framing\<close>
    (\<^verbatim>\<open>internal/drivers/iosxe/configdriver/transport/netconf_framing.go\<close>) delimits the messages to a
    device.

  \<^bold>\<open>The Go language and its library.\<close> \<open>Go_Prelude\<close>: maps with string keys, loops with early
  return. \<open>Go_Text\<close>, \<open>Go_Strings\<close>: byte strings, trimming, searching, decimal and hexadecimal numerals.
  \<open>Go_Time\<close>: instants as nanoseconds, the calendar, RFC 3339. \<open>Go_Json\<close>: printing and parsing of JSON as
  \<^verbatim>\<open>encoding/json\<close> does it. \<open>Go_Reflect\<close>: encoding and strict decoding of values of a described
  Go type, with the round trip proved once for all types. \<open>Go_Sha256\<close>: SHA-256 on words of 32 bits.
  \<open>Go_External\<close>: the record of functions of packages outside the repository (UUID parsing, the validators of
  Kubernetes names, label selectors) together with the behaviour that is assumed of them.

  \<^bold>\<open>The ledger.\<close> \<open>Ledger_Model\<close> has the types of \<^verbatim>\<open>ledger.go\<close> and
  \<^verbatim>\<open>validatePersistedLedger\<close>; \<open>Ledger_Wf\<close> states what a valid ledger is and that validation decides
  it. \<open>Ledger_Transitions\<close> has every command on an existing reservation, from \<open>BindChild\<close> to
  \<open>FenceUnboundAcquisition\<close>; \<open>Ledger_Reserve\<close> has \<open>Reserve\<close> with the binary search, the
  canonical members and all budget checks; \<open>Ledger_Codec\<close> has \<open>Encode\<close> and \<open>Decode\<close>. A command is a
  function from the ledger to an optional error and the ledger it leaves. \<open>Ledger_Lifecycle\<close> has the
  abstract life cycle of a reservation and the refinement of the commands to it, \<open>Ledger_Preserve\<close> the
  preservation of validity. \<open>Ledger_Store\<close> has \<open>Read\<close> and \<open>Mutate\<close>: the retries are a recursion on the
  number of attempts left, for any number of them, and what other writers do before each call is a parameter. \<open>Rollout_Properties\<close>
  (C1 to C17) shows that admission respects every budget, that commands keep the ledger valid, fail without effect,
  follow the life cycle and never move backwards, that removed acquisitions are fenced, that \<open>Mutate\<close> loses no
  update, and that the JSON form and its time stamps are read back.

  \<^bold>\<open>The policy.\<close> \<open>Admin_Policy\<close> has the configuration with its validation and the decisions taken
  with it, \<open>Admin_Document\<close> its JSON form and hashes, \<open>Admin_Bootstrap\<close> the binding to a ledger.
  \<open>Policy_Properties\<close> (C18 to C27) shows that a parsed policy is accepted by admission, that rates and
  drain requests stay within the limits, which protection applies, that documents are read back, what
  the hashes depend on, and that the binding happens once and does succeed.

  \<^bold>\<open>Leases.\<close> \<open>Family_Lease\<close> has the operations of \<open>FamilyLeaser\<close>; the set \<open>others\<close> contains all
  that other parties can do, nested inside each other's calls, and the locale \<open>held_resource\<close> carries a
  lease through it. \<open>release_loop\<close> makes the four attempts of the default backoff of the client
  library. \<open>Mutation_Guard\<close> has the guard on top of \<open>Acquire\<close>. \<open>Lease_Properties\<close> (C28 to
  C34) shows mutual exclusion until a lease expires, that a release gives the lease up, that lease names are valid,
  that all controllers agree on the canonical risk, that a quarantine excludes every other party for its whole and
  bounded time, and that the two readings of an upgrade's status agree.

  \<^bold>\<open>Workloads and transport.\<close> \<open>App_Naming\<close>, \<open>Run_Options\<close> and \<open>Netconf_Framing\<close> have the
  operations of their files. The locale \<open>line_packer\<close> is the contract of adding an option to the lines of a
  container, which both platforms fulfil. The readers of frames are recursive on the length of the
  stream, so no fuel is needed. \<open>Workload_Properties\<close> (C35 to C40) shows that application names identify
  containers, that run options fit the device and keep the identity of the pod when the lines are read in
  order, that another order can change it, that frames are read back, and what the reader of marked frames
  returns on every stream.

  \<^bold>\<open>Parameters.\<close> Kubernetes clients are records of functions on an abstract state: \<open>api\<close> and
  \<open>kube\<close> for config maps, \<open>lease_api\<close> for leases, \<open>guard_reader\<close> for lists of objects. What is
  assumed of them is a predicate, such as \<open>lease_writes\<close>: a successful conditional write stores the
  object. Each property with such a hypothesis is instantiated on a concrete client in memory.

  \<^bold>\<open>Not modelled.\<close> The controllers and reconcilers themselves, the virtual kubelet provider and the device
  drivers beyond the parts above consist mostly of calls to Kubernetes, gNOI, RESTCONF, NETCONF and
  command line interfaces, and of the YANG structures generated for them. Metrics, logging and events
  have no effect on the modelled state. The evaluation of network health depends on the printing of
  floating point numbers. Commands under \<^verbatim>\<open>cmd/\<close> wire these parts together, and
  \<^verbatim>\<open>charts/\<close>, \<^verbatim>\<open>docs/\<close> and \<^verbatim>\<open>dev/\<close> contain no Go code that runs in the product.
  Goroutines and locks inside one process are not modelled; concurrency is that of separate writers
  to the API.
\<close>

end
